(* ===== verification/Prelude.thy ===== *)
theory Prelude
  imports Main "HOL-Library.Word"
begin

unbundle bit_operations_syntax

text \<open>
  The prelude of the development: machine integers, the outcome type that every
  operation of the model returns, Rust's checked arithmetic and slice accesses, the
  byte images of machine integers on the little-endian target, and the lemma
  collections the component theories share.

  Outcomes. A Rust function returns a value, panics, or (through the raw pointer read in
  \<open>utils::bytes_to_struct\<close>) runs into undefined behaviour. \<open>Ret\<close> is the first,
  \<open>Fault\<close> the other two. Nothing is executed after a fault: every lock of the stack is
  held by the faulting thread, so it is poisoned and no other handler runs.

  Arithmetic. The README builds with \<^verbatim>\<open>cargo build\<close>, the development profile, and
  \<^verbatim>\<open>Cargo.toml\<close> changes no profile: overflow checks are on. An overflowing addition,
  subtraction or multiplication is a panic, not a wrapped value. \<open>as\<close> conversions
  truncate. \<open>usize\<close> lengths are natural numbers; only their subtraction is checked.
\<close>

type_synonym u8 = "8 word"
type_synonym u16 = "16 word"
type_synonym u32 = "32 word"
type_synonym bytes = "8 word list"

named_theorems exec_simps \<open>inversion of sequenced executions\<close>
named_theorems byte_simps \<open>byte images of machine integers\<close>

section \<open>Outcomes\<close>

datatype fault =
    Overflow            \<comment> \<open>arithmetic overflow check of the development profile\<close>
  | OutOfRange          \<comment> \<open>slice index or range check\<close>
  | UnwrapFailed        \<comment> \<open>\<open>unwrap\<close> or \<open>expect\<close> on \<open>None\<close> or \<open>Err\<close>\<close>
  | Panicked            \<comment> \<open>an explicit \<open>panic!\<close>\<close>
  | UndefinedBehaviour  \<comment> \<open>a raw pointer read past the end of its slice\<close>

datatype 'a exec = Ret 'a | Fault fault

text \<open>Rust's \<open>Result<T, ()>\<close>, the only result type of the stack.\<close>

datatype 'a result = Ok 'a | Err

fun and_then :: "'a exec \<Rightarrow> ('a \<Rightarrow> 'b exec) \<Rightarrow> 'b exec" where
  "and_then (Ret x) f = f x"
| "and_then (Fault e) f = Fault e"

fun unwrap_option :: "'a option \<Rightarrow> 'a exec" where
  "unwrap_option (Some x) = Ret x"
| "unwrap_option None = Fault UnwrapFailed"

fun unwrap_result :: "'a result \<Rightarrow> 'a exec" where
  "unwrap_result (Ok x) = Ret x"
| "unwrap_result Err = Fault UnwrapFailed"

definition returns :: "'a exec \<Rightarrow> bool" where
  "returns m \<longleftrightarrow> (case m of Ret _ \<Rightarrow> True | Fault _ \<Rightarrow> False)"

section \<open>Checked arithmetic and slices\<close>

definition checked_add :: "'a::len word \<Rightarrow> 'a word \<Rightarrow> 'a word exec" where
  "checked_add a b =
     (if unat a + unat b < 2 ^ LENGTH('a) then Ret (a + b) else Fault Overflow)"

definition checked_sub :: "'a::len word \<Rightarrow> 'a word \<Rightarrow> 'a word exec" where
  "checked_sub a b = (if b \<le> a then Ret (a - b) else Fault Overflow)"

definition usize_sub :: "nat \<Rightarrow> nat \<Rightarrow> nat exec" where
  "usize_sub a b = (if b \<le> a then Ret (a - b) else Fault Overflow)"

definition slice_get :: "'a list \<Rightarrow> nat \<Rightarrow> 'a exec" where
  "slice_get xs i = (if i < length xs then Ret (xs ! i) else Fault OutOfRange)"

definition slice_from :: "'a list \<Rightarrow> nat \<Rightarrow> 'a list exec" where
  "slice_from xs i = (if i \<le> length xs then Ret (drop i xs) else Fault OutOfRange)"

definition slice_to :: "'a list \<Rightarrow> nat \<Rightarrow> 'a list exec" where
  "slice_to xs i = (if i \<le> length xs then Ret (take i xs) else Fault OutOfRange)"

section \<open>Byte images on the little-endian target\<close>

definition u16_to_bytes :: "u16 \<Rightarrow> bytes" where
  "u16_to_bytes v = [ucast v, ucast (drop_bit 8 v)]"

definition u32_to_bytes :: "u32 \<Rightarrow> bytes" where
  "u32_to_bytes v =
     [ucast v, ucast (drop_bit 8 v), ucast (drop_bit 16 v), ucast (drop_bit 24 v)]"

definition u16_of_bytes :: "u8 \<Rightarrow> u8 \<Rightarrow> u16" where
  "u16_of_bytes a b = ucast a OR push_bit 8 (ucast b)"

definition u32_of_bytes :: "u8 \<Rightarrow> u8 \<Rightarrow> u8 \<Rightarrow> u8 \<Rightarrow> u32" where
  "u32_of_bytes a b c d =
     ucast a OR push_bit 8 (ucast b) OR push_bit 16 (ucast c) OR push_bit 24 (ucast d)"

section \<open>Lemmas on outcomes\<close>

lemma and_then_Ret_iff [exec_simps]:
  "and_then m f = Ret y \<longleftrightarrow> (\<exists>x. m = Ret x \<and> f x = Ret y)"
  by (cases m) auto

lemma and_then_Fault_iff [exec_simps]:
  "and_then m f = Fault e \<longleftrightarrow> m = Fault e \<or> (\<exists>x. m = Ret x \<and> f x = Fault e)"
  by (cases m) auto

lemma and_then_assoc: "and_then (and_then m f) g = and_then m (\<lambda>x. and_then (f x) g)"
  by (cases m) auto

lemma and_then_returns_iff [exec_simps]:
  "returns (and_then m f) \<longleftrightarrow> (\<exists>x. m = Ret x \<and> returns (f x))"
  by (cases m) (auto simp: returns_def)

lemma returns_iff: "returns m \<longleftrightarrow> (\<exists>x. m = Ret x)"
  by (cases m) (auto simp: returns_def)

lemma returns_Ret [simp]: "returns (Ret x)"
  by (simp add: returns_def)

lemma not_returns_Fault [simp]: "\<not> returns (Fault e)"
  by (simp add: returns_def)

lemma unwrap_option_Ret_iff [exec_simps]: "unwrap_option x = Ret y \<longleftrightarrow> x = Some y"
  by (cases x) auto

lemma unwrap_result_Ret_iff [exec_simps]: "unwrap_result x = Ret y \<longleftrightarrow> x = Ok y"
  by (cases x) auto

lemma result_not_Err [simp]: "r \<noteq> Err \<longleftrightarrow> (\<exists>x. r = Ok x)"
  by (cases r) auto

lemma result_not_Ok [simp]: "r \<noteq> Ok () \<longleftrightarrow> r = Err"
  by (cases r) auto

lemma and_then_cong [fundef_cong]:
  "m = m' \<Longrightarrow> (\<And>x. m' = Ret x \<Longrightarrow> f x = f' x) \<Longrightarrow> and_then m f = and_then m' f'"
  by (cases m') auto

lemma find_snoc:
  "find P (xs @ [x]) =
     (case find P xs of None \<Rightarrow> (if P x then Some x else None) | Some y \<Rightarrow> Some y)"
  by (induction xs) auto

lemma checked_add_Ret_iff [exec_simps]:
  fixes a b :: "'a::len word"
  shows "checked_add a b = Ret c \<longleftrightarrow> unat a + unat b < 2 ^ LENGTH('a) \<and> c = a + b"
  by (auto simp: checked_add_def)

lemma checked_add_unat:
  fixes a b :: "'a::len word"
  shows "checked_add a b = Ret c \<Longrightarrow> unat c = unat a + unat b"
  by (auto simp: checked_add_Ret_iff unat_word_ariths)

lemma checked_sub_Ret_iff [exec_simps]:
  "checked_sub a b = Ret c \<longleftrightarrow> b \<le> a \<and> c = a - b"
  by (auto simp: checked_sub_def)

lemma usize_sub_Ret_iff [exec_simps]: "usize_sub a b = Ret c \<longleftrightarrow> b \<le> a \<and> c = a - b"
  by (auto simp: usize_sub_def)

lemma slice_get_Ret_iff [exec_simps]:
  "slice_get xs i = Ret x \<longleftrightarrow> i < length xs \<and> x = xs ! i"
  by (auto simp: slice_get_def)

lemma slice_from_Ret_iff [exec_simps]:
  "slice_from xs i = Ret ys \<longleftrightarrow> i \<le> length xs \<and> ys = drop i xs"
  by (auto simp: slice_from_def)

lemma slice_to_Ret_iff [exec_simps]:
  "slice_to xs i = Ret ys \<longleftrightarrow> i \<le> length xs \<and> ys = take i xs"
  by (auto simp: slice_to_def)

section \<open>Lemmas on byte images\<close>

lemma unat_u8_lt [simp]: "unat (v :: u8) < 256"
  using unsigned_less [of v, where 'a = nat] by simp

lemma unat_u16_lt [simp]: "unat (v :: u16) < 65536"
  using unsigned_less [of v, where 'a = nat] by simp

lemma unat_u32_lt [simp]: "unat (v :: u32) < 4294967296"
  using unsigned_less [of v, where 'a = nat] by simp

lemma unat_of_nat_u16 [simp]: "k < 65536 \<Longrightarrow> unat (of_nat k :: u16) = k"
  by (simp add: unat_of_nat)

lemma unat_u16_65535: "unat (v :: u16) = 65535 \<longleftrightarrow> v = 0xffff"
proof
  assume "unat v = 65535"
  then have "v = of_nat 65535" by (metis of_nat_unat ucast_id)
  then show "v = 0xffff" by simp
qed simp

lemma unat_ucast_up [simp]:
  "unat (ucast (a :: u8) :: u16) = unat a"
  "unat (ucast (a :: u8) :: u32) = unat a"
  "unat (ucast (c :: u16) :: u32) = unat c"
proof -
  have "unat a < 65536" "unat a < 4294967296" "unat c < 4294967296"
    using unat_u8_lt [of a] unat_u16_lt [of c] by linarith+
  then show "unat (ucast a :: u16) = unat a" "unat (ucast a :: u32) = unat a"
    "unat (ucast c :: u32) = unat c"
    by (simp_all add: unsigned_ucast_eq take_bit_eq_mod)
qed

lemma unat_ucast_down [simp]:
  "unat (ucast (c :: u16) :: u8) = unat c mod 256"
  "unat (ucast (d :: u32) :: u8) = unat d mod 256"
  "unat (ucast (d :: u32) :: u16) = unat d mod 65536"
  by (simp_all add: unsigned_ucast_eq take_bit_eq_mod)

lemma length_u16_to_bytes [simp]: "length (u16_to_bytes v) = 2"
  by (simp add: u16_to_bytes_def)

lemma length_u32_to_bytes [simp]: "length (u32_to_bytes v) = 4"
  by (simp add: u32_to_bytes_def)

lemma bit_u8_high [simp]: "8 \<le> n \<Longrightarrow> \<not> bit (a :: u8) n"
  using bit_imp_le_length [of a n] by auto

lemma u16_of_to_bytes [byte_simps]:
  "u16_of_bytes (ucast v) (ucast (drop_bit 8 v)) = v"
  unfolding u16_of_bytes_def
  by (rule bit_word_eqI) (auto simp: bit_simps)

lemma u16_to_of_bytes [byte_simps]: "u16_to_bytes (u16_of_bytes a b) = [a, b]"
  unfolding u16_to_bytes_def u16_of_bytes_def
  by (auto intro!: bit_word_eqI simp: bit_simps)

lemma u32_of_to_bytes [byte_simps]:
  "u32_of_bytes (ucast v) (ucast (drop_bit 8 v)) (ucast (drop_bit 16 v)) (ucast (drop_bit 24 v)) = v"
proof (rule bit_word_eqI)
  fix n assume "n < LENGTH(32)"
  then consider "n < 8" | "8 \<le> n" "n < 16" | "16 \<le> n" "n < 24" | "24 \<le> n" "n < 32"
    by fastforce
  then show "bit (u32_of_bytes (ucast v) (ucast (drop_bit 8 v)) (ucast (drop_bit 16 v))
      (ucast (drop_bit 24 v))) n = bit v n"
    unfolding u32_of_bytes_def by cases (auto simp: bit_simps)
qed

lemma u32_to_of_bytes [byte_simps]: "u32_to_bytes (u32_of_bytes a b c d) = [a, b, c, d]"
  unfolding u32_to_bytes_def u32_of_bytes_def
  by (auto intro!: bit_word_eqI simp: bit_simps)

lemma not_word_of_nat: "unat (v :: u16) = n \<Longrightarrow> NOT v = of_nat (65535 - n)"
proof -
  assume "unat v = n"
  then have "v = of_nat n" "n \<le> 65535" using unat_u16_lt [of v] by auto
  then show ?thesis by (simp add: not_eq_complement of_nat_diff)
qed

section \<open>Cutting buffers into fields\<close>

lemma take_field: "n \<le> m \<Longrightarrow> take m b = take n b @ take (m - n) (drop n b)"
  by (metis le_add_diff_inverse take_add)

lemma take_1_drop: "i < length b \<Longrightarrow> take (Suc 0) (drop i b) = [b ! i]"
  by (simp add: take_Suc_conv_app_nth)

lemma take_2_drop: "i + 1 < length b \<Longrightarrow> take 2 (drop i b) = [b ! i, b ! (i + 1)]"
  by (simp add: take_Suc_conv_app_nth numeral_2_eq_2)

lemma take_4_drop:
  "i + 3 < length b \<Longrightarrow> take 4 (drop i b) = [b ! i, b ! (i + 1), b ! (i + 2), b ! (i + 3)]"
  by (simp add: take_Suc_conv_app_nth eval_nat_numeral)

lemmas take_drop_fields = take_1_drop take_2_drop take_4_drop

end
