(* ===== verification/Runtime.thy ===== *)
theory Runtime
  imports Prelude
begin

text \<open>
  What the stack uses of the Rust runtime and of the operating system, as an explicit
  state: the clock (\<open>SystemTime\<close>, nanoseconds since the epoch), the random numbers of the
  \<open>rand\<close> crate, the signals the process raises, and the \<open>std::sync::mpsc\<close> channels on
  which user commands sleep.

  The clock and the random numbers are parameters: \<open>clock w k\<close> is what the \<open>k\<close>-th call
  of \<open>SystemTime::now\<close> returns (not necessarily monotonic: the wall clock can be set
  back), \<open>rng w k\<close> the \<open>k\<close>-th number drawn. \<open>rng_in_range\<close> is the documented behaviour of
  \<open>gen_range(0..u32::MAX)\<close>. A channel is a queue with one sender and one receiver;
  sending fails once the receiver is dropped, receiving fails once the sender is dropped
  and the queue is empty. The record is extended by the device and the protocol
  contexts in the theories that use them, so every operation is stated for all its
  extensions.
\<close>

record channel =
  ch_queue :: "bool list"
  ch_receiver :: bool
  ch_sender :: bool

record world =
  clock :: "nat \<Rightarrow> nat"
  readings :: nat
  rng :: "nat \<Rightarrow> u32"
  draws :: nat
  raised :: "int list"
  chans :: "channel list"

section \<open>Time\<close>

definition system_time_now :: "'z world_scheme \<Rightarrow> nat \<times> 'z world_scheme" where
  "system_time_now w = (clock w (readings w), w\<lparr>readings := Suc (readings w)\<rparr>)"

definition system_time_elapsed :: "nat \<Rightarrow> 'z world_scheme \<Rightarrow> nat result \<times> 'z world_scheme" where
  "system_time_elapsed t w =
     (let (now, w') = system_time_now w in (if t \<le> now then Ok (now - t) else Err, w'))"

text \<open>The seconds of a \<open>SystemTime\<close> are a signed 64-bit integer.\<close>

definition system_time_checked_add :: "nat \<Rightarrow> nat \<Rightarrow> nat option" where
  "system_time_checked_add t d = (if t + d < 2 ^ 63 * 10 ^ 9 then Some (t + d) else None)"

definition duration_from_secs :: "nat \<Rightarrow> nat" where "duration_from_secs s = s * 10 ^ 9"
definition duration_from_micros :: "nat \<Rightarrow> nat" where "duration_from_micros s = s * 10 ^ 3"
definition as_secs :: "nat \<Rightarrow> nat" where "as_secs d = d div 10 ^ 9"
definition as_micros :: "nat \<Rightarrow> nat" where "as_micros d = d div 10 ^ 3"

section \<open>Random numbers and signals\<close>

definition gen_range_u32 :: "'z world_scheme \<Rightarrow> u32 \<times> 'z world_scheme" where
  "gen_range_u32 w = (rng w (draws w), w\<lparr>draws := Suc (draws w)\<rparr>)"

definition rng_in_range :: "'z world_scheme \<Rightarrow> bool" where
  "rng_in_range w \<longleftrightarrow> (\<forall>k. rng w k < 0xffffffff)"

definition raise_signal :: "int \<Rightarrow> 'z world_scheme \<Rightarrow> 'z world_scheme" where
  "raise_signal sig w = w\<lparr>raised := raised w @ [sig]\<rparr>"

section \<open>Channels\<close>

definition mpsc_channel :: "'z world_scheme \<Rightarrow> nat \<times> 'z world_scheme" where
  "mpsc_channel w =
     (length (chans w),
      w\<lparr>chans := chans w @ [\<lparr>ch_queue = [], ch_receiver = True, ch_sender = True\<rparr>]\<rparr>)"

definition chan_update :: "nat \<Rightarrow> (channel \<Rightarrow> channel) \<Rightarrow> 'z world_scheme \<Rightarrow> 'z world_scheme" where
  "chan_update c f w = (if c < length (chans w) then w\<lparr>chans := (chans w)[c := f (chans w ! c)]\<rparr> else w)"

definition chan_send :: "nat \<Rightarrow> bool \<Rightarrow> 'z world_scheme \<Rightarrow> unit result \<times> 'z world_scheme" where
  "chan_send c msg w =
     (if c < length (chans w) \<and> ch_receiver (chans w ! c)
      then (Ok (), chan_update c (\<lambda>ch. ch\<lparr>ch_queue := ch_queue ch @ [msg]\<rparr>) w)
      else (Err, w))"

text \<open>
  \<open>recv\<close> takes the oldest message; with none it blocks as long as the sender lives,
  and fails after that.
\<close>

datatype received = Message bool | Blocked | Disconnected

definition chan_recv :: "nat \<Rightarrow> 'z world_scheme \<Rightarrow> received \<times> 'z world_scheme" where
  "chan_recv c w =
     (if c < length (chans w) then
        (case ch_queue (chans w ! c) of
           m # ms \<Rightarrow> (Message m, chan_update c (\<lambda>ch. ch\<lparr>ch_queue := ms\<rparr>) w)
         | [] \<Rightarrow> (if ch_sender (chans w ! c) then Blocked else Disconnected, w))
      else (Disconnected, w))"

definition drop_receiver :: "nat \<Rightarrow> 'z world_scheme \<Rightarrow> 'z world_scheme" where
  "drop_receiver c w = chan_update c (\<lambda>ch. ch\<lparr>ch_receiver := False\<rparr>) w"

text \<open>Storing a sender in a control block drops the one it held.\<close>

definition drop_sender :: "nat option \<Rightarrow> 'z world_scheme \<Rightarrow> 'z world_scheme" where
  "drop_sender c_opt w =
     (case c_opt of None \<Rightarrow> w | Some c \<Rightarrow> chan_update c (\<lambda>ch. ch\<lparr>ch_sender := False\<rparr>) w)"

text \<open>
  Waking a sleeper: \<open>send\<close> on the channel if there is one, a failure is only logged.
\<close>

definition wake :: "nat option \<Rightarrow> bool \<Rightarrow> 'z world_scheme \<Rightarrow> 'z world_scheme" where
  "wake c_opt msg w = (case c_opt of None \<Rightarrow> w | Some c \<Rightarrow> snd (chan_send c msg w))"

section \<open>What each operation leaves alone\<close>

lemma system_time_now_simps [simp]:
  "fst (system_time_now w) = clock w (readings w)"
  "raised (snd (system_time_now w)) = raised w"
  "chans (snd (system_time_now w)) = chans w"
  "rng (snd (system_time_now w)) = rng w"
  "clock (snd (system_time_now w)) = clock w"
  by (simp_all add: system_time_now_def)

lemma wake_simps [simp]:
  "rng (wake c m w) = rng w" "clock (wake c m w) = clock w" "raised (wake c m w) = raised w"
  "draws (wake c m w) = draws w" "readings (wake c m w) = readings w"
  "length (chans (wake c m w)) = length (chans w)"
  by (auto simp: wake_def chan_send_def chan_update_def split: option.split)

end
