(* ===== verification/Utils.thy ===== *)
theory Utils
  imports Prelude
begin

text \<open>
  The utilities of \<^verbatim>\<open>src/src/utils/byte.rs\<close> and \<^verbatim>\<open>src/src/utils/mod.rs\<close>: byte order
  conversions, the conversion between structs and byte slices, and the Internet checksum.

  The target is little-endian (the README's x86 Linux), so \<open>TARGET_BIG_ENDIAN\<close> is false
  and the memory image of an integer is \<open>u16_to_bytes\<close> or \<open>u32_to_bytes\<close>. The image of a
  struct is the concatenation of its fields' images. The locale \<open>packed_struct\<close> is the
  contract of such a layout; each wire format interprets it where it is declared.

  The checksum is proved equal to a reference definition on natural numbers: the one's
  complement of the one's complement sum. \<open>cksum16_insert\<close> is the law every sender and
  receiver of the stack relies on: writing the checksum into a zeroed field makes the
  whole block sum to zero.
\<close>

section \<open>Byte order\<close>

definition TARGET_BIG_ENDIAN :: bool where
  "TARGET_BIG_ENDIAN = False"

definition byte_swap_u16 :: "u16 \<Rightarrow> u16" where
  "byte_swap_u16 v = push_bit 8 (v AND 0x00ff) OR drop_bit 8 (v AND 0xff00)"

definition byte_swap_u32 :: "u32 \<Rightarrow> u32" where
  "byte_swap_u32 v =
     push_bit 24 (v AND 0x000000ff) OR push_bit 8 (v AND 0x0000ff00)
     OR drop_bit 8 (v AND 0x00ff0000) OR drop_bit 24 (v AND 0xff000000)"

definition be_to_le_u16 :: "u16 \<Rightarrow> u16" where
  "be_to_le_u16 v = (if TARGET_BIG_ENDIAN then v else byte_swap_u16 v)"

definition le_to_be_u16 :: "u16 \<Rightarrow> u16" where
  "le_to_be_u16 v = (if TARGET_BIG_ENDIAN then v else byte_swap_u16 v)"

definition be_to_le_u32 :: "u32 \<Rightarrow> u32" where
  "be_to_le_u32 v = (if TARGET_BIG_ENDIAN then v else byte_swap_u32 v)"

definition le_to_be_u32 :: "u32 \<Rightarrow> u32" where
  "le_to_be_u32 v = (if TARGET_BIG_ENDIAN then v else byte_swap_u32 v)"

section \<open>Structs and byte slices\<close>

definition to_u8_slice :: "('s \<Rightarrow> bytes) \<Rightarrow> 's \<Rightarrow> bytes" where
  "to_u8_slice layout p = layout p"

definition bytes_to_struct :: "nat \<Rightarrow> (bytes \<Rightarrow> 's) \<Rightarrow> bytes \<Rightarrow> 's exec" where
  "bytes_to_struct n read b =
     (if n \<le> length b then Ret (read b) else Fault UndefinedBehaviour)"

section \<open>The Internet checksum\<close>

definition be_block :: "u8 \<Rightarrow> u8 \<Rightarrow> u16" where
  "be_block a b = push_bit 8 (ucast a) OR ucast b"

fun cksum16_blocks :: "bytes \<Rightarrow> nat \<Rightarrow> nat \<Rightarrow> u32 \<Rightarrow> (nat \<times> nat \<times> u32) exec" where
  "cksum16_blocks data i len acc =
     (if 1 < len then
        and_then (slice_get data i) (\<lambda>a.
        and_then (slice_get data (i + 1)) (\<lambda>b.
        and_then (checked_add acc (ucast (be_block a b))) (\<lambda>acc'.
          cksum16_blocks data (i + 2) (len - 2) acc')))
      else Ret (i, len, acc))"

declare cksum16_blocks.simps [simp del]

text \<open>Both summands are below \<open>2 ^ 16\<close>, so this addition cannot overflow.\<close>

lemma fold_step_unat:
  "unat ((acc AND 0xffff) + drop_bit 16 acc) = unat acc mod 65536 + unat acc div 65536"
  for acc :: u32
proof -
  have lo: "acc AND 0xffff = take_bit 16 acc"
    by (simp add: take_bit_eq_mask mask_eq_exp_minus_1)
  have "unat (take_bit 16 acc) = unat acc mod 65536"
    by (simp add: take_bit_eq_mod unat_mod_distrib)
  moreover have hi: "unat (drop_bit 16 acc) = unat acc div 65536"
    by (simp add: drop_bit_eq_div unat_div_distrib)
  moreover have "unat acc div 65536 < 65536" by (rule less_mult_imp_div_less) simp
  ultimately show ?thesis
    unfolding lo by (simp add: unat_word_ariths)
qed

lemma drop_bit_16_eq_0: "drop_bit 16 acc = 0 \<longleftrightarrow> unat acc < 65536" for acc :: u32
proof -
  have "drop_bit 16 acc = 0 \<longleftrightarrow> unat (drop_bit 16 acc) = 0" by (simp add: unat_eq_0)
  also have "unat (drop_bit 16 acc) = unat acc div 65536"
    by (simp add: drop_bit_eq_div unat_div_distrib)
  finally show ?thesis by (simp add: div_eq_0_iff)
qed

function cksum16_fold :: "u32 \<Rightarrow> u32" where
  "cksum16_fold acc =
     (if drop_bit 16 acc \<noteq> 0 then cksum16_fold ((acc AND 0xffff) + drop_bit 16 acc) else acc)"
  by pat_completeness auto
termination
proof (relation "measure unat", simp)
  fix acc :: u32
  assume "drop_bit 16 acc \<noteq> 0"
  then have "65536 \<le> unat acc" by (simp add: drop_bit_16_eq_0)
  then have "0 < unat acc div 65536" by (simp add: div_greater_zero_iff)
  moreover have "unat acc = 65536 * (unat acc div 65536) + unat acc mod 65536" by simp
  ultimately have "unat acc mod 65536 + unat acc div 65536 < unat acc" by linarith
  then show "((acc AND 0xffff) + drop_bit 16 acc, acc) \<in> measure unat"
    by (simp add: fold_step_unat)
qed

declare cksum16_fold.simps [simp del]

definition cksum16 :: "bytes \<Rightarrow> nat \<Rightarrow> u32 \<Rightarrow> u16 exec" where
  "cksum16 data len init =
     and_then (cksum16_blocks data 0 len init) (\<lambda>(i, len, acc).
     and_then
       (if 0 < len
        then and_then (slice_get data i) (\<lambda>a. checked_add acc (ucast (push_bit 8 (ucast a :: u16))))
        else Ret acc) (\<lambda>acc.
     Ret (NOT (ucast (cksum16_fold acc)))))"

text \<open>The reference: the sum of the big-endian blocks, and the end-around carry.\<close>

fun word_sum :: "bytes \<Rightarrow> nat" where
  "word_sum [] = 0"
| "word_sum [a] = 256 * unat a"
| "word_sum (a # b # bs) = 256 * unat a + unat b + word_sum bs"

definition ones_fold :: "nat \<Rightarrow> nat" where
  "ones_fold n = (if n = 0 then 0 else (n - 1) mod 65535 + 1)"

section \<open>Byte order lemmas\<close>

lemma bit_eq_by_index: "list_all (\<lambda>n. bit v n = bit w n) [0..<LENGTH('a)] \<Longrightarrow> v = w"
  for v w :: "'a::len word"
  by (rule bit_word_eqI) (simp add: list_all_iff)

lemma byte_swap_u16_of_bytes [byte_simps]: "byte_swap_u16 (u16_of_bytes a b) = u16_of_bytes b a"
  unfolding byte_swap_u16_def u16_of_bytes_def
  by (rule bit_eq_by_index) (simp add: bit_simps upt_rec)

lemma byte_swap_u32_of_bytes [byte_simps]:
  "byte_swap_u32 (u32_of_bytes a b c d) = u32_of_bytes d c b a"
  unfolding byte_swap_u32_def u32_of_bytes_def
  by (rule bit_eq_by_index) (simp add: bit_simps upt_rec)

lemmas byte_order_defs = be_to_le_u16_def le_to_be_u16_def be_to_le_u32_def le_to_be_u32_def
  TARGET_BIG_ENDIAN_def

lemma u16_cases_bytes: obtains a b where "v = u16_of_bytes a b"
  using u16_of_to_bytes [of v] by metis

lemma u32_cases_bytes: obtains a b c d where "v = u32_of_bytes a b c d"
  using u32_of_to_bytes [of v] by metis

lemma byte_swap_u16_twice [simp]: "byte_swap_u16 (byte_swap_u16 v) = v"
  by (cases v rule: u16_cases_bytes) (simp add: byte_simps)

lemma byte_swap_u32_twice [simp]: "byte_swap_u32 (byte_swap_u32 v) = v"
  by (cases v rule: u32_cases_bytes) (simp add: byte_simps)

lemma be_le_u16 [simp]: "be_to_le_u16 (le_to_be_u16 v) = v" "le_to_be_u16 (be_to_le_u16 v) = v"
  by (simp_all add: byte_order_defs)

lemma be_le_u32 [simp]: "be_to_le_u32 (le_to_be_u32 v) = v" "le_to_be_u32 (be_to_le_u32 v) = v"
  by (simp_all add: byte_order_defs)

lemma le_to_be_u16_inj [simp]: "le_to_be_u16 a = le_to_be_u16 b \<longleftrightarrow> a = b"
  by (metis be_le_u16(1))

lemma u16_wire [byte_simps]: "u16_to_bytes (le_to_be_u16 v) = rev (u16_to_bytes v)"
  by (cases v rule: u16_cases_bytes) (simp add: byte_order_defs byte_simps)

lemma ucast_le_to_be_u16 [simp]:
  "ucast (le_to_be_u16 v) = (ucast (drop_bit 8 v) :: u8)"
  "ucast (drop_bit 8 (le_to_be_u16 v)) = (ucast v :: u8)"
  using u16_wire [of v] by (simp_all add: u16_to_bytes_def)

lemma u32_wire [byte_simps]: "u32_to_bytes (le_to_be_u32 v) = rev (u32_to_bytes v)"
  by (cases v rule: u32_cases_bytes) (simp add: byte_order_defs byte_simps)

section \<open>The contract of a struct's memory layout\<close>

text \<open>
  \<open>wf\<close> holds of the values the Rust type can have (byte arrays of their declared
  length). The laws: the image has the struct's size; reading a struct from a buffer that
  starts with an image gives the struct back; reading consumes exactly the image.
\<close>

locale packed_struct =
  fixes size_of :: nat and wf :: "'s \<Rightarrow> bool"
    and layout :: "'s \<Rightarrow> bytes" and read :: "bytes \<Rightarrow> 's"
  assumes layout_length: "wf s \<Longrightarrow> length (layout s) = size_of"
    and read_layout: "wf s \<Longrightarrow> read (layout s @ rest) = s"
    and layout_read: "size_of \<le> length b \<Longrightarrow> layout (read b) = take size_of b"
    and wf_read: "size_of \<le> length b \<Longrightarrow> wf (read b)"
begin

lemma bytes_to_struct_layout:
  assumes "wf s"
  shows "bytes_to_struct size_of read (to_u8_slice layout s @ rest) = Ret s"
  using assms by (simp add: bytes_to_struct_def to_u8_slice_def layout_length read_layout)

lemma bytes_to_struct_only_layout:
  assumes "wf s"
  shows "bytes_to_struct size_of read (to_u8_slice layout s) = Ret s"
  using bytes_to_struct_layout [OF assms, of "[]"] by simp

lemma bytes_to_struct_Ret_iff:
  "bytes_to_struct size_of read b = Ret s \<longleftrightarrow>
     wf s \<and> size_of \<le> length b \<and> to_u8_slice layout s = take size_of b"
proof
  assume "bytes_to_struct size_of read b = Ret s"
  then show "wf s \<and> size_of \<le> length b \<and> to_u8_slice layout s = take size_of b"
    by (auto simp: bytes_to_struct_def to_u8_slice_def layout_read wf_read split: if_splits)
next
  assume s: "wf s \<and> size_of \<le> length b \<and> to_u8_slice layout s = take size_of b"
  then have "b = layout s @ drop size_of b"
    by (metis append_take_drop_id to_u8_slice_def)
  then have "read b = s" using s read_layout by metis
  with s show "bytes_to_struct size_of read b = Ret s" by (simp add: bytes_to_struct_def)
qed

lemma layout_inj:
  assumes "wf s" "wf t" "layout s = layout t"
  shows "s = t"
  using read_layout [OF assms(1), of "[]"] read_layout [OF assms(2), of "[]"] assms(3) by simp

end

section \<open>Correctness of the checksum\<close>

lemma unat_push_8 [simp]: "unat (push_bit 8 (ucast (a :: u8)) :: u16) = 256 * unat a"
proof -
  have "256 * unat a < 65536" using unat_u8_lt [of a] by linarith
  then show ?thesis by (simp add: push_bit_eq_mult unat_word_ariths mult.commute)
qed

lemma unat_be_block [simp]: "unat (be_block a b) = 256 * unat a + unat b"
proof -
  have "be_block a b = push_bit 8 (ucast a) + ucast b"
    unfolding be_block_def
    by (rule disjunctive_add [symmetric]) (auto simp: bit_simps)
  moreover have "256 * unat a + unat b < 65536"
    using unat_u8_lt [of a] unat_u8_lt [of b] by linarith
  ultimately show ?thesis by (simp add: unat_word_ariths)
qed

lemma unat_cksum16_fold: "unat (cksum16_fold acc) = ones_fold (unat acc)"
proof (induction acc rule: cksum16_fold.induct)
  case (1 acc)
  show ?case
  proof (cases "unat acc < 65536")
    case True
    then show ?thesis
      by (subst cksum16_fold.simps) (auto simp: drop_bit_16_eq_0 ones_fold_def)
  next
    case False
    define n where "n = unat acc"
    have n: "65536 \<le> n" using False by (simp add: n_def)
    have step: "unat (cksum16_fold acc) = ones_fold (n mod 65536 + n div 65536)"
      using 1 False by (subst cksum16_fold.simps) (simp add: drop_bit_16_eq_0 fold_step_unat n_def)
    have pos: "0 < n div 65536" using n by (simp add: div_greater_zero_iff)
    have "n = 65536 * (n div 65536) + n mod 65536" by simp
    with pos have "n - 1 = (n mod 65536 + n div 65536 - 1) + 65535 * (n div 65536)"
      by linarith
    then have "(n - 1) mod 65535 = (n mod 65536 + n div 65536 - 1) mod 65535"
      by (metis mod_mult_self2)
    with step pos n show ?thesis by (simp add: ones_fold_def n_def)
  qed
qed

lemma ones_fold_le: "ones_fold n \<le> 65535"
proof -
  have "(n - 1) mod 65535 < 65535" by simp
  then have "(n - 1) mod 65535 + 1 \<le> 65535" by linarith
  then show ?thesis unfolding ones_fold_def by (simp only: split: if_split) simp
qed

lemma word_sum_pair:
  "1 < n \<Longrightarrow> i + n \<le> length bs \<Longrightarrow>
   word_sum (take n (drop i bs)) =
     256 * unat (bs ! i) + unat (bs ! Suc i) + word_sum (take (n - 2) (drop (i + 2) bs))"
proof -
  assume n: "1 < n" "i + n \<le> length bs"
  then have "drop i bs = bs ! i # bs ! Suc i # drop (i + 2) bs"
    by (simp add: Cons_nth_drop_Suc)
  moreover obtain m where "n = Suc (Suc m)"
    using less_imp_Suc_add [OF n(1)] by auto
  ultimately show ?thesis by simp
qed

lemma cksum16_blocks_Ret:
  assumes "i + len \<le> length data" "unat acc + word_sum (take len (drop i data)) < 4294967296"
  shows "\<exists>acc'. cksum16_blocks data i len acc = Ret (i + 2 * (len div 2), len mod 2, acc') \<and>
    unat acc' = unat acc + word_sum (take (2 * (len div 2)) (drop i data))"
  using assms
proof (induction data i len acc rule: cksum16_blocks.induct)
  case (1 data i len acc)
  show ?case
  proof (cases "1 < len")
    case False
    then have "len = 0 \<or> len = 1" by auto
    with False show ?thesis by (subst cksum16_blocks.simps) auto
  next
    case True
    let ?b = "ucast (be_block (data ! i) (data ! (i + 1))) :: u32"
    have pair: "word_sum (take k (drop i data)) =
        unat ?b + word_sum (take (k - 2) (drop (i + 2) data))" if "1 < k" "k \<le> len" for k
      using word_sum_pair [of k i data] that "1.prems"(1) by simp
    have lt: "unat acc + unat ?b + word_sum (take (len - 2) (drop (i + 2) data)) < 4294967296"
      using "1.prems"(2) pair [of len] True by simp
    then have add: "checked_add acc ?b = Ret (acc + ?b)" by (simp add: checked_add_def)
    have un: "unat (acc + ?b) = unat acc + unat ?b" by (rule checked_add_unat [OF add])
    have get: "slice_get data i = Ret (data ! i)" "slice_get data (i + 1) = Ret (data ! (i + 1))"
      using "1.prems"(1) True by (simp_all add: slice_get_def)
    have "i + 2 + (len - 2) \<le> length data" using "1.prems"(1) True by simp
    from "1.IH" [OF True get add this] lt un obtain acc' where acc':
      "cksum16_blocks data (i + 2) (len - 2) (acc + ?b) =
         Ret (i + 2 + 2 * ((len - 2) div 2), (len - 2) mod 2, acc')"
      "unat acc' = unat (acc + ?b) + word_sum (take (2 * ((len - 2) div 2)) (drop (i + 2) data))"
      by auto
    have half: "2 * ((len - 2) div 2) = 2 * (len div 2) - 2" "2 \<le> 2 * (len div 2)"
      "(len - 2) mod 2 = len mod 2" "2 * (len div 2) \<le> len"
      using True by (simp_all add: le_mod_geq div_if [of len 2])
    have "cksum16_blocks data i len acc = cksum16_blocks data (i + 2) (len - 2) (acc + ?b)"
      using True get add by (subst cksum16_blocks.simps) simp
    moreover have "i + 2 + 2 * ((len - 2) div 2) = i + 2 * (len div 2)"
      using half by linarith
    ultimately have "cksum16_blocks data i len acc = Ret (i + 2 * (len div 2), len mod 2, acc')"
      by (simp only: acc'(1) half(3))
    moreover have "unat acc' = unat acc + word_sum (take (2 * (len div 2)) (drop i data))"
      using pair [of "2 * (len div 2)"] half unfolding acc'(2) un half(1) by linarith
    ultimately show ?thesis by blast
  qed
qed

lemma word_sum_append: "even (length xs) \<Longrightarrow> word_sum (xs @ ys) = word_sum xs + word_sum ys"
  by (induction xs rule: word_sum.induct) auto

lemma word_sum_take_odd:
  assumes "odd len" "len \<le> length data"
  shows "word_sum (take len data) = word_sum (take (2 * (len div 2)) data) + 256 * unat (data ! (len - 1))"
proof -
  have len: "len = Suc (2 * (len div 2))" using assms(1) by presburger
  have "take len data = take (2 * (len div 2)) data @ [data ! (2 * (len div 2))]"
    using assms(2) len by (metis Suc_le_lessD take_Suc_conv_app_nth)
  moreover have "even (length (take (2 * (len div 2)) data))"
    using assms(2) len by (simp add: min_def)
  moreover have "len - 1 = 2 * (len div 2)" using len by linarith
  ultimately show ?thesis by (simp only: word_sum_append word_sum.simps)
qed

lemma word_sum_bound: "word_sum bs \<le> 65535 * ((length bs + 1) div 2)"
proof (induction bs rule: word_sum.induct)
  case (2 a)
  then show ?case using unat_u8_lt [of a] by (simp del: unat_u8_lt)
next
  case (3 a b bs)
  then show ?case using unat_u8_lt [of a] unat_u8_lt [of b] by (simp del: unat_u8_lt)
qed simp

lemma cksum16_reference:
  assumes "len \<le> length data" "unat init + word_sum (take len data) < 4294967296"
  shows "cksum16 data len init = Ret (of_nat (65535 - ones_fold (unat init + word_sum (take len data))))"
proof -
  obtain acc where acc: "cksum16_blocks data 0 len init = Ret (2 * (len div 2), len mod 2, acc)"
    "unat acc = unat init + word_sum (take (2 * (len div 2)) data)"
    using cksum16_blocks_Ret [of 0 len data init] assms by auto
  define w where "w = (if odd len then ucast (push_bit 8 (ucast (data ! (len - 1)) :: u16)) else 0 :: u32)"
  have total: "unat acc + unat w = unat init + word_sum (take len data)"
    using word_sum_take_odd [of len data] assms(1) acc(2) by (auto simp: w_def elim!: evenE)
  have add: "checked_add acc w = Ret (acc + w)" using total assms(2) by (simp add: checked_add_def)
  have "(if 0 < len mod 2
        then and_then (slice_get data (2 * (len div 2)))
          (\<lambda>a. checked_add acc (ucast (push_bit 8 (ucast a :: u16))))
        else Ret acc) = Ret (acc + w)"
  proof (cases "odd len")
    case True
    then have "2 * (len div 2) = len - 1" "0 < len" by presburger+
    with True add assms(1) show ?thesis by (simp add: slice_get_def w_def odd_iff_mod_2_eq_one)
  qed (simp add: w_def even_iff_mod_2_eq_zero)
  then have ret: "cksum16 data len init = Ret (NOT (ucast (cksum16_fold (acc + w))))"
    by (simp add: cksum16_def acc(1))
  let ?n = "ones_fold (unat init + word_sum (take len data))"
  have "unat (cksum16_fold (acc + w)) = ?n"
    using checked_add_unat [OF add] total by (simp add: unat_cksum16_fold)
  then have "unat (ucast (cksum16_fold (acc + w)) :: u16) = ?n"
    using ones_fold_le [of "unat init + word_sum (take len data)"] by simp
  then have "NOT (ucast (cksum16_fold (acc + w))) = (of_nat (65535 - ?n) :: u16)"
    using ones_fold_le [of "unat init + word_sum (take len data)"]
    by (metis not_word_of_nat)
  with ret show ?thesis by simp
qed

text \<open>
  Checksum insertion: with the two bytes at an even offset zero, writing the checksum of
  the block there makes the checksum of the whole block zero.
\<close>

definition put_be16 :: "bytes \<Rightarrow> nat \<Rightarrow> u16 \<Rightarrow> bytes" where
  "put_be16 data k c = data[k := ucast (drop_bit 8 (c AND 0xff00)), k + 1 := ucast (c AND 0xff)]"

lemma put_be16_bytes:
  "ucast (drop_bit 8 (c AND 0xff00)) = (ucast (drop_bit 8 c) :: u8)"
  "ucast (c AND 0xff) = (ucast c :: u8)" for c :: u16
  by (rule bit_eq_by_index, simp add: bit_simps upt_rec)+

lemma length_put_be16 [simp]: "length (put_be16 data k c) = length data"
  by (simp add: put_be16_def)

lemma put_be16_conv:
  assumes "k + 1 < length data"
  shows "put_be16 data k c = take k data @ rev (u16_to_bytes c) @ drop (k + 2) data"
proof -
  define xs where "xs = take k data"
  have "data = xs @ data ! k # data ! Suc k # drop (Suc (Suc k)) data"
    using assms by (simp add: Cons_nth_drop_Suc xs_def)
  then obtain a b ys where data: "data = xs @ a # b # ys" by blast
  have "length xs = k" using assms by (simp add: xs_def)
  then show ?thesis
    unfolding put_be16_def put_be16_bytes u16_to_bytes_def data
    by (auto simp: list_update_append)
qed

lemma word_sum_be16: "word_sum (rev (u16_to_bytes c)) = unat c"
proof -
  have "unat c div 256 < 256" by (rule less_mult_imp_div_less) simp
  then show ?thesis by (simp add: u16_to_bytes_def drop_bit_eq_div unat_div_distrib)
qed

lemma word_sum_put_be16:
  assumes "even k" "k + 1 < length data" "data ! k = 0" "data ! (k + 1) = 0"
  shows "word_sum (put_be16 data k c) = word_sum data + unat c"
proof -
  have "data = take k data @ [0, 0] @ drop (k + 2) data"
    using assms(2-4) id_take_nth_drop [of k data] Cons_nth_drop_Suc [of "k + 1" data] by simp
  then have "word_sum data = word_sum (take k data @ [0, 0] @ drop (k + 2) data)" by simp
  also have "\<dots> = word_sum (take k data) + word_sum (drop (k + 2) data)"
    using assms by (simp add: word_sum_append min_def)
  finally show ?thesis
    using assms by (simp add: put_be16_conv word_sum_append word_sum_be16 min_def)
qed

lemma ones_fold_add_complement: "ones_fold (n + (65535 - ones_fold n)) = 65535"
proof (cases "n = 0")
  case False
  define r where "r = (n - 1) mod 65535"
  have r: "ones_fold n = r + 1" "r < 65535" using False by (simp_all add: ones_fold_def r_def)
  have "n - 1 = 65535 * ((n - 1) div 65535) + r" by (simp add: r_def)
  then have "n + (65535 - ones_fold n) - 1 = 65534 + 65535 * ((n - 1) div 65535)"
    using False r by linarith
  then have "(n + (65535 - ones_fold n) - 1) mod 65535 = 65534" by simp
  then show ?thesis using False by (simp add: ones_fold_def)
qed (simp add: ones_fold_def)

lemma cksum16_insert:
  assumes "even k" "k + 1 < length data" "data ! k = 0" "data ! (k + 1) = 0"
    and "unat init + word_sum data + 65535 < 4294967296"
    and "cksum16 data (length data) init = Ret c"
  shows "cksum16 (put_be16 data k c) (length data) init = Ret 0"
proof -
  let ?n = "unat init + word_sum data"
  have "c = of_nat (65535 - ones_fold ?n)"
    using cksum16_reference [of "length data" data init] assms(5,6) by simp
  then have c: "unat c = 65535 - ones_fold ?n"
    by (simp add: unat_of_nat)
  have "word_sum (put_be16 data k c) = word_sum data + unat c"
    by (rule word_sum_put_be16 [OF assms(1-4)])
  then have "unat init + word_sum (put_be16 data k c) = ?n + (65535 - ones_fold ?n)"
    using c by simp
  then have total: "unat init + word_sum (take (length data) (put_be16 data k c)) =
      ?n + (65535 - ones_fold ?n)" by simp
  have "cksum16 (put_be16 data k c) (length data) init =
      Ret (of_nat (65535 - ones_fold (?n + (65535 - ones_fold ?n))))"
    using cksum16_reference [of "length data" "put_be16 data k c" init] assms(5)
    unfolding total by simp
  then show ?thesis unfolding ones_fold_add_complement by simp
qed

end
