(* ===== verification/Linked_List.thy ===== *)
theory Linked_List
  imports Prelude
begin

text \<open>
  The singly linked list of \<^verbatim>\<open>src/src/utils/list.rs\<close>: \<open>push\<close> walks to the last node and
  appends there, \<open>iter\<close> and \<open>iter_mut\<close> visit the nodes from the head. The mutable iterator
  is a cursor; \<open>iter_mut_next\<close> is its \<open>next\<close>. A \<open>for\<close> loop over it is \<open>for_iter_mut\<close>: it calls
  \<open>next\<close> until that returns nothing or the body leaves the loop; the body may change the element
  it was lent and a state of its own.

  The locale \<open>sequence\<close> is the contract the tables of the stack (devices, protocols,
  routes, interfaces) rely on: the elements come out in the order they went in. Its
  lemmas on lookups are proved once there; the interpretation \<open>rust_list\<close> discharges the
  contract for the linked list.
\<close>

datatype 'a node = Node 'a "'a node option"

record 'a linked_list =
  head :: "'a node option"

datatype control = Continue | Break

definition list_new :: "'a linked_list" where
  "list_new = \<lparr>head = None\<rparr>"

fun node_push :: "'a node \<Rightarrow> 'a \<Rightarrow> 'a node" where
  "node_push (Node e None) x = Node e (Some (Node x None))"
| "node_push (Node e (Some n)) x = Node e (Some (node_push n x))"

definition list_push :: "'a linked_list \<Rightarrow> 'a \<Rightarrow> 'a linked_list" where
  "list_push l x =
     (case head l of
        None \<Rightarrow> l\<lparr>head := Some (Node x None)\<rparr>
      | Some n \<Rightarrow> l\<lparr>head := Some (node_push n x)\<rparr>)"

fun node_iter :: "'a node \<Rightarrow> 'a list" where
  "node_iter (Node e nxt) = e # (case nxt of None \<Rightarrow> [] | Some n \<Rightarrow> node_iter n)"

definition list_iter :: "'a linked_list \<Rightarrow> 'a list" where
  "list_iter l = (case head l of None \<Rightarrow> [] | Some n \<Rightarrow> node_iter n)"

text \<open>
  \<open>IterMut\<close> holds the nodes that are still to be visited. Since the elements it has handed out are
  changed in place through their references, the cursor of the model also carries these elements,
  as their borrowers left them. \<open>next\<close> lends the element of the next node; the second component
  of its result is the cursor once the borrower has left \<open>e'\<close> there.
\<close>

record 'a iter_mut =
  passed :: "'a list"
  to_visit :: "'a node option"

definition iter_mut_next :: "'a iter_mut \<Rightarrow> ('a \<times> ('a \<Rightarrow> 'a iter_mut)) option" where
  "iter_mut_next it =
     (case to_visit it of
        None \<Rightarrow> None
      | Some (Node e nxt) \<Rightarrow> Some (e, \<lambda>e'. it\<lparr>passed := passed it @ [e'], to_visit := nxt\<rparr>))"

definition list_iter_mut :: "'a linked_list \<Rightarrow> 'a iter_mut" where
  "list_iter_mut l = \<lparr>passed = [], to_visit = head l\<rparr>"

definition link_iter :: "'a node option \<Rightarrow> 'a list" where
  "link_iter nxt = (case nxt of None \<Rightarrow> [] | Some n \<Rightarrow> node_iter n)"

lemma link_iter_simps [simp]: "link_iter None = []" "link_iter (Some (Node e nxt)) = e # link_iter nxt"
  by (simp_all add: link_iter_def)

text \<open>The list after the loop: the nodes that were passed, with their elements as they are now, and the rest.\<close>

definition relink :: "'a iter_mut \<Rightarrow> 'a linked_list" where
  "relink it = \<lparr>head = foldr (\<lambda>e nxt. Some (Node e nxt)) (passed it) (to_visit it)\<rparr>"

function for_mut ::
  "('a \<Rightarrow> 's \<Rightarrow> ('a \<times> 's \<times> control) exec) \<Rightarrow> 'a iter_mut \<Rightarrow> 's \<Rightarrow> ('a iter_mut \<times> 's) exec" where
  "for_mut f it s =
     (case iter_mut_next it of
        None \<Rightarrow> Ret (it, s)
      | Some (e, put) \<Rightarrow>
          and_then (f e s) (\<lambda>(e', s', c).
          case c of Break \<Rightarrow> Ret (put e', s') | Continue \<Rightarrow> for_mut f (put e') s'))"
  by pat_completeness auto
termination
  by (relation "measure (\<lambda>(f, it, s). length (link_iter (to_visit it)))")
    (auto simp: iter_mut_next_def split: option.splits node.splits)

declare for_mut.simps [simp del]

definition for_iter_mut ::
  "('a \<Rightarrow> 's \<Rightarrow> ('a \<times> 's \<times> control) exec) \<Rightarrow> 'a linked_list \<Rightarrow> 's \<Rightarrow> ('a linked_list \<times> 's) exec" where
  "for_iter_mut f l s = and_then (for_mut f (list_iter_mut l) s) (\<lambda>(it, s'). Ret (relink it, s'))"

text \<open>The same loop over the abstract sequence of elements.\<close>

fun seq_iter_mut ::
  "('a \<Rightarrow> 's \<Rightarrow> ('a \<times> 's \<times> control) exec) \<Rightarrow> 'a list \<Rightarrow> 's \<Rightarrow> ('a list \<times> 's) exec" where
  "seq_iter_mut f [] s = Ret ([], s)"
| "seq_iter_mut f (e # es) s =
     and_then (f e s) (\<lambda>(e', s', c).
       case c of
         Break \<Rightarrow> Ret (e' # es, s')
       | Continue \<Rightarrow> and_then (seq_iter_mut f es s') (\<lambda>(es', s''). Ret (e' # es', s'')))"

section \<open>The contract of a table in insertion order\<close>

locale sequence =
  fixes new :: "'l" and push :: "'l \<Rightarrow> 'a \<Rightarrow> 'l" and iter :: "'l \<Rightarrow> 'a list"
  assumes iter_new: "iter new = []"
    and iter_push: "iter (push l x) = iter l @ [x]"
begin

lemma iter_push_all: "iter (foldl push l xs) = iter l @ xs"
  by (induction xs arbitrary: l) (simp_all add: iter_push)

lemma iter_of_pushes: "iter (foldl push new xs) = xs"
  by (simp add: iter_push_all iter_new)

lemma find_push:
  "find P (iter (push l x)) =
     (case find P (iter l) of None \<Rightarrow> (if P x then Some x else None) | Some y \<Rightarrow> Some y)"
  by (simp add: iter_push find_snoc)

lemma first_match_kept: "find P (iter l) = Some y \<Longrightarrow> find P (iter (push l x)) = Some y"
  by (simp add: find_push)

end

lemma node_iter_push: "node_iter (node_push n x) = node_iter n @ [x]"
  by (induction n x rule: node_push.induct) auto

interpretation rust_list: sequence list_new list_push list_iter
  by unfold_locales
    (auto simp: list_new_def list_push_def list_iter_def node_iter_push split: option.split)

section \<open>Loops over the mutable iterator\<close>

lemma list_iter_link: "list_iter l = link_iter (head l)"
  by (simp add: list_iter_def link_iter_def)

lemma list_iter_relink: "list_iter (relink it) = passed it @ link_iter (to_visit it)"
proof -
  have "link_iter (foldr (\<lambda>e nxt. Some (Node e nxt)) es nxt) = es @ link_iter nxt" for es :: "'a list" and nxt
    by (induction es) simp_all
  then show ?thesis by (simp add: relink_def list_iter_link)
qed

lemma link_iter_eq:
  "link_iter a = [] \<longleftrightarrow> a = None"
  "link_iter a = e # es \<longleftrightarrow> (\<exists>nxt. a = Some (Node e nxt) \<and> link_iter nxt = es)"
proof -
  show "link_iter a = [] \<longleftrightarrow> a = None"
  proof (cases a)
    case (Some n)
    then show ?thesis by (cases n) simp
  qed simp
  show "link_iter a = e # es \<longleftrightarrow> (\<exists>nxt. a = Some (Node e nxt) \<and> link_iter nxt = es)"
  proof (cases a)
    case (Some n)
    then show ?thesis by (cases n) auto
  qed simp
qed

lemma link_iter_inject: "link_iter a = es \<Longrightarrow> link_iter b = es \<Longrightarrow> a = b"
  by (induction es arbitrary: a b) (auto simp: link_iter_eq)

lemma list_iter_inject: "list_iter l = list_iter l' \<Longrightarrow> l = l'"
  using link_iter_inject [of "head l" _ "head l'"] by (simp add: list_iter_link)

lemma for_mut_refines:
  "map_exec (\<lambda>(it', s'). (passed it' @ link_iter (to_visit it'), s')) (for_mut f it s) =
     map_exec (\<lambda>(es, s'). (passed it @ es, s')) (seq_iter_mut f (link_iter (to_visit it)) s)"
proof (induction f it s rule: for_mut.induct)
  case (1 f it s)
  show ?case
  proof (cases "to_visit it")
    case None
    then show ?thesis by (subst for_mut.simps) (simp add: iter_mut_next_def)
  next
    case (Some nd)
    obtain e nxt where nd: "nd = Node e nxt" by (cases nd)
    let ?put = "\<lambda>e'. it\<lparr>passed := passed it @ [e'], to_visit := nxt\<rparr>"
    have step: "iter_mut_next it = Some (e, ?put)" using Some nd by (simp add: iter_mut_next_def)
    show ?thesis
    proof (cases "f e s")
      case (Ret r)
      obtain e' s' c where r: "r = (e', s', c)" by (cases r)
      show ?thesis
      proof (cases c)
        case Break
        with Ret r Some nd step show ?thesis by (subst for_mut.simps) simp
      next
        case Continue
        have loop: "for_mut f it s = for_mut f (?put e') s'"
          using Ret r step Continue by (subst for_mut.simps) simp
        from "1" [OF step refl Ret r [symmetric] refl Continue] Ret r Continue Some nd show ?thesis
          unfolding loop by (cases "seq_iter_mut f (link_iter nxt) s'") (auto simp: split_beta)
      qed
    next
      case (Fault x)
      with Some nd step show ?thesis by (subst for_mut.simps) simp
    qed
  qed
qed

lemma for_iter_mut_refines:
  "map_exec (\<lambda>(l', s'). (list_iter l', s')) (for_iter_mut f l s) = seq_iter_mut f (list_iter l) s"
  using for_mut_refines [of f "list_iter_mut l" s]
  by (cases "for_mut f (list_iter_mut l) s"; cases "seq_iter_mut f (list_iter l) s")
    (auto simp: for_iter_mut_def list_iter_mut_def list_iter_relink simp flip: list_iter_link)

lemma for_iter_mut_Ret:
  "for_iter_mut f l s = Ret (l', s') \<Longrightarrow> seq_iter_mut f (list_iter l) s = Ret (list_iter l', s')"
  using for_iter_mut_refines [of f l s] by simp

lemma for_iter_mut_same:
  assumes "seq_iter_mut f (list_iter l) s = Ret (list_iter l, s')"
  shows "for_iter_mut f l s = Ret (l, s')"
  using for_iter_mut_refines [of f l s] assms list_iter_inject
  by (cases "for_iter_mut f l s") auto

end
