(* ===== verification/Ip_Addr.thy ===== *)
theory Ip_Addr
  imports Utils Linked_List
begin

text \<open>
  Addresses, endpoints, interfaces and routes of \<^verbatim>\<open>src/src/protocols/ip/mod.rs\<close> (and the
  interface family of \<^verbatim>\<open>src/src/net.rs\<close>). An address is a \<open>u32\<close> whose lowest byte is the
  first octet, so that its memory image on the little-endian target is the wire order.
  The \<open>next\<close> links of \<open>NetInterface\<close> and \<open>IPInterface\<close> are always \<open>None\<close> and never read;
  they are left out.

  Shown here: printing and parsing addresses are inverse; a route lookup returns the
  first of the matching routes with the largest netmask.
\<close>

type_synonym ip_address = u32

definition IP_ADDR_ANY :: ip_address where "IP_ADDR_ANY = 0x00000000"
definition IP_ADDR_BROADCAST :: ip_address where "IP_ADDR_BROADCAST = 0xffffffff"

section \<open>Addresses as strings\<close>

fun split_on :: "char \<Rightarrow> string \<Rightarrow> string list" where
  "split_on c [] = [[]]"
| "split_on c (x # xs) =
     (if x = c then [] # split_on c xs
      else (case split_on c xs of [] \<Rightarrow> [[x]] | p # ps \<Rightarrow> (x # p) # ps))"

fun join :: "string \<Rightarrow> string list \<Rightarrow> string" where
  "join sep [] = []"
| "join sep [s] = s"
| "join sep (s # ss) = s @ sep @ join sep ss"

text \<open>\<open>str::parse::<u8>\<close>: an optional \<open>+\<close>, then decimal digits, \<open>None\<close> on overflow.\<close>

definition digit_value :: "char \<Rightarrow> nat option" where
  "digit_value c = (let n = of_char c in if 48 \<le> n \<and> n \<le> 57 then Some (n - 48) else None)"

fun parse_digits :: "nat \<Rightarrow> string \<Rightarrow> u8 option" where
  "parse_digits acc [] = Some (of_nat acc)"
| "parse_digits acc (c # cs) =
     (case digit_value c of
        None \<Rightarrow> None
      | Some d \<Rightarrow> if acc * 10 + d < 256 then parse_digits (acc * 10 + d) cs else None)"

definition parse_u8 :: "string \<Rightarrow> u8 option" where
  "parse_u8 s =
     (case s of
        [] \<Rightarrow> None
      | c # cs \<Rightarrow>
          if cs = [] \<and> (c = CHR ''+'' \<or> c = CHR ''-'') then None
          else if c = CHR ''+'' then parse_digits 0 cs
          else parse_digits 0 s)"

fun nat_to_string :: "nat \<Rightarrow> string" where
  "nat_to_string n =
     (if n < 10 then [char_of (48 + n)]
      else nat_to_string (n div 10) @ [char_of (48 + n mod 10)])"

declare nat_to_string.simps [simp del]

function ip_addr_parts :: "nat \<Rightarrow> string list \<Rightarrow> u32 \<Rightarrow> ip_address option exec" where
  "ip_addr_parts i parts res =
     (if i < 4 then
        (case parts of
           [] \<Rightarrow> Ret None
         | p # ps \<Rightarrow>
             and_then (unwrap_option (parse_u8 p)) (\<lambda>b.
               ip_addr_parts (i + 1) ps (res OR push_bit (8 * i) (ucast b))))
      else Ret (Some res))"
  by pat_completeness auto
termination
  by (relation "measure (\<lambda>(i, parts, res). 4 - i)") auto

declare ip_addr_parts.simps [simp del]

definition ip_addr_to_bytes :: "string \<Rightarrow> ip_address option exec" where
  "ip_addr_to_bytes addr = ip_addr_parts 0 (split_on (CHR ''.'') addr) 0"

definition ip_addr_to_str :: "ip_address \<Rightarrow> string" where
  "ip_addr_to_str addr =
     join ''.'' (map (\<lambda>i. nat_to_string (unat (drop_bit (8 * i) addr AND 255))) [0..<4])"

section \<open>Endpoints and interfaces\<close>

record ip_endpoint =
  ep_address :: ip_address
  ep_port :: u16

definition ip_endpoint_new :: "ip_address \<Rightarrow> u16 \<Rightarrow> ip_endpoint" where
  "ip_endpoint_new addr port = \<lparr>ep_address = addr, ep_port = le_to_be_u16 port\<rparr>"

definition ip_endpoint_new_from_str :: "string \<Rightarrow> u16 \<Rightarrow> ip_endpoint exec" where
  "ip_endpoint_new_from_str addr_str port =
     and_then (ip_addr_to_bytes addr_str) (\<lambda>a_opt.
     and_then (unwrap_option a_opt) (\<lambda>a.
     Ret \<lparr>ep_address = a, ep_port = le_to_be_u16 port\<rparr>))"

datatype net_interface_family = IP_Family | IPV6_Family

record ip_interface =
  family :: net_interface_family
  unicast :: ip_address
  netmask :: ip_address
  broadcast :: ip_address

definition ip_interface_new :: "string \<Rightarrow> string \<Rightarrow> ip_interface exec" where
  "ip_interface_new unicast_str netmask_str =
     and_then (ip_addr_to_bytes unicast_str) (\<lambda>u_opt.
     and_then (unwrap_option u_opt) (\<lambda>u.
     and_then (ip_addr_to_bytes netmask_str) (\<lambda>m_opt.
     and_then (unwrap_option m_opt) (\<lambda>m.
     Ret \<lparr>family = IP_Family, unicast = u, netmask = m, broadcast = (u AND m) OR NOT m\<rparr>))))"

section \<open>Routes\<close>

record ip_route =
  rt_network :: ip_address
  rt_netmask :: ip_address
  rt_next_hop :: ip_address
  rt_interface :: ip_interface

definition interface_route :: "ip_interface \<Rightarrow> ip_route" where
  "interface_route interface =
     \<lparr>rt_network = unicast interface AND netmask interface, rt_netmask = netmask interface,
      rt_next_hop = IP_ADDR_ANY, rt_interface = interface\<rparr>"

definition gateway_route :: "string \<Rightarrow> ip_interface \<Rightarrow> ip_route exec" where
  "gateway_route gateway_ip interface =
     and_then (ip_addr_to_bytes gateway_ip) (\<lambda>g_opt.
     and_then (unwrap_option g_opt) (\<lambda>g.
     Ret \<lparr>rt_network = IP_ADDR_ANY, rt_netmask = IP_ADDR_ANY, rt_next_hop = g,
          rt_interface = interface\<rparr>))"

type_synonym ip_routes = "ip_route linked_list"

definition ip_routes_new :: ip_routes where
  "ip_routes_new = list_new"

definition ip_routes_register :: "ip_routes \<Rightarrow> ip_route \<Rightarrow> ip_routes" where
  "ip_routes_register routes route = list_push routes route"

definition route_matches :: "ip_address \<Rightarrow> ip_route \<Rightarrow> bool" where
  "route_matches dst route \<longleftrightarrow> (dst AND rt_netmask route) = rt_network route"

definition lookup_step :: "ip_address \<Rightarrow> ip_route option \<Rightarrow> ip_route \<Rightarrow> ip_route option" where
  "lookup_step dst candidate route =
     (if route_matches dst route then
        (case candidate of
           None \<Rightarrow> Some route
         | Some c \<Rightarrow>
             if be_to_le_u32 (rt_netmask c) < be_to_le_u32 (rt_netmask route)
             then Some route else candidate)
      else candidate)"

definition lookup_ip_route :: "ip_routes \<Rightarrow> ip_address \<Rightarrow> ip_route option" where
  "lookup_ip_route routes dst = foldl (lookup_step dst) None (list_iter routes)"

definition routes_get_interface :: "ip_routes \<Rightarrow> ip_address \<Rightarrow> ip_interface option" where
  "routes_get_interface routes dst = map_option rt_interface (lookup_ip_route routes dst)"

section \<open>Printing and parsing are inverse\<close>

lemma digit_value_char [simp]: "d < 10 \<Longrightarrow> digit_value (char_of (48 + d)) = Some d"
  by (simp add: digit_value_def of_char_of)

lemma parse_digits_nat_to_string:
  "n < 256 \<Longrightarrow> parse_digits 0 (nat_to_string n @ cs) = parse_digits n cs"
proof (induction n arbitrary: cs rule: nat_to_string.induct)
  case (1 n)
  show ?case
  proof (cases "n < 10")
    case True
    then show ?thesis by (subst nat_to_string.simps) simp
  next
    case False
    with "1.prems" have "n div 10 < 256" by simp
    from "1.IH" [OF False this, of "char_of (48 + n mod 10) # cs"] False "1.prems"
    show ?thesis by (subst nat_to_string.simps) simp
  qed
qed

lemma nat_to_string_digits: "set (nat_to_string n) \<subseteq> {c. digit_value c \<noteq> None}"
proof (induction n rule: nat_to_string.induct)
  case (1 n)
  then show ?case by (subst nat_to_string.simps) auto
qed

lemma nat_to_string_nonempty: "nat_to_string n \<noteq> []"
  by (subst nat_to_string.simps) simp

lemma parse_nat_to_string:
  assumes "n < 256"
  shows "parse_u8 (nat_to_string n) = Some (of_nat n)"
proof -
  obtain c cs where s: "nat_to_string n = c # cs"
    using nat_to_string_nonempty by (cases "nat_to_string n") auto
  then have "digit_value c \<noteq> None" using nat_to_string_digits [of n] by auto
  then have "c \<noteq> CHR ''+''" "c \<noteq> CHR ''-''" by (auto simp: digit_value_def)
  with s parse_digits_nat_to_string [OF assms, of "[]"] show ?thesis
    by (simp add: parse_u8_def)
qed

lemma no_dot_in_nat_to_string: "CHR ''.'' \<notin> set (nat_to_string n)"
  using nat_to_string_digits [of n] by (auto simp: digit_value_def)

lemma split_on_no_sep: "c \<notin> set s \<Longrightarrow> split_on c s = [s]"
  by (induction s) auto

lemma split_on_append_sep: "c \<notin> set s \<Longrightarrow> split_on c (s @ c # t) = s # split_on c t"
  by (induction s) auto

lemma split_join:
  "ss \<noteq> [] \<Longrightarrow> \<forall>s \<in> set ss. c \<notin> set s \<Longrightarrow> split_on c (join [c] ss) = ss"
  by (induction "[c]" ss rule: join.induct) (auto simp: split_on_no_sep split_on_append_sep)

lemma upt_0_4: "[0..<4] = [0, 1, 2, 3]"
  by (simp add: upt_rec)

lemma addr_octet: "unat (drop_bit k addr AND 255) < 256"
  "(of_nat (unat (drop_bit k addr AND 255)) :: u8) = ucast (drop_bit k addr)" for addr :: u32
proof -
  have "drop_bit k addr AND 255 = take_bit 8 (drop_bit k addr)"
    by (simp add: take_bit_eq_mask mask_eq_exp_minus_1)
  then have "unat (drop_bit k addr AND 255) = unat (drop_bit k addr) mod 256"
    by (simp add: take_bit_eq_mod unat_mod_distrib)
  then show "unat (drop_bit k addr AND 255) < 256"
    "(of_nat (unat (drop_bit k addr AND 255)) :: u8) = ucast (drop_bit k addr)"
    by (simp_all add: word_eq_iff_unsigned [where 'a = nat] unat_of_nat)
qed

lemma ip_addr_to_bytes_to_str: "ip_addr_to_bytes (ip_addr_to_str addr) = Ret (Some addr)"
proof -
  let ?s = "\<lambda>k. nat_to_string (unat (drop_bit k addr AND 255))"
  have parts: "split_on (CHR ''.'') (ip_addr_to_str addr) = [?s 0, ?s 8, ?s 16, ?s 24]"
    unfolding ip_addr_to_str_def upt_0_4
    using split_join [of "[?s 0, ?s 8, ?s 16, ?s 24]" "CHR ''.''"]
    by (simp add: no_dot_in_nat_to_string)
  have "parse_u8 (?s k) = Some (ucast (drop_bit k addr))" for k
    using parse_nat_to_string [OF addr_octet(1)] addr_octet(2) by simp
  note parse = this this [of 0, simplified]
  show ?thesis
    unfolding ip_addr_to_bytes_def parts
    by (simp add: ip_addr_parts.simps parse u32_of_to_bytes [unfolded u32_of_bytes_def] or.assoc)
qed

section \<open>Route lookup is longest-prefix matching\<close>

lemma lookup_step_None: "lookup_step dst c r = None \<longleftrightarrow> c = None \<and> \<not> route_matches dst r"
  by (auto simp: lookup_step_def split: option.split)

lemma lookup_step_Some:
  "lookup_step dst c x = Some r \<Longrightarrow>
     (c = Some r \<and>
       (route_matches dst x \<longrightarrow> be_to_le_u32 (rt_netmask x) \<le> be_to_le_u32 (rt_netmask r))) \<or>
     (x = r \<and> route_matches dst x \<and>
       (\<forall>c'. c = Some c' \<longrightarrow> be_to_le_u32 (rt_netmask c') < be_to_le_u32 (rt_netmask r)))"
  by (auto simp: lookup_step_def split: if_splits option.splits)

lemma lookup_fold_None: "foldl (lookup_step dst) None rs = None \<longleftrightarrow> (\<forall>r \<in> set rs. \<not> route_matches dst r)"
proof (induction rs rule: rev_induct)
  case (snoc r rs)
  then show ?case by (auto simp: lookup_step_None)
qed simp

lemma lookup_fold_Some:
  "foldl (lookup_step dst) None rs = Some r \<Longrightarrow>
     \<exists>pre post. rs = pre @ r # post \<and> route_matches dst r \<and>
       (\<forall>r' \<in> set pre. route_matches dst r' \<longrightarrow>
          be_to_le_u32 (rt_netmask r') < be_to_le_u32 (rt_netmask r)) \<and>
       (\<forall>r' \<in> set post. route_matches dst r' \<longrightarrow>
          be_to_le_u32 (rt_netmask r') \<le> be_to_le_u32 (rt_netmask r))"
proof (induction rs arbitrary: r rule: rev_induct)
  case (snoc x rs)
  show ?case
  proof (cases "foldl (lookup_step dst) None rs = Some r")
    case True
    with snoc obtain pre post where
      "rs = pre @ r # post" "route_matches dst r"
      "\<forall>r' \<in> set pre. route_matches dst r' \<longrightarrow>
          be_to_le_u32 (rt_netmask r') < be_to_le_u32 (rt_netmask r)"
      "\<forall>r' \<in> set post. route_matches dst r' \<longrightarrow>
          be_to_le_u32 (rt_netmask r') \<le> be_to_le_u32 (rt_netmask r)"
      by blast
    moreover have "route_matches dst x \<Longrightarrow> be_to_le_u32 (rt_netmask x) \<le> be_to_le_u32 (rt_netmask r)"
      using snoc.prems True lookup_step_Some [of dst "Some r" x r] by auto
    ultimately show ?thesis by (intro exI [of _ pre] exI [of _ "post @ [x]"]) auto
  next
    case False
    with snoc.prems have x: "x = r" "route_matches dst x"
      using lookup_step_Some [of dst "foldl (lookup_step dst) None rs" x r] by auto
    have "be_to_le_u32 (rt_netmask r') < be_to_le_u32 (rt_netmask r)"
      if r': "r' \<in> set rs" "route_matches dst r'" for r'
    proof (cases "foldl (lookup_step dst) None rs")
      case None
      with r' show ?thesis by (simp add: lookup_fold_None)
    next
      case (Some c)
      with snoc.IH [OF Some] r' have "be_to_le_u32 (rt_netmask r') \<le> be_to_le_u32 (rt_netmask c)"
        by (fastforce dest: less_imp_le)
      moreover have "be_to_le_u32 (rt_netmask c) < be_to_le_u32 (rt_netmask r)"
        using snoc.prems False Some x lookup_step_Some [of dst "Some c" x r] by auto
      ultimately show ?thesis by simp
    qed
    with x show ?thesis by (intro exI [of _ rs] exI [of _ "[]"]) auto
  qed
qed simp

end
