(* ===== verification/Devices.thy ===== *)
theory Devices
  imports Runtime Ip_Addr
begin

text \<open>
  Protocol queues (\<^verbatim>\<open>src/src/protocols/mod.rs\<close>), interrupt entries
  (\<^verbatim>\<open>src/src/interrupt.rs\<close>), drivers (\<^verbatim>\<open>src/src/drivers\<close>) and devices
  (\<^verbatim>\<open>src/src/devices\<close>): the device table, the Ethernet and loopback devices, and the
  interrupt service routine that moves received data to the protocol queues.

  The TAP file is a parameter: \<open>file_read d k\<close> is what the \<open>k\<close>-th \<open>read\<close> of the file
  yields (\<open>None\<close> an error), \<open>file_writes\<close> the frames handed to \<open>write\<close>. The answers of the
  kernel to the calls of \<open>tap::open\<close> are the record \<open>tap_os\<close>.

  Shown here: every frame written has between 60 and 1514 bytes and carries header,
  payload and zero padding; a frame sent to an address is read back by the device with
  that address; larger payloads panic; interrupts append to the matching queue only.
\<close>

section \<open>Protocol queues\<close>

datatype protocol_type = Arp_Type | IP_Type | Unknown_Type

definition protocol_type_as_u16 :: "protocol_type \<Rightarrow> u16" where
  "protocol_type_as_u16 t =
     (case t of Arp_Type \<Rightarrow> 0x0806 | IP_Type \<Rightarrow> 0x0800 | Unknown_Type \<Rightarrow> 0x0801)"

definition protocol_type_from_u16 :: "u16 \<Rightarrow> protocol_type" where
  "protocol_type_from_u16 v =
     (if v = 0x0800 then IP_Type else if v = 0x0806 then Arp_Type else Unknown_Type)"

record protocol_data =
  pd_irq :: int
  pd_data :: "bytes option"
  pd_len :: nat

record net_protocol =
  protocol_type :: protocol_type
  input_head :: "protocol_data list"

definition net_protocol_new :: "protocol_type \<Rightarrow> net_protocol" where
  "net_protocol_new t = \<lparr>protocol_type = t, input_head = []\<rparr>"

type_synonym net_protocols = "net_protocol linked_list"

definition net_protocols_new :: net_protocols where
  "net_protocols_new = list_new"

definition net_protocols_register :: "net_protocols \<Rightarrow> net_protocol \<Rightarrow> net_protocols" where
  "net_protocols_register ps p = list_push ps p"

section \<open>Interrupts, drivers and the device record\<close>

definition INTR_IRQ_BASE :: int where "INTR_IRQ_BASE = 35"
definition IRQ_ETHERNET :: int where "IRQ_ETHERNET = INTR_IRQ_BASE + 2"
definition IRQ_LOOPBACK :: int where "IRQ_LOOPBACK = INTR_IRQ_BASE + 5"
definition ETH_TAP_IRQ :: int where "ETH_TAP_IRQ = INTR_IRQ_BASE + 2"
definition SIGUSR1 :: int where "SIGUSR1 = 10"
definition IRQ_FLAG_SHARED :: u8 where "IRQ_FLAG_SHARED = 0x01"

record irq_entry =
  irq :: int
  irq_flags :: u8
  custom_data :: "bytes option"

definition irq_entry_new :: "int \<Rightarrow> u8 \<Rightarrow> irq_entry" where
  "irq_entry_new i fl = \<lparr>irq = i, irq_flags = fl, custom_data = None\<rparr>"

datatype driver_type = Tap | Pcap

lemma driver_type_not_Tap [simp]: "t \<noteq> Tap \<longleftrightarrow> t = Pcap"
  by (cases t) auto

record driver_data =
  file_read :: "nat \<Rightarrow> bytes option"
  file_reads :: nat
  file_writes :: "bytes list"
  drv_irq :: int

datatype net_device_type = Loopback | Ethernet

lemma device_type_not_Loopback [simp]: "t \<noteq> Loopback \<longleftrightarrow> t = Ethernet"
  by (cases t) auto

record net_device =
  dev_index :: u8
  device_type :: net_device_type
  dev_name :: string
  mtu :: nat
  dev_flags :: u16
  header_len :: u16
  address_len :: u16
  dev_address :: bytes
  dev_broadcast :: bytes
  dev_irq_entry :: irq_entry
  interfaces :: "ip_interface linked_list"
  driver_type :: "driver_type option"
  driver_data :: "driver_data option"

definition DEVICE_FLAG_UP :: u16 where "DEVICE_FLAG_UP = 0x0001"
definition DEVICE_FLAG_LOOPBACK :: u16 where "DEVICE_FLAG_LOOPBACK = 0x0010"
definition DEVICE_FLAG_BROADCAST :: u16 where "DEVICE_FLAG_BROADCAST = 0x0020"
definition DEVICE_FLAG_NEED_ARP :: u16 where "DEVICE_FLAG_NEED_ARP = 0x0100"
definition NET_DEVICE_ADDR_LEN :: nat where "NET_DEVICE_ADDR_LEN = 14"

definition ETH_HDR_SIZE :: nat where "ETH_HDR_SIZE = 14"
definition ETH_FRAME_MIN :: nat where "ETH_FRAME_MIN = 60"
definition ETH_FRAME_MAX :: nat where "ETH_FRAME_MAX = 1514"
definition ETH_PAYLOAD_MIN :: nat where "ETH_PAYLOAD_MIN = ETH_FRAME_MIN - ETH_HDR_SIZE"
definition ETH_PAYLOAD_MAX :: nat where "ETH_PAYLOAD_MAX = ETH_FRAME_MAX - ETH_HDR_SIZE"
definition ETH_ADDR_LEN :: nat where "ETH_ADDR_LEN = 6"
definition ETH_ADDR_ANY :: bytes where "ETH_ADDR_ANY = replicate 6 0x00"
definition ETH_ADDR_BROADCAST :: bytes where "ETH_ADDR_BROADCAST = replicate 6 0xff"
definition LOOPBACK_MTU :: nat where "LOOPBACK_MTU = 65535"

lemmas device_consts = ETH_HDR_SIZE_def ETH_FRAME_MIN_def ETH_FRAME_MAX_def ETH_PAYLOAD_MIN_def
  ETH_PAYLOAD_MAX_def ETH_ADDR_LEN_def NET_DEVICE_ADDR_LEN_def

definition net_device_new ::
  "u8 \<Rightarrow> net_device_type \<Rightarrow> string \<Rightarrow> nat \<Rightarrow> u16 \<Rightarrow> u16 \<Rightarrow> u16 \<Rightarrow> bytes \<Rightarrow> bytes \<Rightarrow> irq_entry
   \<Rightarrow> net_device" where
  "net_device_new i ty name m fl hl al addr bc irqe =
     \<lparr>dev_index = i, device_type = ty, dev_name = name, mtu = m, dev_flags = fl,
      header_len = hl, address_len = al, dev_address = addr, dev_broadcast = bc,
      dev_irq_entry = irqe, interfaces = list_new, driver_type = None, driver_data = None\<rparr>"

definition register_interface :: "net_device \<Rightarrow> ip_interface \<Rightarrow> net_device" where
  "register_interface d iface = d\<lparr>interfaces := list_push (interfaces d) iface\<rparr>"

definition get_interface :: "net_device \<Rightarrow> net_interface_family \<Rightarrow> ip_interface option" where
  "get_interface d fam = find (\<lambda>i. family i = fam) (list_iter (interfaces d))"

definition is_open :: "net_device \<Rightarrow> bool" where
  "is_open d \<longleftrightarrow> 0 < dev_flags d AND DEVICE_FLAG_UP"

section \<open>The TAP and pcap drivers\<close>

text \<open>
  The kernel's answers to \<open>tap::open\<close>: the opened file (\<open>None\<close> if \<open>/dev/net/tun\<close> cannot
  be opened), whether each request (and \<open>ifreq::from_name\<close>) succeeds, and the hardware
  address.
\<close>

record tap_os =
  os_file :: "(nat \<Rightarrow> bytes option) option"
  os_ifreq :: bool
  os_set_iff :: bool
  os_set_own :: bool
  os_set_flags :: bool
  os_set_sig :: bool
  os_socket :: bool
  os_hw_addr :: "bytes option"

definition set_tap_address :: "tap_os \<Rightarrow> net_device \<Rightarrow> net_device exec" where
  "set_tap_address os d =
     (if \<not> os_socket os then Fault UnwrapFailed
      else if \<not> os_ifreq os then Fault UnwrapFailed
      else (case os_hw_addr os of
              None \<Rightarrow> Fault Panicked
            | Some hw \<Rightarrow> Ret (d\<lparr>dev_address := take NET_DEVICE_ADDR_LEN hw\<rparr>)))"

definition tap_open :: "tap_os \<Rightarrow> net_device \<Rightarrow> net_device exec" where
  "tap_open os d =
     and_then (unwrap_option (os_file os)) (\<lambda>file.
     if \<not> os_ifreq os then Fault UnwrapFailed
     else if \<not> os_set_iff os then Fault Panicked
     else if \<not> os_set_own os then Fault Panicked
     else if \<not> os_set_flags os then Fault Panicked
     else if \<not> os_set_sig os then Fault Panicked
     else
       and_then (slice_to (dev_address d) 6) (\<lambda>a.
       and_then (if a = ETH_ADDR_ANY then set_tap_address os d else Ret d) (\<lambda>d'.
       Ret (d'\<lparr>driver_data := Some \<lparr>file_read = file, file_reads = 0, file_writes = [],
                                    drv_irq = ETH_TAP_IRQ\<rparr>\<rparr>))))"

text \<open>The buffer has 1514 bytes, zero beyond what was read.\<close>

definition tap_read_data :: "net_device \<Rightarrow> ((nat \<times> bytes) \<times> net_device) exec" where
  "tap_read_data d =
     and_then (unwrap_option (driver_data d)) (\<lambda>dd.
     and_then (unwrap_option (file_read dd (file_reads dd))) (\<lambda>bs.
     let got = take ETH_FRAME_MAX bs;
         buf = got @ replicate (ETH_FRAME_MAX - length got) 0
     in Ret ((length got, buf),
             d\<lparr>driver_data := Some (dd\<lparr>file_reads := Suc (file_reads dd)\<rparr>)\<rparr>)))"

text \<open>A failed write is logged and reported as success.\<close>

definition tap_write_data :: "net_device \<Rightarrow> bytes \<Rightarrow> (unit result \<times> net_device) exec" where
  "tap_write_data d data =
     and_then (unwrap_option (driver_data d)) (\<lambda>dd.
     Ret (Ok (), d\<lparr>driver_data := Some (dd\<lparr>file_writes := file_writes dd @ [data]\<rparr>)\<rparr>))"

definition pcap_read_data :: "net_device \<Rightarrow> nat \<times> bytes" where
  "pcap_read_data d = (0, replicate ETH_FRAME_MAX 0)"

section \<open>The Ethernet device\<close>

record ethernet_header =
  eth_dst :: bytes
  eth_src :: bytes
  eth_type :: u16

definition ethernet_header_wf :: "ethernet_header \<Rightarrow> bool" where
  "ethernet_header_wf h \<longleftrightarrow> length (eth_dst h) = 6 \<and> length (eth_src h) = 6"

definition ethernet_header_layout :: "ethernet_header \<Rightarrow> bytes" where
  "ethernet_header_layout h = eth_dst h @ eth_src h @ u16_to_bytes (eth_type h)"

definition ethernet_header_read :: "bytes \<Rightarrow> ethernet_header" where
  "ethernet_header_read b =
     \<lparr>eth_dst = take 6 b, eth_src = take 6 (drop 6 b), eth_type = u16_of_bytes (b ! 12) (b ! 13)\<rparr>"

definition ethernet_open :: "tap_os \<Rightarrow> net_device \<Rightarrow> (unit result \<times> net_device) exec" where
  "ethernet_open os d =
     and_then (unwrap_option (driver_type d)) (\<lambda>t.
     case t of
       Tap \<Rightarrow> and_then (tap_open os d) (\<lambda>d'. Ret (Ok (), d'))
     | Pcap \<Rightarrow> Ret (Ok (), d))"

definition ethernet_read_data ::
  "net_device \<Rightarrow> ((protocol_type \<times> bytes \<times> nat) option \<times> net_device) exec" where
  "ethernet_read_data d =
     and_then (unwrap_option (driver_type d)) (\<lambda>t.
     and_then (case t of Tap \<Rightarrow> tap_read_data d | Pcap \<Rightarrow> Ret (pcap_read_data d, d)) (\<lambda>((len, buf), d').
     if len < ETH_HDR_SIZE then Fault Panicked
     else
       and_then (bytes_to_struct ETH_HDR_SIZE ethernet_header_read buf) (\<lambda>hdr.
       if take ETH_ADDR_LEN (dev_address d') \<noteq> eth_dst hdr \<and> ETH_ADDR_BROADCAST \<noteq> eth_dst hdr
       then Ret (None, d')
       else
         let ty = be_to_le_u16 (eth_type hdr);
             data = drop ETH_HDR_SIZE (take len buf)
         in Ret (Some (protocol_type_from_u16 ty, data, len - ETH_HDR_SIZE), d'))))"

definition ethernet_transmit ::
  "net_device \<Rightarrow> protocol_type \<Rightarrow> bytes \<Rightarrow> nat \<Rightarrow> bytes \<Rightarrow> (unit result \<times> net_device) exec" where
  "ethernet_transmit d ether_type data len dst =
     and_then (slice_to (dev_address d) ETH_ADDR_LEN) (\<lambda>src.
     let hdr = \<lparr>eth_dst = dst, eth_src = src,
                eth_type = le_to_be_u16 (protocol_type_as_u16 ether_type)\<rparr>;
         hdr_bytes = to_u8_slice ethernet_header_layout hdr;
         data_len = length data;
         hdr_len = length hdr_bytes
     in if ETH_FRAME_MAX < hdr_len + data_len then Fault OutOfRange
        else
          let frame = hdr_bytes @ data @ replicate (ETH_FRAME_MAX - (hdr_len + data_len)) 0;
              pad_len = (if data_len < ETH_PAYLOAD_MIN then ETH_PAYLOAD_MIN - data_len else 0);
              frame_len = hdr_len + data_len + pad_len
          in and_then (unwrap_option (driver_type d)) (\<lambda>t.
             case t of
               Tap \<Rightarrow> and_then (slice_to frame frame_len) (\<lambda>out. tap_write_data d out)
             | Pcap \<Rightarrow> Ret (Ok (), d)))"

definition ethernet_init :: "u8 \<Rightarrow> driver_type \<Rightarrow> net_device" where
  "ethernet_init i t =
     (net_device_new i Ethernet ''tap0'' ETH_PAYLOAD_MAX (DEVICE_FLAG_BROADCAST OR DEVICE_FLAG_NEED_ARP)
        (of_nat ETH_HDR_SIZE) (of_nat ETH_ADDR_LEN)
        (replicate NET_DEVICE_ADDR_LEN 0) (replicate NET_DEVICE_ADDR_LEN 0xff)
        (irq_entry_new IRQ_ETHERNET 0))\<lparr>driver_type := Some t\<rparr>"

section \<open>The loopback device\<close>

definition loopback_open :: "net_device \<Rightarrow> unit result \<times> net_device" where
  "loopback_open d = (Ok (), d)"

definition loopback_read_data :: "net_device \<Rightarrow> (protocol_type \<times> bytes \<times> nat) option exec" where
  "loopback_read_data d =
     and_then (unwrap_option (custom_data (dev_irq_entry d))) (\<lambda>data.
     Ret (Some (IP_Type, data, length data)))"

definition loopback_transmit ::
  "net_device \<Rightarrow> bytes \<Rightarrow> 'z world_scheme \<Rightarrow> (unit result \<times> net_device \<times> 'z world_scheme) exec" where
  "loopback_transmit d data w =
     Ret (Ok (), d\<lparr>dev_irq_entry := (dev_irq_entry d)\<lparr>custom_data := Some data\<rparr>\<rparr>,
          raise_signal IRQ_LOOPBACK w)"

definition loopback_init :: "u8 \<Rightarrow> net_device" where
  "loopback_init i =
     net_device_new i Loopback ''lo'' LOOPBACK_MTU DEVICE_FLAG_LOOPBACK 0 0
       (replicate NET_DEVICE_ADDR_LEN 0) (replicate NET_DEVICE_ADDR_LEN 0)
       (irq_entry_new IRQ_LOOPBACK IRQ_FLAG_SHARED)"

section \<open>Device operations\<close>

definition device_open :: "tap_os \<Rightarrow> net_device \<Rightarrow> (unit result \<times> net_device) exec" where
  "device_open os d =
     (let d' = d\<lparr>dev_flags := dev_flags d OR DEVICE_FLAG_UP\<rparr>
      in case device_type d' of
           Loopback \<Rightarrow> Ret (loopback_open d')
         | Ethernet \<Rightarrow> ethernet_open os d')"

definition device_close :: "net_device \<Rightarrow> unit result" where
  "device_close d = (case device_type d of Loopback \<Rightarrow> Ok () | Ethernet \<Rightarrow> Ok ())"

definition device_transmit ::
  "net_device \<Rightarrow> protocol_type \<Rightarrow> bytes \<Rightarrow> nat \<Rightarrow> bytes \<Rightarrow> 'z world_scheme
   \<Rightarrow> (unit result \<times> net_device \<times> 'z world_scheme) exec" where
  "device_transmit d proto_type data len dst w =
     (if \<not> is_open d then Fault Panicked
      else (case device_type d of
              Loopback \<Rightarrow> loopback_transmit d data w
            | Ethernet \<Rightarrow>
                and_then (ethernet_transmit d proto_type data len dst) (\<lambda>(r, d'). Ret (r, d', w))))"

text \<open>Appending to the queue of the first protocol of that type.\<close>

definition enqueue :: "protocol_type \<Rightarrow> protocol_data \<Rightarrow> net_protocols \<Rightarrow> net_protocols exec" where
  "enqueue ty entry protocols =
     and_then
       (for_iter_mut
          (\<lambda>p (u :: unit).
             if protocol_type p = ty then Ret (p\<lparr>input_head := input_head p @ [entry]\<rparr>, (), Break)
             else Ret (p, (), Continue))
          protocols ())
       (\<lambda>(ps, _). Ret ps)"

definition device_isr ::
  "net_device \<Rightarrow> int \<Rightarrow> net_protocols \<Rightarrow> 'z world_scheme
   \<Rightarrow> (net_device \<times> net_protocols \<times> 'z world_scheme) exec" where
  "device_isr d i protocols w =
     and_then
       (case device_type d of
          Loopback \<Rightarrow> and_then (loopback_read_data d) (\<lambda>r. Ret (r, d))
        | Ethernet \<Rightarrow> ethernet_read_data d)
       (\<lambda>(incoming, d').
          case incoming of
            None \<Rightarrow> Ret (d', protocols, w)
          | Some (ty, data, len) \<Rightarrow>
              and_then (enqueue ty \<lparr>pd_irq = i, pd_data = Some data, pd_len = len\<rparr> protocols) (\<lambda>ps.
              Ret (d', ps, raise_signal SIGUSR1 w)))"

type_synonym net_devices = "net_device linked_list"

definition net_devices_new :: net_devices where
  "net_devices_new = list_new"

definition net_devices_register :: "net_devices \<Rightarrow> net_device \<Rightarrow> net_devices" where
  "net_devices_register ds d = list_push ds d"

definition devices_handle_irq ::
  "net_devices \<Rightarrow> int \<Rightarrow> net_protocols \<Rightarrow> 'z world_scheme
   \<Rightarrow> (net_devices \<times> net_protocols \<times> 'z world_scheme) exec" where
  "devices_handle_irq ds i protocols w =
     for_iter_mut
       (\<lambda>d (ps, w).
          if irq (dev_irq_entry d) = i
          then and_then (device_isr d i ps w) (\<lambda>(d', ps', w'). Ret (d', (ps', w'), Continue))
          else Ret (d, (ps, w), Continue))
       ds (protocols, w)"

definition get_mut_by_type :: "net_devices \<Rightarrow> net_device_type \<Rightarrow> net_device option" where
  "get_mut_by_type ds t = find (\<lambda>d. device_type d = t) (list_iter ds)"

section \<open>Ethernet frames\<close>

interpretation eth_hdr: packed_struct ETH_HDR_SIZE ethernet_header_wf ethernet_header_layout
  ethernet_header_read
proof unfold_locales
  fix h rest
  assume wf: "ethernet_header_wf h"
  then show "length (ethernet_header_layout h) = ETH_HDR_SIZE"
    by (simp add: ethernet_header_wf_def ethernet_header_layout_def ETH_HDR_SIZE_def)
  show "ethernet_header_read (ethernet_header_layout h @ rest) = h"
    using wf
    by (simp add: ethernet_header_wf_def ethernet_header_layout_def ethernet_header_read_def
        nth_append u16_to_bytes_def byte_simps)
next
  fix b :: bytes
  assume b: "ETH_HDR_SIZE \<le> length b"
  then have "take 14 b = take 6 b @ take 6 (drop 6 b) @ [b ! 12, b ! 13]"
    by (simp add: ETH_HDR_SIZE_def take_field [of 6 14] take_field [of 6 8] take_2_drop)
  then show "ethernet_header_layout (ethernet_header_read b) = take ETH_HDR_SIZE b"
    by (simp add: ethernet_header_layout_def ethernet_header_read_def byte_simps ETH_HDR_SIZE_def)
  show "ethernet_header_wf (ethernet_header_read b)"
    using b by (simp add: ethernet_header_wf_def ethernet_header_read_def ETH_HDR_SIZE_def)
qed

text \<open>The frame a payload becomes on the wire.\<close>

definition eth_frame :: "bytes \<Rightarrow> bytes \<Rightarrow> protocol_type \<Rightarrow> bytes \<Rightarrow> bytes" where
  "eth_frame dst src ty data =
     dst @ src @ rev (u16_to_bytes (protocol_type_as_u16 ty)) @ data @
     replicate (ETH_PAYLOAD_MIN - length data) 0"

lemma length_eth_frame:
  "length dst = 6 \<Longrightarrow> length src = 6 \<Longrightarrow>
   length (eth_frame dst src ty data) = max 60 (14 + length data)"
  by (simp add: eth_frame_def device_consts max_def)

text \<open>A TAP device that is up: the state \<open>tap_open\<close> establishes.\<close>

definition tap_ready :: "net_device \<Rightarrow> bool" where
  "tap_ready d \<longleftrightarrow> device_type d = Ethernet \<and> driver_type d = Some Tap \<and> driver_data d \<noteq> None \<and>
     length (dev_address d) = NET_DEVICE_ADDR_LEN \<and> length (dev_broadcast d) = NET_DEVICE_ADDR_LEN \<and>
     is_open d"

definition dev_mac :: "net_device \<Rightarrow> bytes" where
  "dev_mac d = take ETH_ADDR_LEN (dev_address d)"

definition tap_sent :: "net_device \<Rightarrow> bytes list" where
  "tap_sent d = (case driver_data d of None \<Rightarrow> [] | Some dd \<Rightarrow> file_writes dd)"

definition tap_write :: "bytes \<Rightarrow> net_device \<Rightarrow> net_device" where
  "tap_write fr d =
     d\<lparr>driver_data := map_option (\<lambda>dd. dd\<lparr>file_writes := file_writes dd @ [fr]\<rparr>) (driver_data d)\<rparr>"

lemma tap_sent_write [simp]: "tap_ready d \<Longrightarrow> tap_sent (tap_write fr d) = tap_sent d @ [fr]"
  by (auto simp: tap_ready_def tap_sent_def tap_write_def)

lemma tap_write_simps [simp]:
  "dev_address (tap_write fr d) = dev_address d" "dev_broadcast (tap_write fr d) = dev_broadcast d"
  "dev_flags (tap_write fr d) = dev_flags d" "interfaces (tap_write fr d) = interfaces d"
  "device_type (tap_write fr d) = device_type d" "mtu (tap_write fr d) = mtu d"
  "dev_mac (tap_write fr d) = dev_mac d"
  by (simp_all add: tap_write_def dev_mac_def)

lemma tap_ready_write [simp]: "tap_ready (tap_write fr d) \<longleftrightarrow> tap_ready d"
  by (auto simp: tap_ready_def tap_write_def is_open_def)

lemma length_dev_mac [simp]: "tap_ready d \<Longrightarrow> length (dev_mac d) = 6"
  by (simp add: tap_ready_def dev_mac_def device_consts)

lemma ethernet_transmit_Ret:
  assumes "tap_ready d" "length dst = 6" "length data \<le> 1500"
  shows "ethernet_transmit d ty data len dst = Ret (Ok (), tap_write (eth_frame dst (dev_mac d) ty data) d)"
proof -
  obtain dd where dd: "driver_data d = Some dd" using assms(1) by (auto simp: tap_ready_def)
  have src: "slice_to (dev_address d) ETH_ADDR_LEN = Ret (dev_mac d)"
    using assms(1) by (simp add: slice_to_def tap_ready_def dev_mac_def device_consts)
  have pad: "(if length data < ETH_PAYLOAD_MIN then ETH_PAYLOAD_MIN - length data else 0) =
      ETH_PAYLOAD_MIN - length data" by simp
  have drv: "driver_type d = Some Tap" using assms(1) by (simp add: tap_ready_def)
  let ?hdr = "dst @ dev_mac d @ rev (u16_to_bytes (protocol_type_as_u16 ty))"
  have hdr: "to_u8_slice ethernet_header_layout \<lparr>eth_dst = dst, eth_src = dev_mac d,
      eth_type = le_to_be_u16 (protocol_type_as_u16 ty)\<rparr> = ?hdr"
    by (simp add: to_u8_slice_def ethernet_header_layout_def byte_simps)
  have len: "length ?hdr = 14" using assms by simp
  have cut: "slice_to (?hdr @ data @ replicate (ETH_FRAME_MAX - (14 + length data)) 0)
      (14 + length data + (ETH_PAYLOAD_MIN - length data)) = Ret (eth_frame dst (dev_mac d) ty data)"
    using assms len by (simp add: slice_to_def eth_frame_def device_consts min_def) linarith
  show ?thesis
    unfolding ethernet_transmit_def src pad and_then.simps Let_def hdr len
    using assms(3) drv dd cut
    by (simp add: ETH_FRAME_MAX_def [symmetric] tap_write_data_def tap_write_def)
      (simp add: ETH_FRAME_MAX_def)
qed

lemma ethernet_transmit_too_long:
  assumes "tap_ready d" "length dst = 6" "1500 < length data"
  shows "ethernet_transmit d ty data len dst = Fault OutOfRange"
  using assms
  by (simp add: ethernet_transmit_def slice_to_def tap_ready_def to_u8_slice_def
      ethernet_header_layout_def Let_def device_consts)

lemma device_transmit_Ret:
  assumes "tap_ready d" "length dst = 6" "length data \<le> 1500"
  shows "device_transmit d ty data len dst w = Ret (Ok (), tap_write (eth_frame dst (dev_mac d) ty data) d, w)"
  using assms ethernet_transmit_Ret [OF assms]
  by (simp add: device_transmit_def tap_ready_def)

lemma device_transmit_too_long:
  assumes "tap_ready d" "length dst = 6" "1500 < length data"
  shows "device_transmit d ty data len dst w = Fault OutOfRange"
  using assms ethernet_transmit_too_long [OF assms]
  by (simp add: device_transmit_def tap_ready_def)

lemma protocol_type_roundtrip [simp]: "protocol_type_from_u16 (protocol_type_as_u16 ty) = ty"
  by (cases ty) (simp_all add: protocol_type_as_u16_def protocol_type_from_u16_def)

lemma ethernet_read_frame:
  assumes "driver_type d = Some Tap" "driver_data d = Some dd"
    and "file_read dd (file_reads dd) = Some (eth_frame dst src ty data)"
    and "length dst = 6" "length src = 6" "length data \<le> 1500"
    and "dev_mac d = dst \<or> dst = ETH_ADDR_BROADCAST"
  shows "\<exists>d'. ethernet_read_data d =
    Ret (Some (ty, data @ replicate (46 - length data) 0, max 46 (length data)), d')"
proof -
  let ?f = "eth_frame dst src ty data"
  define d' where "d' = d\<lparr>driver_data := Some (dd\<lparr>file_reads := Suc (file_reads dd)\<rparr>)\<rparr>"
  define buf where "buf = ?f @ replicate (ETH_FRAME_MAX - length ?f) 0"
  have len: "length ?f = max 60 (14 + length data)" using assms(4,5) by (rule length_eth_frame)
  have tk: "take ETH_FRAME_MAX ?f = ?f" using len assms(6) by (simp add: device_consts)
  have rd: "tap_read_data d = Ret ((length ?f, buf), d')"
    using assms(2,3) tk by (simp add: tap_read_data_def buf_def d'_def Let_def del: length_take)
  have lb: "length buf = ETH_FRAME_MAX" using len assms(6) by (simp add: buf_def device_consts)
  define hdr where "hdr = \<lparr>eth_dst = dst, eth_src = src, eth_type = le_to_be_u16 (protocol_type_as_u16 ty)\<rparr>"
  have "buf = to_u8_slice ethernet_header_layout hdr @ drop 14 buf"
    using assms(4,5)
    by (simp add: buf_def eth_frame_def hdr_def to_u8_slice_def ethernet_header_layout_def byte_simps)
  then have hd: "bytes_to_struct ETH_HDR_SIZE ethernet_header_read buf = Ret hdr"
    using eth_hdr.bytes_to_struct_layout [of hdr "drop 14 buf"] assms(4,5)
    by (simp add: ethernet_header_wf_def hdr_def)
  have body: "drop ETH_HDR_SIZE (take (length ?f) buf) = data @ replicate (46 - length data) 0"
    using assms(4,5) by (simp add: buf_def eth_frame_def device_consts)
  have mac: "take ETH_ADDR_LEN (dev_address d') = dev_mac d" by (simp add: d'_def dev_mac_def)
  have "ethernet_read_data d =
    Ret (Some (ty, data @ replicate (46 - length data) 0, length ?f - ETH_HDR_SIZE), d')"
    using assms(1,7) rd hd body mac len
    by (auto simp: ethernet_read_data_def hdr_def Let_def ETH_HDR_SIZE_def)
  moreover have "length ?f - ETH_HDR_SIZE = max 46 (length data)"
    using len by (simp add: ETH_HDR_SIZE_def)
  ultimately show ?thesis by auto
qed

section \<open>The interrupt service routine\<close>

text \<open>What enqueuing means on the abstract table: the first queue of that type grows by one.\<close>

fun enqueue_seq :: "protocol_type \<Rightarrow> protocol_data \<Rightarrow> net_protocol list \<Rightarrow> net_protocol list" where
  "enqueue_seq ty e [] = []"
| "enqueue_seq ty e (p # ps) =
     (if protocol_type p = ty then p\<lparr>input_head := input_head p @ [e]\<rparr> # ps
      else p # enqueue_seq ty e ps)"

lemma enqueue_refines: "\<exists>ps'. enqueue ty e ps = Ret ps' \<and> list_iter ps' = enqueue_seq ty e (list_iter ps)"
proof -
  let ?f = "\<lambda>p (u :: unit).
    if protocol_type p = ty then Ret (p\<lparr>input_head := input_head p @ [e]\<rparr>, (), Break)
    else Ret (p, (), Continue)"
  have "seq_iter_mut ?f qs () = Ret (enqueue_seq ty e qs, ())" for qs
    by (induction qs) auto
  then obtain ps' where "for_iter_mut ?f ps () = Ret (ps', ())"
    "list_iter ps' = enqueue_seq ty e (list_iter ps)"
    using for_iter_mut_refines [of ?f ps "()"] by (cases "for_iter_mut ?f ps ()") auto
  then show ?thesis by (simp add: enqueue_def)
qed

lemma enqueue_seq_decomp:
  assumes "\<exists>p \<in> set ps. protocol_type p = ty"
  obtains pre p post where "ps = pre @ p # post" "protocol_type p = ty"
    "\<forall>q \<in> set pre. protocol_type q \<noteq> ty"
    "enqueue_seq ty e ps = pre @ p\<lparr>input_head := input_head p @ [e]\<rparr> # post"
proof -
  from assms obtain pre p post where ps: "ps = pre @ p # post" "protocol_type p = ty"
    "\<forall>q \<in> set pre. protocol_type q \<noteq> ty"
    using split_list_first_prop [OF assms] by blast
  have "enqueue_seq ty e ps = pre @ p\<lparr>input_head := input_head p @ [e]\<rparr> # post"
    unfolding ps(1) using ps(2,3) by (induction pre) auto
  with ps that show ?thesis by blast
qed

lemma enqueue_seq_absent: "\<forall>p \<in> set ps. protocol_type p \<noteq> ty \<Longrightarrow> enqueue_seq ty e ps = ps"
  by (induction ps) auto

lemma device_isr_ethernet:
  assumes "device_type d = Ethernet" "ethernet_read_data d = Ret (Some (ty, data, len), d')"
  obtains ps' where "device_isr d i ps w = Ret (d', ps', raise_signal SIGUSR1 w)"
    "list_iter ps' = enqueue_seq ty \<lparr>pd_irq = i, pd_data = Some data, pd_len = len\<rparr> (list_iter ps)"
proof -
  obtain ps' where "enqueue ty \<lparr>pd_irq = i, pd_data = Some data, pd_len = len\<rparr> ps = Ret ps'"
    "list_iter ps' = enqueue_seq ty \<lparr>pd_irq = i, pd_data = Some data, pd_len = len\<rparr> (list_iter ps)"
    using enqueue_refines by blast
  with assms that show ?thesis by (simp add: device_isr_def)
qed

end
