(* ===== verification/Arp.thy ===== *)
theory Arp
  imports Devices
begin

text \<open>
  The protocol contexts of \<^verbatim>\<open>src/src/protocols/mod.rs\<close> and the ARP module
  \<^verbatim>\<open>src/src/protocols/arp.rs\<close>: the cache with its four-hour timeout, requests, replies,
  the input handler and address resolution.

  The record \<open>net\<close> is what a protocol handler works on: the runtime, the device it was
  handed and the protocol contexts.

  Shown here: the cache satisfies the contract \<open>expiring_cache\<close>; a request for our
  address is learned and answered by the right frame; the frame of a reply, received by
  the requester, resolves the address there; resolution consults the cache and otherwise
  broadcasts one request.
\<close>

section \<open>The cache\<close>

definition ARP_HW_SPACE_ETHER :: u16 where "ARP_HW_SPACE_ETHER = 0x0001"
definition ARP_PROTO_SPACE_IP :: u16 where "ARP_PROTO_SPACE_IP = 0x0800"
definition ARP_OP_REQUEST :: u16 where "ARP_OP_REQUEST = 0x0001"
definition ARP_OP_REPLY :: u16 where "ARP_OP_REPLY = 0x0002"
definition ARP_CACHE_TIMEOUT_SECS :: nat where "ARP_CACHE_TIMEOUT_SECS = 60 * 60 * 4"
definition IP_ADDR_LEN :: nat where "IP_ADDR_LEN = 4"

lemmas arp_consts = ARP_HW_SPACE_ETHER_def ARP_PROTO_SPACE_IP_def ARP_OP_REQUEST_def
  ARP_OP_REPLY_def IP_ADDR_LEN_def

datatype arp_table_entry_state = Incomplete | Resolved | Static

record arp_table_entry =
  arp_state :: arp_table_entry_state
  proto_address :: ip_address
  hw_address :: bytes
  timestamp :: nat

type_synonym arp_table = "ip_address \<rightharpoonup> arp_table_entry"

definition arp_table_new :: arp_table where
  "arp_table_new = Map.empty"

definition arp_table_get ::
  "arp_table \<Rightarrow> ip_address \<Rightarrow> 'z world_scheme \<Rightarrow> (bytes option \<times> arp_table \<times> 'z world_scheme) exec" where
  "arp_table_get t ip w =
     (case t ip of
        None \<Rightarrow> Ret (None, t, w)
      | Some entry \<Rightarrow>
          let (dur_res, w') = system_time_elapsed (timestamp entry) w
          in and_then (unwrap_result dur_res) (\<lambda>dur.
             if ARP_CACHE_TIMEOUT_SECS < as_secs dur
             then Ret (None, t(ip := None), w')
             else Ret (Some (hw_address entry), t, w')))"

definition arp_table_update ::
  "arp_table \<Rightarrow> ip_address \<Rightarrow> bytes \<Rightarrow> 'z world_scheme \<Rightarrow> arp_table \<times> 'z world_scheme" where
  "arp_table_update t ip resolved w =
     (let t' = (if t ip \<noteq> None then t(ip := None) else t);
          (now, w') = system_time_now w
      in (t'(ip \<mapsto> \<lparr>arp_state = Resolved, proto_address = ip, hw_address = resolved,
                    timestamp = now\<rparr>), w'))"

section \<open>Contexts\<close>

record protocol_contexts =
  ctx_arp_table :: arp_table
  ctx_ip_routes :: ip_routes
  ctx_ip_id :: u16

record net = world +
  device :: net_device
  contexts :: protocol_contexts

definition net_transmit ::
  "protocol_type \<Rightarrow> bytes \<Rightarrow> nat \<Rightarrow> bytes \<Rightarrow> net \<Rightarrow> (unit result \<times> net) exec" where
  "net_transmit ty data len dst n =
     and_then (device_transmit (device n) ty data len dst n) (\<lambda>(r, d, n').
     Ret (r, n'\<lparr>device := d\<rparr>))"

section \<open>Messages\<close>

record arp_message =
  hw_addr_space :: u16
  proto_addr_space :: u16
  hw_addr_len :: u8
  proto_addr_len :: u8
  arp_op :: u16
  sender_hw_addr :: bytes
  sender_proto_addr :: bytes
  target_hw_addr :: bytes
  target_proto_addr :: bytes

definition ARP_MSG_SIZE :: nat where "ARP_MSG_SIZE = 28"

definition arp_message_wf :: "arp_message \<Rightarrow> bool" where
  "arp_message_wf m \<longleftrightarrow> length (sender_hw_addr m) = 6 \<and> length (sender_proto_addr m) = 4 \<and>
     length (target_hw_addr m) = 6 \<and> length (target_proto_addr m) = 4"

definition arp_message_layout :: "arp_message \<Rightarrow> bytes" where
  "arp_message_layout m =
     u16_to_bytes (hw_addr_space m) @ u16_to_bytes (proto_addr_space m) @
     [hw_addr_len m, proto_addr_len m] @ u16_to_bytes (arp_op m) @
     sender_hw_addr m @ sender_proto_addr m @ target_hw_addr m @ target_proto_addr m"

definition arp_message_read :: "bytes \<Rightarrow> arp_message" where
  "arp_message_read b =
     \<lparr>hw_addr_space = u16_of_bytes (b ! 0) (b ! 1), proto_addr_space = u16_of_bytes (b ! 2) (b ! 3),
      hw_addr_len = b ! 4, proto_addr_len = b ! 5, arp_op = u16_of_bytes (b ! 6) (b ! 7),
      sender_hw_addr = take 6 (drop 8 b), sender_proto_addr = take 4 (drop 14 b),
      target_hw_addr = take 6 (drop 18 b), target_proto_addr = take 4 (drop 24 b)\<rparr>"

definition arp_request_message :: "bytes \<Rightarrow> ip_address \<Rightarrow> ip_address \<Rightarrow> arp_message" where
  "arp_request_message sender_hw sender_ip target_ip =
     \<lparr>hw_addr_space = le_to_be_u16 ARP_HW_SPACE_ETHER,
      proto_addr_space = le_to_be_u16 ARP_PROTO_SPACE_IP,
      hw_addr_len = of_nat ETH_ADDR_LEN, proto_addr_len = of_nat IP_ADDR_LEN,
      arp_op = le_to_be_u16 ARP_OP_REQUEST,
      sender_hw_addr = sender_hw, sender_proto_addr = u32_to_bytes sender_ip,
      target_hw_addr = replicate 6 0, target_proto_addr = u32_to_bytes target_ip\<rparr>"

definition arp_reply_message :: "bytes \<Rightarrow> ip_address \<Rightarrow> bytes \<Rightarrow> ip_address \<Rightarrow> arp_message" where
  "arp_reply_message sender_hw sender_ip target_hw target_ip =
     \<lparr>hw_addr_space = le_to_be_u16 ARP_HW_SPACE_ETHER,
      proto_addr_space = le_to_be_u16 ARP_PROTO_SPACE_IP,
      hw_addr_len = of_nat ETH_ADDR_LEN, proto_addr_len = of_nat IP_ADDR_LEN,
      arp_op = le_to_be_u16 ARP_OP_REPLY,
      sender_hw_addr = sender_hw, sender_proto_addr = u32_to_bytes sender_ip,
      target_hw_addr = target_hw, target_proto_addr = u32_to_bytes target_ip\<rparr>"

definition arp_request :: "ip_interface \<Rightarrow> ip_address \<Rightarrow> net \<Rightarrow> (unit result \<times> net) exec" where
  "arp_request interface target_ip n =
     and_then (slice_to (dev_address (device n)) 6) (\<lambda>hw.
     let data = to_u8_slice arp_message_layout (arp_request_message hw (unicast interface) target_ip)
     in and_then (slice_to (dev_broadcast (device n)) 6) (\<lambda>bc.
        net_transmit Arp_Type data (length data) bc n))"

definition arp_reply ::
  "ip_interface \<Rightarrow> bytes \<Rightarrow> ip_address \<Rightarrow> bytes \<Rightarrow> net \<Rightarrow> (unit result \<times> net) exec" where
  "arp_reply interface target_hw target_ip destination_hw n =
     and_then (slice_to (dev_address (device n)) 6) (\<lambda>hw.
     let data = to_u8_slice arp_message_layout
                  (arp_reply_message hw (unicast interface) target_hw target_ip)
     in net_transmit Arp_Type data (length data) destination_hw n)"

text \<open>\<open>bytes_to_struct::<u32>\<close> on a four-byte array.\<close>

definition u32_from_array :: "bytes \<Rightarrow> u32 exec" where
  "u32_from_array b = bytes_to_struct 4 (\<lambda>b. u32_of_bytes (b ! 0) (b ! 1) (b ! 2) (b ! 3)) b"

definition arp_input :: "bytes \<Rightarrow> nat \<Rightarrow> net \<Rightarrow> (unit result \<times> net) exec" where
  "arp_input data len n =
     and_then (bytes_to_struct ARP_MSG_SIZE arp_message_read data) (\<lambda>msg.
     if be_to_le_u16 (hw_addr_space msg) \<noteq> ARP_HW_SPACE_ETHER \<or> unat (hw_addr_len msg) \<noteq> ETH_ADDR_LEN
     then Ret (Err, n)
     else if be_to_le_u16 (proto_addr_space msg) \<noteq> ARP_PROTO_SPACE_IP \<or>
             unat (proto_addr_len msg) \<noteq> IP_ADDR_LEN
     then Ret (Err, n)
     else
       and_then (u32_from_array (target_proto_addr msg)) (\<lambda>target_ip.
       and_then (unwrap_option (get_interface (device n) IP_Family)) (\<lambda>interface.
       if unicast interface \<noteq> target_ip then Ret (Ok (), n)
       else
         and_then (u32_from_array (sender_proto_addr msg)) (\<lambda>sender_ip.
         let (t, n1) = arp_table_update (ctx_arp_table (contexts n)) sender_ip (sender_hw_addr msg) n;
             n2 = n1\<lparr>contexts := (contexts n1)\<lparr>ctx_arp_table := t\<rparr>\<rparr>
         in if be_to_le_u16 (arp_op msg) = ARP_OP_REQUEST
            then arp_reply interface (sender_hw_addr msg) sender_ip (sender_hw_addr msg) n2
            else Ret (Ok (), n2)))))"

definition arp_resolve ::
  "ip_interface \<Rightarrow> ip_address \<Rightarrow> net \<Rightarrow> (bytes option result \<times> net) exec" where
  "arp_resolve interface target_ip n =
     (if device_type (device n) \<noteq> Ethernet then Ret (Err, n)
      else
        and_then (arp_table_get (ctx_arp_table (contexts n)) target_ip n) (\<lambda>(found, t, n1).
        let n2 = n1\<lparr>contexts := (contexts n1)\<lparr>ctx_arp_table := t\<rparr>\<rparr>
        in case found of
             Some hw \<Rightarrow> Ret (Ok (Some hw), n2)
           | None \<Rightarrow>
               and_then (arp_request interface target_ip n2) (\<lambda>(r, n3).
               case r of Ok _ \<Rightarrow> Ret (Ok None, n3) | Err \<Rightarrow> Ret (Err, n3))))"

section \<open>The contract of the cache\<close>

text \<open>
  What a client of an expiring cache relies on: \<open>lookup t k now\<close> is the value visible at
  time \<open>now\<close>, \<open>learn t k v s\<close> stores \<open>v\<close> at time \<open>s\<close>.
\<close>

locale expiring_cache =
  fixes empty :: "'t" and lookup :: "'t \<Rightarrow> 'k \<Rightarrow> nat \<Rightarrow> 'v option"
    and learn :: "'t \<Rightarrow> 'k \<Rightarrow> 'v \<Rightarrow> nat \<Rightarrow> 't" and fresh :: "nat \<Rightarrow> nat \<Rightarrow> bool"
  assumes lookup_empty: "lookup empty k now = None"
    and lookup_learn: "lookup (learn t k v s) k now = (if fresh s now then Some v else None)"
    and lookup_learn_other: "k' \<noteq> k \<Longrightarrow> lookup (learn t k v s) k' now = lookup t k' now"
begin

lemma relearn: "lookup (learn (learn t k v s) k v' s') k'' now = lookup (learn t k v' s') k'' now"
  by (cases "k'' = k") (simp_all add: lookup_learn lookup_learn_other)

lemma learn_commute:
  "k \<noteq> k' \<Longrightarrow> lookup (learn (learn t k v s) k' v' s') k'' now = lookup (learn (learn t k' v' s') k v s) k'' now"
  by (cases "k'' = k"; cases "k'' = k'") (simp_all add: lookup_learn lookup_learn_other)

lemma lookup_learn_all:
  "distinct (map fst kvs) \<Longrightarrow> (k, v) \<in> set kvs \<Longrightarrow> fresh s now \<Longrightarrow>
   lookup (foldl (\<lambda>t (k, v). learn t k v s) t kvs) k now = Some v"
proof (induction kvs arbitrary: t rule: rev_induct)
  case (snoc kv kvs)
  then show ?case
    by (cases kv; cases "k = fst kv")
      (auto simp: lookup_learn lookup_learn_other image_iff split: if_splits)
qed simp

end

definition arp_lookup :: "arp_table \<Rightarrow> ip_address \<Rightarrow> nat \<Rightarrow> bytes option" where
  "arp_lookup t ip now =
     (case t ip of
        None \<Rightarrow> None
      | Some e \<Rightarrow> if as_secs (now - timestamp e) \<le> ARP_CACHE_TIMEOUT_SECS
                 then Some (hw_address e) else None)"

definition arp_learn :: "arp_table \<Rightarrow> ip_address \<Rightarrow> bytes \<Rightarrow> nat \<Rightarrow> arp_table" where
  "arp_learn t ip hw s =
     t(ip \<mapsto> \<lparr>arp_state = Resolved, proto_address = ip, hw_address = hw, timestamp = s\<rparr>)"

definition arp_fresh :: "nat \<Rightarrow> nat \<Rightarrow> bool" where
  "arp_fresh s now \<longleftrightarrow> as_secs (now - s) \<le> ARP_CACHE_TIMEOUT_SECS"

interpretation arp_cache: expiring_cache arp_table_new arp_lookup arp_learn arp_fresh
  by unfold_locales (auto simp: arp_table_new_def arp_lookup_def arp_learn_def arp_fresh_def)

lemma arp_table_update_eq:
  "arp_table_update t ip hw w =
     (arp_learn t ip hw (clock w (readings w)), w\<lparr>readings := Suc (readings w)\<rparr>)"
  by (auto simp: arp_table_update_def arp_learn_def system_time_now_def)

text \<open>
  \<open>arp_table_get\<close> refines the lookup of the contract, unless the clock went back past
  the time stamp of the entry, when it panics.
\<close>

lemma arp_table_get_refines:
  assumes "\<And>e. t ip = Some e \<Longrightarrow> timestamp e \<le> clock w (readings w)"
  shows "\<exists>t' w'. arp_table_get t ip w = Ret (arp_lookup t ip (clock w (readings w)), t', w') \<and>
    w' = w\<lparr>readings := readings w'\<rparr> \<and> readings w \<le> readings w' \<and>
    t' = (if arp_lookup t ip (clock w (readings w)) = None then t(ip := None) else t)"
proof (cases "t ip")
  case None
  then show ?thesis by (auto simp: arp_table_get_def arp_lookup_def)
next
  case (Some e)
  with assms show ?thesis
    by (auto simp: arp_table_get_def arp_lookup_def system_time_elapsed_def system_time_now_def Let_def)
qed

lemma arp_table_get_clock_back:
  "t ip = Some e \<Longrightarrow> clock w (readings w) < timestamp e \<Longrightarrow> arp_table_get t ip w = Fault UnwrapFailed"
  by (simp add: arp_table_get_def system_time_elapsed_def system_time_now_def)

section \<open>Messages on the wire\<close>

interpretation arp_msg: packed_struct ARP_MSG_SIZE arp_message_wf arp_message_layout arp_message_read
proof unfold_locales
  fix m rest
  assume wf: "arp_message_wf m"
  then show "length (arp_message_layout m) = ARP_MSG_SIZE"
    by (simp add: arp_message_wf_def arp_message_layout_def ARP_MSG_SIZE_def)
  show "arp_message_read (arp_message_layout m @ rest) = m"
    using wf
    by (simp add: arp_message_wf_def arp_message_layout_def arp_message_read_def u16_to_bytes_def
        byte_simps)
next
  fix b :: bytes
  assume "ARP_MSG_SIZE \<le> length b"
  then have b: "28 \<le> length b" by (simp add: ARP_MSG_SIZE_def)
  have "take 28 b = take 2 b @ take 2 (drop 2 b) @ take 2 (drop 4 b) @ take 2 (drop 6 b) @
      take 6 (drop 8 b) @ take 4 (drop 14 b) @ take 6 (drop 18 b) @ take 4 (drop 24 b)"
    using b by (simp add: take_field [of 2 28] take_field [of 2 26] take_field [of 2 24]
        take_field [of 2 22] take_field [of 6 20] take_field [of 4 14] take_field [of 6 10])
  then show "arp_message_layout (arp_message_read b) = take ARP_MSG_SIZE b"
    using b take_2_drop [of 0 b]
    by (simp add: arp_message_layout_def arp_message_read_def byte_simps ARP_MSG_SIZE_def take_2_drop)
  show "arp_message_wf (arp_message_read b)"
    using b by (simp add: arp_message_wf_def arp_message_read_def)
qed

lemma u32_from_array_u32_to_bytes [simp]: "u32_from_array (u32_to_bytes a) = Ret a"
  by (simp add: u32_from_array_def bytes_to_struct_def u32_to_bytes_def byte_simps)

lemma arp_messages_wf [simp]:
  "length hw = 6 \<Longrightarrow> arp_message_wf (arp_request_message hw ip tip)"
  "length hw = 6 \<Longrightarrow> length thw = 6 \<Longrightarrow> arp_message_wf (arp_reply_message hw ip thw tip)"
  by (simp_all add: arp_message_wf_def arp_request_message_def arp_reply_message_def)

section \<open>Requests, replies and resolution\<close>

definition net_send :: "bytes \<Rightarrow> net \<Rightarrow> net" where
  "net_send fr n = n\<lparr>device := tap_write fr (device n)\<rparr>"

definition net_learn :: "ip_address \<Rightarrow> bytes \<Rightarrow> net \<Rightarrow> net" where
  "net_learn ip hw n =
     n\<lparr>readings := Suc (readings n),
       contexts := (contexts n)\<lparr>ctx_arp_table :=
         arp_learn (ctx_arp_table (contexts n)) ip hw (clock n (readings n))\<rparr>\<rparr>"

lemma net_send_simps [simp]:
  "contexts (net_send fr n) = contexts n" "device (net_send fr n) = tap_write fr (device n)"
  "clock (net_send fr n) = clock n" "readings (net_send fr n) = readings n"
  "rng (net_send fr n) = rng n" "draws (net_send fr n) = draws n"
  "chans (net_send fr n) = chans n" "raised (net_send fr n) = raised n"
  by (simp_all add: net_send_def)

lemma net_learn_simps [simp]:
  "device (net_learn ip hw n) = device n" "clock (net_learn ip hw n) = clock n"
  "ctx_ip_routes (contexts (net_learn ip hw n)) = ctx_ip_routes (contexts n)"
  "ctx_arp_table (contexts (net_learn ip hw n)) =
     arp_learn (ctx_arp_table (contexts n)) ip hw (clock n (readings n))"
  by (simp_all add: net_learn_def)

lemma net_transmit_Ret:
  assumes "tap_ready (device n)" "length dst = 6" "length data \<le> 1500"
  shows "net_transmit ty data len dst n =
    Ret (Ok (), net_send (eth_frame dst (dev_mac (device n)) ty data) n)"
  by (simp add: net_transmit_def device_transmit_Ret [OF assms] net_send_def)

lemma net_transmit_too_long:
  assumes "tap_ready (device n)" "length dst = 6" "1500 < length data"
  shows "net_transmit ty data len dst n = Fault OutOfRange"
  by (simp add: net_transmit_def device_transmit_too_long [OF assms])

lemma length_arp_messages [simp]:
  "length hw = 6 \<Longrightarrow> length (to_u8_slice arp_message_layout (arp_request_message hw ip tip)) = 28"
  "length hw = 6 \<Longrightarrow> length thw = 6 \<Longrightarrow>
     length (to_u8_slice arp_message_layout (arp_reply_message hw ip thw tip)) = 28"
  using arp_msg.layout_length [of "arp_request_message hw ip tip"]
    arp_msg.layout_length [of "arp_reply_message hw ip thw tip"]
  by (simp_all add: to_u8_slice_def ARP_MSG_SIZE_def)

lemma slice_mac [simp]: "tap_ready d \<Longrightarrow> slice_to (dev_address d) 6 = Ret (dev_mac d)"
  by (simp add: slice_to_def tap_ready_def dev_mac_def device_consts)

text \<open>The frames the two messages become.\<close>

definition arp_request_frame :: "net_device \<Rightarrow> ip_address \<Rightarrow> ip_address \<Rightarrow> bytes" where
  "arp_request_frame d sender_ip target_ip =
     eth_frame (take 6 (dev_broadcast d)) (dev_mac d) Arp_Type
       (to_u8_slice arp_message_layout (arp_request_message (dev_mac d) sender_ip target_ip))"

definition arp_reply_frame :: "net_device \<Rightarrow> ip_address \<Rightarrow> bytes \<Rightarrow> ip_address \<Rightarrow> bytes" where
  "arp_reply_frame d sender_ip target_hw target_ip =
     eth_frame target_hw (dev_mac d) Arp_Type
       (to_u8_slice arp_message_layout (arp_reply_message (dev_mac d) sender_ip target_hw target_ip))"

lemma arp_request_Ret:
  assumes "tap_ready (device n)"
  shows "arp_request iface tip n =
    Ret (Ok (), net_send (arp_request_frame (device n) (unicast iface) tip) n)"
proof -
  have bc: "slice_to (dev_broadcast (device n)) 6 = Ret (take 6 (dev_broadcast (device n)))"
    "length (take 6 (dev_broadcast (device n))) = 6"
    using assms by (simp_all add: slice_to_def tap_ready_def device_consts)
  show ?thesis
    using assms bc by (simp add: arp_request_def Let_def net_transmit_Ret arp_request_frame_def)
qed

lemma arp_reply_Ret:
  assumes "tap_ready (device n)" "length thw = 6"
  shows "arp_reply iface thw tip thw n =
    Ret (Ok (), net_send (arp_reply_frame (device n) (unicast iface) thw tip) n)"
  using assms by (simp add: arp_reply_def Let_def net_transmit_Ret arp_reply_frame_def)

lemma arp_input_request:
  assumes "tap_ready (device n)" "get_interface (device n) IP_Family = Some iface"
    and "length shw = 6" "tip = unicast iface"
  shows "arp_input (to_u8_slice arp_message_layout (arp_request_message shw sip tip) @ pad) len n =
    Ret (Ok (), net_send (arp_reply_frame (device n) (unicast iface) shw sip) (net_learn sip shw n))"
proof -
  let ?m = "arp_request_message shw sip tip"
  have "bytes_to_struct ARP_MSG_SIZE arp_message_read (to_u8_slice arp_message_layout ?m @ pad) = Ret ?m"
    using arp_msg.bytes_to_struct_layout [of ?m] assms(3) by simp
  then show ?thesis
    using assms arp_reply_Ret [of "net_learn sip shw n" shw iface sip]
    by (simp add: arp_input_def arp_request_message_def arp_table_update_eq net_learn_def
        arp_consts device_consts)
qed

lemma arp_input_reply:
  assumes "get_interface (device n) IP_Family = Some iface"
    and "length shw = 6" "length thw = 6" "tip = unicast iface"
  shows "arp_input (to_u8_slice arp_message_layout (arp_reply_message shw sip thw tip) @ pad) len n =
    Ret (Ok (), net_learn sip shw n)"
proof -
  let ?m = "arp_reply_message shw sip thw tip"
  have "bytes_to_struct ARP_MSG_SIZE arp_message_read (to_u8_slice arp_message_layout ?m @ pad) = Ret ?m"
    using arp_msg.bytes_to_struct_layout [of ?m] assms(2,3) by simp
  then show ?thesis
    using assms
    by (simp add: arp_input_def arp_reply_message_def arp_table_update_eq net_learn_def
        arp_consts device_consts)
qed

lemma arp_resolve_hit:
  assumes "device_type (device n) = Ethernet"
    and "ctx_arp_table (contexts n) ip = Some e"
    and "timestamp e \<le> clock n (readings n)" "arp_fresh (timestamp e) (clock n (readings n))"
  shows "arp_resolve iface ip n = Ret (Ok (Some (hw_address e)), n\<lparr>readings := Suc (readings n)\<rparr>)"
  using assms
  by (auto simp: arp_resolve_def arp_table_get_def system_time_elapsed_def system_time_now_def
      arp_fresh_def Let_def)

lemma arp_resolve_learned:
  assumes "device_type (device n) = Ethernet" "ctx_arp_table (contexts n) = arp_learn tab ip hw t"
    and "t \<le> clock n (readings n)" "arp_fresh t (clock n (readings n))"
  shows "arp_resolve iface ip n = Ret (Ok (Some hw), n\<lparr>readings := Suc (readings n)\<rparr>)"
  using arp_resolve_hit [OF assms(1), of ip "\<lparr>arp_state = Resolved, proto_address = ip, hw_address = hw, timestamp = t\<rparr>"]
    assms(2-4) by (simp add: arp_learn_def)

lemma arp_resolve_miss:
  assumes "tap_ready (device n)" "ctx_arp_table (contexts n) ip = None"
  shows "arp_resolve iface ip n =
    Ret (Ok None, net_send (arp_request_frame (device n) (unicast iface) ip) n)"
  using assms
  by (simp add: arp_resolve_def arp_table_get_def arp_request_Ret tap_ready_def)

lemma arp_input_malformed:
  assumes "length data < ARP_MSG_SIZE"
  shows "arp_input data len n = Fault UndefinedBehaviour"
  using assms by (simp add: arp_input_def bytes_to_struct_def)

end
