(* ===== verification/Ip_Output.thy ===== *)
theory Ip_Output
  imports Arp
begin

text \<open>
  The IP header, its construction and validation, and the output path of
  \<^verbatim>\<open>src/src/protocols/ip/mod.rs\<close>: route lookup, source check, header, address resolution
  and transmission.

  Shown here: the header \<open>create_ip_header\<close> builds passes \<open>check_ip_header\<close>; the
  identification counter counts from 129 and panics when it is exhausted; \<open>ip_output\<close> on
  each of its branches, down to the frame that leaves the device.
\<close>

definition IP_MAX_SIZE :: nat where "IP_MAX_SIZE = 65535"
definition IP_HEADER_MIN_SIZE :: nat where "IP_HEADER_MIN_SIZE = 20"
definition IP_PAYLOAD_MAX_SIZE :: nat where "IP_PAYLOAD_MAX_SIZE = IP_MAX_SIZE - IP_HEADER_MIN_SIZE"
definition IP_VERSION_4 :: u8 where "IP_VERSION_4 = 4"

lemmas ip_consts = IP_MAX_SIZE_def IP_HEADER_MIN_SIZE_def IP_PAYLOAD_MAX_SIZE_def IP_VERSION_4_def

datatype ip_protocol_type = Icmp | Tcp | Udp | UnknownProto

definition ip_protocol_as_u8 :: "ip_protocol_type \<Rightarrow> u8" where
  "ip_protocol_as_u8 p = (case p of Icmp \<Rightarrow> 0x01 | Tcp \<Rightarrow> 0x06 | Udp \<Rightarrow> 0x11 | UnknownProto \<Rightarrow> 0x12)"

definition ip_protocol_from_u8 :: "u8 \<Rightarrow> ip_protocol_type" where
  "ip_protocol_from_u8 v =
     (if v = 0x01 then Icmp else if v = 0x06 then Tcp else if v = 0x11 then Udp else UnknownProto)"

record ip_header =
  ver_len :: u8
  service_type :: u8
  total_len :: u16
  hdr_id :: u16
  frag_offset :: u16
  ttl :: u8
  protocol :: u8
  check_sum :: u16
  ip_src :: ip_address
  ip_dst :: ip_address

definition ip_header_wf :: "ip_header \<Rightarrow> bool" where
  "ip_header_wf h = True"

definition ip_header_layout :: "ip_header \<Rightarrow> bytes" where
  "ip_header_layout h =
     [ver_len h, service_type h] @ u16_to_bytes (total_len h) @ u16_to_bytes (hdr_id h) @
     u16_to_bytes (frag_offset h) @ [ttl h, protocol h] @ u16_to_bytes (check_sum h) @
     u32_to_bytes (ip_src h) @ u32_to_bytes (ip_dst h)"

definition ip_header_read :: "bytes \<Rightarrow> ip_header" where
  "ip_header_read b =
     \<lparr>ver_len = b ! 0, service_type = b ! 1, total_len = u16_of_bytes (b ! 2) (b ! 3),
      hdr_id = u16_of_bytes (b ! 4) (b ! 5), frag_offset = u16_of_bytes (b ! 6) (b ! 7),
      ttl = b ! 8, protocol = b ! 9, check_sum = u16_of_bytes (b ! 10) (b ! 11),
      ip_src = u32_of_bytes (b ! 12) (b ! 13) (b ! 14) (b ! 15),
      ip_dst = u32_of_bytes (b ! 16) (b ! 17) (b ! 18) (b ! 19)\<rparr>"

definition ip_id_new :: u16 where
  "ip_id_new = 128"

definition generate_id :: "net \<Rightarrow> (u16 \<times> net) exec" where
  "generate_id n =
     and_then (checked_add (ctx_ip_id (contexts n)) 1) (\<lambda>i.
     Ret (i, n\<lparr>contexts := (contexts n)\<lparr>ctx_ip_id := i\<rparr>\<rparr>))"

definition create_ip_header ::
  "ip_protocol_type \<Rightarrow> ip_address \<Rightarrow> ip_address \<Rightarrow> bytes \<Rightarrow> u16 \<Rightarrow> ip_header exec" where
  "create_ip_header ip_proto src dst data i =
     (let hlen = IP_HEADER_MIN_SIZE; len = length data
      in and_then (checked_add (of_nat hlen) (of_nat len)) (\<lambda>total.
         let header =
           \<lparr>ver_len = push_bit 4 IP_VERSION_4 OR drop_bit 2 (of_nat hlen), service_type = 0,
            total_len = le_to_be_u16 total, hdr_id = le_to_be_u16 i, frag_offset = 0, ttl = 0xff,
            protocol = ip_protocol_as_u8 ip_proto, check_sum = 0, ip_src = src, ip_dst = dst\<rparr>
         in and_then (cksum16 (to_u8_slice ip_header_layout header) hlen 0) (\<lambda>c.
            Ret (header\<lparr>check_sum := le_to_be_u16 c\<rparr>))))"

text \<open>
  The broadcast branch copies a slice of \<open>ETH_ADDR_LEN + 1\<close> bytes into an array of
  \<open>ETH_ADDR_LEN\<close>: the conversion fails whenever the slice exists.
\<close>

definition array6_from :: "bytes \<Rightarrow> bytes exec" where
  "array6_from b = (if length b = ETH_ADDR_LEN then Ret b else Fault UnwrapFailed)"

text \<open>The last part of \<open>output\<close>: the hardware address and the transmission.\<close>

definition ip_link_output ::
  "ip_interface \<Rightarrow> ip_address \<Rightarrow> ip_address \<Rightarrow> bytes \<Rightarrow> net \<Rightarrow> (unit result \<times> net) exec" where
  "ip_link_output iface dst next_hop ip_data n =
     (let send = (\<lambda>hw n. net_transmit IP_Type ip_data (length ip_data) hw n)
      in if 0 < dev_flags (device n) AND DEVICE_FLAG_NEED_ARP then
           (if dst = broadcast iface \<or> dst = IP_ADDR_BROADCAST then
              and_then (slice_to (dev_broadcast (device n)) (ETH_ADDR_LEN + 1)) (\<lambda>b.
              and_then (array6_from b) (\<lambda>hw. send hw n))
            else
              and_then (arp_resolve iface next_hop n) (\<lambda>(arp, n2).
              case arp of
                Ok None \<Rightarrow> Ret (Ok (), n2)
              | Ok (Some hw) \<Rightarrow> send hw n2
              | Err \<Rightarrow> send (replicate ETH_ADDR_LEN 0) n2))
         else send (replicate ETH_ADDR_LEN 0) n)"

definition ip_output ::
  "ip_protocol_type \<Rightarrow> bytes \<Rightarrow> ip_address \<Rightarrow> ip_address \<Rightarrow> net \<Rightarrow> (unit result \<times> net) exec" where
  "ip_output ip_proto data src dst n =
     (case lookup_ip_route (ctx_ip_routes (contexts n)) dst of
        None \<Rightarrow> Ret (Err, n)
      | Some route \<Rightarrow>
          let iface = rt_interface route in
          if src \<noteq> IP_ADDR_ANY \<and> src \<noteq> unicast iface then Ret (Err, n)
          else
            let next_hop = (if rt_next_hop route \<noteq> IP_ADDR_ANY then rt_next_hop route else dst) in
            and_then (generate_id n) (\<lambda>(i, n1).
            and_then (create_ip_header ip_proto (unicast iface) dst data i) (\<lambda>header.
            ip_link_output iface dst next_hop (to_u8_slice ip_header_layout header @ data) n1)))"

definition check_ip_header :: "ip_header \<Rightarrow> nat \<Rightarrow> nat \<Rightarrow> unit result exec" where
  "check_ip_header header data_len hdr_len =
     (let ip_version = drop_bit 4 (ver_len header)
      in if ip_version \<noteq> IP_VERSION_4 then Ret Err
         else if data_len < hdr_len then Ret Err
         else if data_len < unat (be_to_le_u16 (total_len header)) then Ret Err
         else
           and_then (cksum16 (to_u8_slice ip_header_layout header) hdr_len 0) (\<lambda>c.
           if c \<noteq> 0 then Ret Err
           else
             let offset = be_to_le_u16 (frag_offset header)
             in if 0 < offset AND 0x2000 \<or> 0 < offset AND 0x1fff then Ret Err else Ret (Ok ())))"

section \<open>The header on the wire\<close>

interpretation ip_hdr: packed_struct IP_HEADER_MIN_SIZE ip_header_wf ip_header_layout ip_header_read
proof unfold_locales
  fix h rest
  show "length (ip_header_layout h) = IP_HEADER_MIN_SIZE"
    by (simp add: ip_header_layout_def IP_HEADER_MIN_SIZE_def)
  show "ip_header_read (ip_header_layout h @ rest) = h"
    by (simp add: ip_header_layout_def ip_header_read_def u16_to_bytes_def u32_to_bytes_def byte_simps)
next
  fix b :: bytes
  assume "IP_HEADER_MIN_SIZE \<le> length b"
  then have b: "20 \<le> length b" by (simp add: IP_HEADER_MIN_SIZE_def)
  have "take 20 b = take 2 b @ take 2 (drop 2 b) @ take 2 (drop 4 b) @ take 2 (drop 6 b) @
      take 2 (drop 8 b) @ take 2 (drop 10 b) @ take 4 (drop 12 b) @ take 4 (drop 16 b)"
    using b by (simp add: take_field [of 2 20] take_field [of 2 18] take_field [of 2 16]
        take_field [of 2 14] take_field [of 2 12] take_field [of 2 10] take_field [of 4 8])
  then show "ip_header_layout (ip_header_read b) = take IP_HEADER_MIN_SIZE b"
    using b take_2_drop [of 0 b]
    by (simp add: ip_header_layout_def ip_header_read_def byte_simps IP_HEADER_MIN_SIZE_def
        take_2_drop take_4_drop)
qed (simp_all add: ip_header_wf_def)

lemma ip_protocol_roundtrip [simp]: "ip_protocol_from_u8 (ip_protocol_as_u8 p) = p"
  by (cases p) (simp_all add: ip_protocol_as_u8_def ip_protocol_from_u8_def)

lemma ip_header_layout_check_sum:
  "to_u8_slice ip_header_layout (h\<lparr>check_sum := le_to_be_u16 c\<rparr>) =
     put_be16 (to_u8_slice ip_header_layout h) 10 c"
  by (simp add: to_u8_slice_def ip_header_layout_def put_be16_def put_be16_bytes byte_simps
      u16_to_bytes_def)

lemma word_sum_20: "length b = 20 \<Longrightarrow> word_sum b \<le> 655350"
  using word_sum_bound [of b] by simp

lemma create_ip_header_Ret:
  assumes "length data \<le> 65515"
  obtains h where "create_ip_header p src dst data i = Ret h"
    "ver_len h = 0x45" "be_to_le_u16 (total_len h) = of_nat (20 + length data)"
    "be_to_le_u16 (hdr_id h) = i" "frag_offset h = 0" "protocol h = ip_protocol_as_u8 p"
    "ip_src h = src" "ip_dst h = dst"
    "cksum16 (to_u8_slice ip_header_layout h) 20 0 = Ret 0"
proof -
  have tot: "checked_add (of_nat IP_HEADER_MIN_SIZE) (of_nat (length data)) =
      Ret (of_nat (20 + length data) :: u16)"
    using assms by (simp add: checked_add_def unat_of_nat IP_HEADER_MIN_SIZE_def)
  define h0 where "h0 = \<lparr>ver_len = push_bit 4 IP_VERSION_4 OR drop_bit 2 (of_nat IP_HEADER_MIN_SIZE),
      service_type = 0, total_len = le_to_be_u16 (of_nat (20 + length data)), hdr_id = le_to_be_u16 i,
      frag_offset = 0, ttl = 0xff, protocol = ip_protocol_as_u8 p, check_sum = 0,
      ip_src = src, ip_dst = dst\<rparr>"
  let ?b = "to_u8_slice ip_header_layout h0"
  have len: "length ?b = 20" by (simp add: to_u8_slice_def ip_header_layout_def)
  have zero: "?b ! 10 = 0" "?b ! (10 + 1) = 0"
    by (simp_all add: to_u8_slice_def ip_header_layout_def u16_to_bytes_def h0_def)
  obtain c where c: "cksum16 ?b 20 0 = Ret c"
    using cksum16_reference [of 20 ?b 0] len word_sum_20 [OF len] by simp
  have ok: "cksum16 (put_be16 ?b 10 c) 20 0 = Ret 0"
    using cksum16_insert [of 10 ?b 0 c] len zero c word_sum_20 [OF len] by simp
  show ?thesis
  proof (rule that [of "h0\<lparr>check_sum := le_to_be_u16 c\<rparr>"])
    show "create_ip_header p src dst data i = Ret (h0\<lparr>check_sum := le_to_be_u16 c\<rparr>)"
      using c [folded IP_HEADER_MIN_SIZE_def]
      by (simp only: create_ip_header_def Let_def tot and_then.simps flip: h0_def)
    show "cksum16 (to_u8_slice ip_header_layout (h0\<lparr>check_sum := le_to_be_u16 c\<rparr>)) 20 0 = Ret 0"
      using ok by (simp only: ip_header_layout_check_sum)
  qed (simp_all add: h0_def ip_consts)
qed

lemma create_ip_header_checks:
  assumes "length data \<le> 65515" "create_ip_header p src dst data i = Ret h"
  shows "check_ip_header h (20 + length data) 20 = Ret (Ok ())"
proof (rule create_ip_header_Ret [OF assms(1), of p src dst i])
  fix h'
  assume h': "create_ip_header p src dst data i = Ret h'" "ver_len h' = 0x45"
    "be_to_le_u16 (total_len h') = of_nat (20 + length data)" "frag_offset h' = 0"
    "cksum16 (to_u8_slice ip_header_layout h') 20 0 = Ret 0"
  have "unat (of_nat (20 + length data) :: u16) = 20 + length data"
    using assms(1) by (simp del: of_nat_add)
  moreover have "be_to_le_u16 0 = 0" by (simp add: byte_order_defs byte_swap_u16_def)
  ultimately show ?thesis
    using h' assms(2) by (simp add: check_ip_header_def Let_def ip_consts)
qed

lemma create_ip_header_overflow:
  "65515 < length data \<Longrightarrow> length data < 65536 \<Longrightarrow> create_ip_header p src dst data i = Fault Overflow"
  by (simp add: create_ip_header_def checked_add_def unat_of_nat IP_HEADER_MIN_SIZE_def)

section \<open>The identification counter\<close>

lemma generate_id_Ret:
  "ctx_ip_id (contexts n) \<noteq> 0xffff \<Longrightarrow>
   generate_id n = Ret (ctx_ip_id (contexts n) + 1,
     n\<lparr>contexts := (contexts n)\<lparr>ctx_ip_id := ctx_ip_id (contexts n) + 1\<rparr>\<rparr>)"
proof -
  let ?i = "ctx_ip_id (contexts n)"
  assume "?i \<noteq> 0xffff"
  then have "unat ?i \<noteq> 65535" by (metis unat_u16_65535)
  then have "unat ?i + 1 < 65536" using unat_u16_lt [of ?i] by linarith
  then show ?thesis by (simp add: generate_id_def checked_add_def)
qed

lemma generate_id_exhausted:
  "ctx_ip_id (contexts n) = 0xffff \<Longrightarrow> generate_id n = Fault Overflow"
  by (simp add: generate_id_def checked_add_def)

section \<open>What output leaves alone\<close>

text \<open>
  Sending may write to the device, learn nothing, count identifications and read the
  clock; it never draws random numbers and never touches the channels or the routes.
\<close>

definition io_frame :: "net \<Rightarrow> net \<Rightarrow> bool" where
  "io_frame n n' \<longleftrightarrow> clock n' = clock n \<and> rng n' = rng n \<and> draws n' = draws n \<and> chans n' = chans n \<and>
     ctx_ip_routes (contexts n') = ctx_ip_routes (contexts n) \<and>
     device_type (device n') = device_type (device n) \<and> mtu (device n') = mtu (device n) \<and>
     interfaces (device n') = interfaces (device n) \<and> dev_flags (device n') = dev_flags (device n)"

lemma io_frame_refl [simp]: "io_frame n n"
  by (simp add: io_frame_def)

lemma io_frame_trans: "io_frame n n' \<Longrightarrow> io_frame n' n'' \<Longrightarrow> io_frame n n''"
  by (simp add: io_frame_def)

lemma tap_write_data_frame: "tap_write_data d data = Ret (r, d') \<Longrightarrow> \<exists>x. d' = d\<lparr>driver_data := x\<rparr>"
  by (auto simp: tap_write_data_def exec_simps)

lemma ethernet_transmit_frame:
  assumes "ethernet_transmit d ty data len dst = Ret (r, d')"
  shows "\<exists>x. d' = d\<lparr>driver_data := x\<rparr>"
proof (cases "driver_type d")
  case (Some t)
  show ?thesis
  proof (cases t)
    case Tap
    with assms Some obtain out where "tap_write_data d out = Ret (r, d')"
      by (auto simp: ethernet_transmit_def Let_def exec_simps split: if_splits)
    then show ?thesis by (rule tap_write_data_frame)
  next
    case Pcap
    with assms Some have "d' = d"
      by (auto simp: ethernet_transmit_def Let_def exec_simps split: if_splits)
    then show ?thesis by (intro exI [of _ "driver_data d"]) simp
  qed
qed (use assms in \<open>auto simp: ethernet_transmit_def Let_def exec_simps split: if_splits\<close>)

lemma net_transmit_frame:
  "net_transmit ty data len dst n = Ret (r, n') \<Longrightarrow> io_frame n n' \<and> contexts n' = contexts n"
  by (auto simp: net_transmit_def device_transmit_def loopback_transmit_def raise_signal_def
      io_frame_def exec_simps dest!: ethernet_transmit_frame
      split: if_splits net_device_type.splits)

lemma arp_request_frame_rule:
  "arp_request iface ip n = Ret (r, n') \<Longrightarrow> io_frame n n' \<and> contexts n' = contexts n"
  by (auto simp: arp_request_def Let_def exec_simps dest: net_transmit_frame)

lemma arp_table_get_frame:
  "arp_table_get t ip w = Ret (r, t', w') \<Longrightarrow> \<exists>k. w' = w\<lparr>readings := k\<rparr>"
  by (auto simp: arp_table_get_def system_time_elapsed_def system_time_now_def exec_simps Let_def
      split: option.splits if_splits intro: exI [of _ "readings w"])

lemma io_frame_readings:
  "w' = n\<lparr>readings := k\<rparr> \<Longrightarrow> io_frame n (w'\<lparr>contexts := (contexts w')\<lparr>ctx_arp_table := t\<rparr>\<rparr>)"
  by (simp add: io_frame_def)

lemma arp_resolve_frame:
  assumes "arp_resolve iface ip n = Ret (r, n')"
  shows "io_frame n n' \<and> ctx_ip_id (contexts n') = ctx_ip_id (contexts n)"
proof (cases "device_type (device n) = Ethernet")
  case True
  with assms obtain found t n1 where get: "arp_table_get (ctx_arp_table (contexts n)) ip n = Ret (found, t, n1)"
    by (auto simp: arp_resolve_def exec_simps)
  then obtain k where n1: "n1 = n\<lparr>readings := k\<rparr>" using arp_table_get_frame by blast
  let ?n2 = "n1\<lparr>contexts := (contexts n1)\<lparr>ctx_arp_table := t\<rparr>\<rparr>"
  have fr: "io_frame n ?n2" using n1 by (rule io_frame_readings)
  have i: "ctx_ip_id (contexts ?n2) = ctx_ip_id (contexts n)" using n1 by simp
  from assms True get consider "n' = ?n2"
    | r' where "arp_request iface ip ?n2 = Ret (r', n')"
    by (auto simp: arp_resolve_def exec_simps Let_def split: option.splits result.splits)
  then show ?thesis
    by cases (use fr i in \<open>auto dest: arp_request_frame_rule intro: io_frame_trans\<close>)
qed (use assms in \<open>auto simp: arp_resolve_def\<close>)

lemma generate_id_frame:
  "generate_id n = Ret (i, n') \<Longrightarrow> io_frame n n' \<and> device n' = device n"
  by (auto simp: generate_id_def exec_simps io_frame_def)

lemma ip_link_output_frame:
  assumes "ip_link_output iface dst hop pkt n = Ret (r, n')"
  shows "io_frame n n'"
proof -
  from assms consider hw where "net_transmit IP_Type pkt (length pkt) hw n = Ret (r, n')"
    | arp n2 where "arp_resolve iface hop n = Ret (arp, n2)"
        "n' = n2 \<or> (\<exists>hw. net_transmit IP_Type pkt (length pkt) hw n2 = Ret (r, n'))"
  proof (cases "0 < dev_flags (device n) AND DEVICE_FLAG_NEED_ARP \<and>
      \<not> (dst = broadcast iface \<or> dst = IP_ADDR_BROADCAST)")
    case True
    with assms obtain arp n2 where "arp_resolve iface hop n = Ret (arp, n2)"
      by (auto simp: ip_link_output_def Let_def exec_simps)
    with True assms that(2) show ?thesis
      by (cases arp) (auto simp: ip_link_output_def Let_def split: option.splits)
  next
    case False
    with assms that(1) show ?thesis
      by (auto simp: ip_link_output_def Let_def exec_simps split: if_splits)
  qed
  then show ?thesis
    by cases (auto dest!: net_transmit_frame arp_resolve_frame intro: io_frame_trans)
qed

lemma ip_output_frame:
  assumes "ip_output p data src dst n = Ret (r, n')"
  shows "io_frame n n'"
proof (cases "lookup_ip_route (ctx_ip_routes (contexts n)) dst")
  case (Some route)
  with assms show ?thesis
    by (auto simp: ip_output_def Let_def exec_simps intro: io_frame_trans
        dest!: generate_id_frame ip_link_output_frame split: if_splits)
qed (use assms in \<open>simp add: ip_output_def\<close>)

section \<open>Output, branch by branch\<close>

definition ip_packet ::
  "ip_protocol_type \<Rightarrow> ip_address \<Rightarrow> ip_address \<Rightarrow> u16 \<Rightarrow> bytes \<Rightarrow> bytes" where
  "ip_packet p src dst i data =
     (case create_ip_header p src dst data i of
        Ret h \<Rightarrow> to_u8_slice ip_header_layout h @ data
      | Fault _ \<Rightarrow> [])"

definition net_count :: "net \<Rightarrow> net" where
  "net_count n = n\<lparr>contexts := (contexts n)\<lparr>ctx_ip_id := ctx_ip_id (contexts n) + 1\<rparr>\<rparr>"

lemma net_count_simps [simp]:
  "device (net_count n) = device n" "clock (net_count n) = clock n" "readings (net_count n) = readings n"
  "ctx_arp_table (contexts (net_count n)) = ctx_arp_table (contexts n)"
  "ctx_ip_routes (contexts (net_count n)) = ctx_ip_routes (contexts n)"
  "ctx_ip_id (contexts (net_count n)) = ctx_ip_id (contexts n) + 1"
  "chans (net_count n) = chans n" "rng (net_count n) = rng n" "draws (net_count n) = draws n"
  by (simp_all add: net_count_def)

lemma length_ip_packet: "length data \<le> 65515 \<Longrightarrow> length (ip_packet p src dst i data) = 20 + length data"
  by (rule create_ip_header_Ret [of data p src dst i])
    (auto simp: ip_packet_def to_u8_slice_def ip_header_layout_def)

text \<open>A device that needs address resolution, as the Ethernet device does.\<close>

definition needs_arp :: "net \<Rightarrow> bool" where
  "needs_arp n \<longleftrightarrow> 0 < dev_flags (device n) AND DEVICE_FLAG_NEED_ARP"

definition next_hop_of :: "ip_route \<Rightarrow> ip_address \<Rightarrow> ip_address" where
  "next_hop_of route dst = (if rt_next_hop route \<noteq> IP_ADDR_ANY then rt_next_hop route else dst)"

definition src_allowed :: "ip_address \<Rightarrow> ip_route \<Rightarrow> bool" where
  "src_allowed src route \<longleftrightarrow> src = IP_ADDR_ANY \<or> src = unicast (rt_interface route)"

definition is_broadcast :: "ip_address \<Rightarrow> ip_route \<Rightarrow> bool" where
  "is_broadcast dst route \<longleftrightarrow> dst = broadcast (rt_interface route) \<or> dst = IP_ADDR_BROADCAST"

lemmas output_defs = needs_arp_def next_hop_of_def src_allowed_def is_broadcast_def

lemma ip_output_no_route:
  "lookup_ip_route (ctx_ip_routes (contexts n)) dst = None \<Longrightarrow> ip_output p data src dst n = Ret (Err, n)"
  by (simp add: ip_output_def)

lemma ip_output_bad_source:
  "lookup_ip_route (ctx_ip_routes (contexts n)) dst = Some route \<Longrightarrow> \<not> src_allowed src route \<Longrightarrow>
   ip_output p data src dst n = Ret (Err, n)"
  by (simp add: ip_output_def Let_def output_defs)

lemma ip_output_counter_exhausted:
  "lookup_ip_route (ctx_ip_routes (contexts n)) dst = Some route \<Longrightarrow> src_allowed src route \<Longrightarrow>
   ctx_ip_id (contexts n) = 0xffff \<Longrightarrow> ip_output p data src dst n = Fault Overflow"
  by (auto simp: ip_output_def Let_def output_defs generate_id_exhausted)

text \<open>The common part: route, source, counter and header are in order.\<close>

lemma ip_output_send:
  assumes "lookup_ip_route (ctx_ip_routes (contexts n)) dst = Some route" "src_allowed src route"
    and "ctx_ip_id (contexts n) \<noteq> 0xffff" "length data \<le> 65515" "needs_arp n"
  shows "ip_output p data src dst n =
    (let pkt = ip_packet p (unicast (rt_interface route)) dst (ctx_ip_id (contexts n) + 1) data in
     if is_broadcast dst route then
       and_then (slice_to (dev_broadcast (device n)) 7) (\<lambda>b.
       and_then (array6_from b) (\<lambda>hw. net_transmit IP_Type pkt (length pkt) hw (net_count n)))
     else
       and_then (arp_resolve (rt_interface route) (next_hop_of route dst) (net_count n)) (\<lambda>(arp, n2).
       case arp of
         Ok None \<Rightarrow> Ret (Ok (), n2)
       | Ok (Some hw) \<Rightarrow> net_transmit IP_Type pkt (length pkt) hw n2
       | Err \<Rightarrow> net_transmit IP_Type pkt (length pkt) (replicate ETH_ADDR_LEN 0) n2))"
proof -
  obtain h where "create_ip_header p (unicast (rt_interface route)) dst data (ctx_ip_id (contexts n) + 1) = Ret h"
    using create_ip_header_Ret [OF assms(4)] by blast
  moreover have "(src \<noteq> IP_ADDR_ANY \<and> src \<noteq> unicast (rt_interface route)) = False"
    "(0 < dev_flags (device n) AND DEVICE_FLAG_NEED_ARP) = True" "ETH_ADDR_LEN + 1 = 7"
    using assms(2,5) by (auto simp: output_defs ETH_ADDR_LEN_def)
  moreover have "generate_id n = Ret (ctx_ip_id (contexts n) + 1, net_count n)"
    using generate_id_Ret [OF assms(3)] by (simp add: net_count_def)
  ultimately show ?thesis
    by (simp only: ip_output_def ip_link_output_def assms(1) option.case Let_def if_False if_True
        and_then.simps prod.case
        net_count_simps is_broadcast_def next_hop_of_def ip_packet_def exec.case)
qed

lemma ip_output_broadcast:
  assumes "lookup_ip_route (ctx_ip_routes (contexts n)) dst = Some route" "src_allowed src route"
    and "ctx_ip_id (contexts n) \<noteq> 0xffff" "length data \<le> 65515" "needs_arp n"
    and "is_broadcast dst route" "tap_ready (device n)"
  shows "ip_output p data src dst n = Fault UnwrapFailed"
  using assms
  by (simp add: ip_output_send slice_to_def array6_from_def tap_ready_def device_consts Let_def)

lemma ip_output_cached:
  assumes "lookup_ip_route (ctx_ip_routes (contexts n)) dst = Some route" "src_allowed src route"
    and "ctx_ip_id (contexts n) \<noteq> 0xffff" "needs_arp n" "\<not> is_broadcast dst route"
    and "tap_ready (device n)" "length data \<le> 1480"
    and "ctx_arp_table (contexts n) (next_hop_of route dst) = Some e"
    and "timestamp e \<le> clock n (readings n)" "arp_fresh (timestamp e) (clock n (readings n))"
    and "length (hw_address e) = 6"
  shows "ip_output p data src dst n =
    Ret (Ok (), net_send (eth_frame (hw_address e) (dev_mac (device n)) IP_Type
      (ip_packet p (unicast (rt_interface route)) dst (ctx_ip_id (contexts n) + 1) data))
      ((net_count n)\<lparr>readings := Suc (readings n)\<rparr>))"
proof -
  let ?n = "(net_count n)\<lparr>readings := Suc (readings n)\<rparr>"
  have "arp_resolve (rt_interface route) (next_hop_of route dst) (net_count n) =
      Ret (Ok (Some (hw_address e)), ?n)"
    using arp_resolve_hit [of "net_count n" "next_hop_of route dst" e] assms(6,8-10)
    by (simp add: tap_ready_def)
  then show ?thesis
    using assms net_transmit_Ret [of ?n "hw_address e"]
    by (simp add: ip_output_send Let_def length_ip_packet)
qed

lemma ip_output_unresolved:
  assumes "lookup_ip_route (ctx_ip_routes (contexts n)) dst = Some route" "src_allowed src route"
    and "ctx_ip_id (contexts n) \<noteq> 0xffff" "needs_arp n" "\<not> is_broadcast dst route"
    and "tap_ready (device n)" "length data \<le> 65515"
    and "ctx_arp_table (contexts n) (next_hop_of route dst) = None"
  shows "ip_output p data src dst n =
    Ret (Ok (), net_send (arp_request_frame (device n) (unicast (rt_interface route)) (next_hop_of route dst))
      (net_count n))"
  using assms arp_resolve_miss [of "net_count n" "next_hop_of route dst" "rt_interface route"]
  by (simp add: ip_output_send Let_def)

lemma ip_output_too_long:
  assumes "lookup_ip_route (ctx_ip_routes (contexts n)) dst = Some route" "src_allowed src route"
    and "ctx_ip_id (contexts n) \<noteq> 0xffff" "needs_arp n" "\<not> is_broadcast dst route"
    and "tap_ready (device n)" "1480 < length data" "length data \<le> 65515"
    and "ctx_arp_table (contexts n) (next_hop_of route dst) = Some e"
    and "timestamp e \<le> clock n (readings n)" "arp_fresh (timestamp e) (clock n (readings n))"
    and "length (hw_address e) = 6"
  shows "ip_output p data src dst n = Fault OutOfRange"
proof -
  let ?n = "(net_count n)\<lparr>readings := Suc (readings n)\<rparr>"
  have "arp_resolve (rt_interface route) (next_hop_of route dst) (net_count n) =
      Ret (Ok (Some (hw_address e)), ?n)"
    using arp_resolve_hit [of "net_count n" "next_hop_of route dst" e] assms(6,9-11)
    by (simp add: tap_ready_def)
  then show ?thesis
    using assms net_transmit_too_long [of ?n "hw_address e"]
    by (simp add: ip_output_send Let_def length_ip_packet)
qed

section \<open>Every outcome of output\<close>

lemma arp_resolve_unresolved:
  assumes "tap_ready (device n)" "arp_lookup (ctx_arp_table (contexts n)) ip (clock n (readings n)) = None"
    and "\<And>e. ctx_arp_table (contexts n) ip = Some e \<Longrightarrow> timestamp e \<le> clock n (readings n)"
  shows "\<exists>n'. arp_resolve iface ip n = Ret (Ok None, n') \<and>
    device n' = tap_write (arp_request_frame (device n) (unicast iface) ip) (device n) \<and>
    contexts n' = (contexts n)\<lparr>ctx_arp_table := (ctx_arp_table (contexts n))(ip := None)\<rparr>"
proof -
  let ?t = "ctx_arp_table (contexts n)"
  obtain w' where g: "arp_table_get ?t ip n = Ret (None, ?t(ip := None), w')" "w' = n\<lparr>readings := readings w'\<rparr>"
    using arp_table_get_refines [of ?t ip n] assms(2,3) by auto
  have d: "device w' = device n" "contexts w' = contexts n" by (subst g(2), simp)+
  then show ?thesis
    using g(1) assms(1) arp_request_Ret [of "w'\<lparr>contexts := (contexts w')\<lparr>ctx_arp_table := ?t(ip := None)\<rparr>\<rparr>" iface ip]
    by (simp add: arp_resolve_def tap_ready_def)
qed

lemma ip_output_outcome:
  assumes "tap_ready (device n)" "needs_arp n" "length data \<le> 65515"
    and "\<And>route e. lookup_ip_route (ctx_ip_routes (contexts n)) dst = Some route \<Longrightarrow>
      ctx_arp_table (contexts n) (next_hop_of route dst) = Some e \<Longrightarrow>
      timestamp e \<le> clock n (readings n) \<and> length (hw_address e) = 6"
  shows "case lookup_ip_route (ctx_ip_routes (contexts n)) dst of
      None \<Rightarrow> ip_output p data src dst n = Ret (Err, n)
    | Some route \<Rightarrow>
        if \<not> src_allowed src route then ip_output p data src dst n = Ret (Err, n)
        else if ctx_ip_id (contexts n) = 0xffff then ip_output p data src dst n = Fault Overflow
        else if is_broadcast dst route then ip_output p data src dst n = Fault UnwrapFailed
        else (case arp_lookup (ctx_arp_table (contexts n)) (next_hop_of route dst) (clock n (readings n)) of
            None \<Rightarrow> \<exists>n'. ip_output p data src dst n = Ret (Ok (), n') \<and>
              tap_sent (device n') = tap_sent (device n) @
                [arp_request_frame (device n) (unicast (rt_interface route)) (next_hop_of route dst)] \<and>
              ctx_arp_table (contexts n') = (ctx_arp_table (contexts n))(next_hop_of route dst := None)
          | Some hw \<Rightarrow>
              if 1480 < length data then ip_output p data src dst n = Fault OutOfRange
              else \<exists>n'. ip_output p data src dst n = Ret (Ok (), n') \<and>
                tap_sent (device n') = tap_sent (device n) @ [eth_frame hw (dev_mac (device n)) IP_Type
                  (ip_packet p (unicast (rt_interface route)) dst (ctx_ip_id (contexts n) + 1) data)] \<and>
                contexts n' = (contexts n)\<lparr>ctx_ip_id := ctx_ip_id (contexts n) + 1\<rparr>)"
proof (cases "lookup_ip_route (ctx_ip_routes (contexts n)) dst")
  case None
  then show ?thesis by (simp add: ip_output_no_route)
next
  case route: (Some route)
  let ?hop = "next_hop_of route dst" and ?t = "ctx_arp_table (contexts n)" and ?now = "clock n (readings n)"
  note entry = assms(4) [OF route]
  show ?thesis
  proof (cases "src_allowed src route \<and> ctx_ip_id (contexts n) \<noteq> 0xffff \<and> \<not> is_broadcast dst route")
    case False
    with route show ?thesis
      using ip_output_bad_source ip_output_counter_exhausted ip_output_broadcast [OF route _ _ assms(3,2) _ assms(1)] by auto
  next
    case True
    show ?thesis
    proof (cases "arp_lookup ?t ?hop ?now")
      case None
      obtain n' where "arp_resolve (rt_interface route) ?hop (net_count n) = Ret (Ok None, n')"
        "device n' = tap_write (arp_request_frame (device n) (unicast (rt_interface route)) ?hop) (device n)"
        "contexts n' = (contexts (net_count n))\<lparr>ctx_arp_table := ?t(?hop := None)\<rparr>"
        using arp_resolve_unresolved [of "net_count n" ?hop "rt_interface route"] assms(1) None entry by auto
      with True None route assms show ?thesis by (simp add: ip_output_send Let_def)
    next
      case (Some hw)
      then obtain e where e: "?t ?hop = Some e" "hw_address e = hw" "arp_fresh (timestamp e) ?now"
        by (auto simp: arp_lookup_def arp_fresh_def split: option.splits if_splits)
      have e6: "timestamp e \<le> ?now" "length (hw_address e) = 6" using entry [OF e(1)] by simp_all
      have t: "src_allowed src route" "ctx_ip_id (contexts n) \<noteq> 0xffff" "\<not> is_broadcast dst route" using True by simp_all
      note long = ip_output_too_long [OF route t(1,2) assms(2) t(3) assms(1) _ assms(3) e(1) e6(1) e(3) e6(2), of p]
      note short = ip_output_cached [OF route t(1,2) assms(2) t(3) assms(1) _ e(1) e6(1) e(3) e6(2), of data p]
      show ?thesis
      proof (cases "1480 < length data")
        case True
        with long show ?thesis by (simp add: route t Some)
      next
        case False
        then have "length data \<le> 1480" by simp
        from short [OF this] False show ?thesis by (simp add: route t Some e(2) assms(1))
      qed
    qed
  qed
qed

end
