(* ===== verification/Icmp.thy ===== *)
theory Icmp
  imports Ip_Output
begin

text \<open>
  \<^verbatim>\<open>src/src/protocols/ip/icmp.rs\<close>: the input handler answers echo requests, the output
  function builds a message with its checksum. (The parameter \<open>pcbs\<close> of both is never
  used and is left out.)

  Shown here: an echo request with a valid checksum is answered by exactly one IP output
  to its sender, whose payload is the request with the type set to echo reply and a
  checksum that verifies; other types are accepted silently; a bad checksum is an error.
\<close>

definition ICMP_TYPE_ECHOREPLY :: u8 where "ICMP_TYPE_ECHOREPLY = 0"
definition ICMP_TYPE_ECHO :: u8 where "ICMP_TYPE_ECHO = 8"
definition ICMP_HDR_SIZE :: nat where "ICMP_HDR_SIZE = 8"

record icmp_header =
  icmp_type :: u8
  icmp_code :: u8
  icmp_check_sum :: u16
  icmp_values :: u32

definition icmp_header_wf :: "icmp_header \<Rightarrow> bool" where
  "icmp_header_wf h = True"

definition icmp_header_layout :: "icmp_header \<Rightarrow> bytes" where
  "icmp_header_layout h =
     [icmp_type h, icmp_code h] @ u16_to_bytes (icmp_check_sum h) @ u32_to_bytes (icmp_values h)"

definition icmp_header_read :: "bytes \<Rightarrow> icmp_header" where
  "icmp_header_read b =
     \<lparr>icmp_type = b ! 0, icmp_code = b ! 1, icmp_check_sum = u16_of_bytes (b ! 2) (b ! 3),
      icmp_values = u32_of_bytes (b ! 4) (b ! 5) (b ! 6) (b ! 7)\<rparr>"

definition icmp_output ::
  "u8 \<Rightarrow> u8 \<Rightarrow> u32 \<Rightarrow> bytes \<Rightarrow> nat \<Rightarrow> ip_address \<Rightarrow> ip_address \<Rightarrow> net \<Rightarrow> net exec" where
  "icmp_output ty code values icmp_data len src dst n =
     (let hdr = \<lparr>icmp_type = ty, icmp_code = code, icmp_check_sum = 0, icmp_values = values\<rparr>;
          data = to_u8_slice icmp_header_layout hdr @ icmp_data
      in and_then (cksum16 data (ICMP_HDR_SIZE + len) 0) (\<lambda>c.
         and_then (ip_output Icmp (put_be16 data 2 c) src dst n) (\<lambda>(r, n').
         and_then (unwrap_result r) (\<lambda>_. Ret n'))))"

definition icmp_input ::
  "bytes \<Rightarrow> nat \<Rightarrow> ip_address \<Rightarrow> ip_address \<Rightarrow> ip_interface \<Rightarrow> net \<Rightarrow> (unit result \<times> net) exec" where
  "icmp_input data len src dst iface n =
     and_then (bytes_to_struct ICMP_HDR_SIZE icmp_header_read data) (\<lambda>hdr.
     and_then (cksum16 data len 0) (\<lambda>c.
     if c \<noteq> 0 then Ret (Err, n)
     else if icmp_type hdr = ICMP_TYPE_ECHO then
       and_then (slice_from data ICMP_HDR_SIZE) (\<lambda>icmp_data.
       and_then (usize_sub len ICMP_HDR_SIZE) (\<lambda>data_len.
       and_then
         (icmp_output ICMP_TYPE_ECHOREPLY (icmp_code hdr) (icmp_values hdr) icmp_data data_len
            (if dst \<noteq> unicast iface then unicast iface else dst) src n) (\<lambda>n'.
       Ret (Ok (), n'))))
     else Ret (Ok (), n)))"

section \<open>Lemmas\<close>

interpretation icmp_hdr: packed_struct ICMP_HDR_SIZE icmp_header_wf icmp_header_layout icmp_header_read
proof unfold_locales
  fix h rest
  show "length (icmp_header_layout h) = ICMP_HDR_SIZE"
    by (simp add: icmp_header_layout_def ICMP_HDR_SIZE_def)
  show "icmp_header_read (icmp_header_layout h @ rest) = h"
    by (simp add: icmp_header_layout_def icmp_header_read_def u16_to_bytes_def u32_to_bytes_def byte_simps)
next
  fix b :: bytes
  assume "ICMP_HDR_SIZE \<le> length b"
  then have b: "8 \<le> length b" by (simp add: ICMP_HDR_SIZE_def)
  have "take 8 b = take 2 b @ take 2 (drop 2 b) @ take 4 (drop 4 b)"
    using b by (simp add: take_field [of 2 8] take_field [of 2 6])
  then show "icmp_header_layout (icmp_header_read b) = take ICMP_HDR_SIZE b"
    using b take_2_drop [of 0 b]
    by (simp add: icmp_header_layout_def icmp_header_read_def byte_simps ICMP_HDR_SIZE_def
        take_2_drop take_4_drop)
qed (simp_all add: icmp_header_wf_def)

text \<open>The reply to a request: type, code, checksum, then the rest of the request.\<close>

definition echo_reply :: "bytes \<Rightarrow> u16 \<Rightarrow> bytes" where
  "echo_reply req c = put_be16 ([ICMP_TYPE_ECHOREPLY, req ! 1, 0, 0] @ drop 4 req) 2 c"

lemma length_echo_reply: "4 \<le> length req \<Longrightarrow> length (echo_reply req c) = length req"
  by (simp add: echo_reply_def)

lemma icmp_input_echo:
  assumes "8 \<le> length req" "length req \<le> 65535" "req ! 0 = ICMP_TYPE_ECHO"
    and "cksum16 req (length req) 0 = Ret 0"
  obtains c where
    "cksum16 (echo_reply req c) (length req) 0 = Ret 0"
    "icmp_input req (length req) src (unicast iface) iface n =
       and_then (ip_output Icmp (echo_reply req c) (unicast iface) src n) (\<lambda>(r, n').
       and_then (unwrap_result r) (\<lambda>_. Ret (Ok (), n')))"
proof -
  let ?h = "icmp_header_read req"
  let ?data = "[ICMP_TYPE_ECHOREPLY, req ! 1, 0, 0] @ drop 4 req"
  have hdr: "bytes_to_struct ICMP_HDR_SIZE icmp_header_read req = Ret ?h"
    using assms(1) by (simp add: bytes_to_struct_def ICMP_HDR_SIZE_def)
  have len: "length ?data = length req" using assms(1) by simp
  have "u32_to_bytes (icmp_values ?h) @ drop 8 req = drop 4 req"
    using assms(1) take_4_drop [of 4 req] append_take_drop_id [of 4 "drop 4 req"]
    by (simp add: icmp_header_read_def byte_simps)
  then have data: "to_u8_slice icmp_header_layout \<lparr>icmp_type = ICMP_TYPE_ECHOREPLY,
      icmp_code = icmp_code ?h, icmp_check_sum = 0, icmp_values = icmp_values ?h\<rparr> @ drop 8 req = ?data"
    by (simp add: to_u8_slice_def icmp_header_layout_def icmp_header_read_def u16_to_bytes_def)
  have bound: "word_sum ?data + 65535 < 4294967296"
    using word_sum_bound [of ?data] assms(2) len by simp
  then obtain c where c: "cksum16 ?data (length ?data) 0 = Ret c"
    using cksum16_reference [of "length ?data" ?data 0] by simp
  show ?thesis
  proof (rule that [of c])
    show "cksum16 (echo_reply req c) (length req) 0 = Ret 0"
      using cksum16_insert [of 2 ?data 0 c] bound c len assms(1) by (simp add: echo_reply_def)
    have len8: "ICMP_HDR_SIZE + (length req - ICMP_HDR_SIZE) = length ?data"
      using assms(1) by (simp add: ICMP_HDR_SIZE_def)
    have "icmp_output ICMP_TYPE_ECHOREPLY (icmp_code ?h) (icmp_values ?h) (drop 8 req)
        (length req - ICMP_HDR_SIZE) (unicast iface) src n =
        and_then (ip_output Icmp (echo_reply req c) (unicast iface) src n)
          (\<lambda>(r, n'). and_then (unwrap_result r) (\<lambda>_. Ret n'))"
      unfolding icmp_output_def Let_def data len8 c echo_reply_def by simp
    moreover have "icmp_type ?h = ICMP_TYPE_ECHO"
      using assms(3) by (simp add: icmp_header_read_def)
    ultimately show "icmp_input req (length req) src (unicast iface) iface n =
       and_then (ip_output Icmp (echo_reply req c) (unicast iface) src n) (\<lambda>(r, n').
       and_then (unwrap_result r) (\<lambda>_. Ret (Ok (), n')))"
      using assms(1,4) hdr
      by (simp add: icmp_input_def slice_from_def usize_sub_def ICMP_HDR_SIZE_def and_then_assoc
          case_prod_beta')
  qed
qed

lemma icmp_input_bad_checksum:
  "8 \<le> length data \<Longrightarrow> cksum16 data len 0 = Ret c \<Longrightarrow> c \<noteq> 0 \<Longrightarrow>
   icmp_input data len src dst iface n = Ret (Err, n)"
  by (simp add: icmp_input_def bytes_to_struct_def ICMP_HDR_SIZE_def)

lemma icmp_input_other:
  "8 \<le> length data \<Longrightarrow> cksum16 data len 0 = Ret 0 \<Longrightarrow> data ! 0 \<noteq> ICMP_TYPE_ECHO \<Longrightarrow>
   icmp_input data len src dst iface n = Ret (Ok (), n)"
  by (simp add: icmp_input_def bytes_to_struct_def ICMP_HDR_SIZE_def icmp_header_read_def)

lemma echo_reply_fields: "take 2 (echo_reply req c) = [ICMP_TYPE_ECHOREPLY, req ! 1]" "drop 4 (echo_reply req c) = drop 4 req"
  by (simp_all add: echo_reply_def put_be16_conv u16_to_bytes_def)

end
