(* ===== verification/Transport.thy ===== *)
theory Transport
  imports Ip_Output
begin

text \<open>
  What UDP and TCP share: the pseudo header of their checksums (declared in both
  \<^verbatim>\<open>udp.rs\<close> and \<^verbatim>\<open>tcp.rs\<close>), the search for a free local port, and the result of an
  operation that may have to sleep.

  \<open>PseudoHeader\<close> has Rust's default representation, so the compiler may move its fields.
  The layout here is the declared order; \<open>pseudo_layouts_agree\<close> shows that the checksum is the same
  when \<open>len\<close> is placed before the two bytes, the order in which the compiler sorts the
  fields by alignment.
\<close>

record pseudo_header =
  ps_src :: ip_address
  ps_dst :: ip_address
  ps_zero :: u8
  ps_protocol :: u8
  ps_len :: u16

definition pseudo_header_layout :: "pseudo_header \<Rightarrow> bytes" where
  "pseudo_header_layout h =
     u32_to_bytes (ps_src h) @ u32_to_bytes (ps_dst h) @ [ps_zero h, ps_protocol h] @
     u16_to_bytes (ps_len h)"

definition pseudo_header_layout_sorted :: "pseudo_header \<Rightarrow> bytes" where
  "pseudo_header_layout_sorted h =
     u32_to_bytes (ps_src h) @ u32_to_bytes (ps_dst h) @ u16_to_bytes (ps_len h) @
     [ps_zero h, ps_protocol h]"

text \<open>The value both modules use as the initial sum: the complement of the pseudo header's checksum.\<close>

definition pseudo_sum ::
  "ip_address \<Rightarrow> ip_address \<Rightarrow> ip_protocol_type \<Rightarrow> u16 \<Rightarrow> u32 exec" where
  "pseudo_sum src dst proto len =
     (let b = to_u8_slice pseudo_header_layout
                \<lparr>ps_src = src, ps_dst = dst, ps_zero = 0, ps_protocol = ip_protocol_as_u8 proto,
                 ps_len = len\<rparr>
      in and_then (cksum16 b (length b) 0) (\<lambda>c. Ret (ucast (NOT c))))"

datatype 'a blocking = Returned 'a | Sleeping

text \<open>\<open>for p in MIN..MAX\<close>: the first port that is not used, if there is one.\<close>

function first_free_port :: "(u16 \<Rightarrow> bool) \<Rightarrow> nat \<Rightarrow> nat \<Rightarrow> u16 option" where
  "first_free_port used p max_port =
     (if p < max_port then
        (if used (of_nat p) then first_free_port used (p + 1) max_port else Some (of_nat p))
      else None)"
  by pat_completeness auto
termination
  by (relation "measure (\<lambda>(used, p, m). m - p)") auto

declare first_free_port.simps [simp del]

section \<open>Lemmas\<close>

lemma length_pseudo_header [simp]: "length (to_u8_slice pseudo_header_layout h) = 12"
  by (simp add: to_u8_slice_def pseudo_header_layout_def)

lemma word_sum_layouts:
  "word_sum (pseudo_header_layout_sorted h) = word_sum (pseudo_header_layout h)"
  by (simp add: pseudo_header_layout_def pseudo_header_layout_sorted_def u16_to_bytes_def u32_to_bytes_def)

lemma pseudo_layouts_agree:
  "cksum16 (pseudo_header_layout_sorted h) 12 0 = cksum16 (pseudo_header_layout h) 12 0"
proof -
  have len: "length (pseudo_header_layout h) = 12" "length (pseudo_header_layout_sorted h) = 12"
    by (simp_all add: pseudo_header_layout_def pseudo_header_layout_sorted_def)
  moreover have "word_sum (pseudo_header_layout h) < 4294967296"
    using word_sum_bound [of "pseudo_header_layout h"] len by simp
  ultimately show ?thesis
    using cksum16_reference [of 12 "pseudo_header_layout h" 0]
      cksum16_reference [of 12 "pseudo_header_layout_sorted h" 0] word_sum_layouts [of h] by simp
qed

lemma pseudo_sum_Ret: obtains s where "pseudo_sum src dst proto len = Ret s" "unat s \<le> 65535"
proof -
  let ?b = "to_u8_slice pseudo_header_layout
    \<lparr>ps_src = src, ps_dst = dst, ps_zero = 0, ps_protocol = ip_protocol_as_u8 proto, ps_len = len\<rparr>"
  have "word_sum ?b < 4294967296" using word_sum_bound [of ?b] by simp
  then obtain c where "cksum16 ?b (length ?b) 0 = Ret c"
    using cksum16_reference [of 12 ?b 0] by simp
  then have "pseudo_sum src dst proto len = Ret (ucast (NOT c))" by (simp add: pseudo_sum_def Let_def)
  moreover have "unat (ucast (NOT c) :: u32) \<le> 65535"
    using unat_u16_lt [of "NOT c"] unat_ucast_up(3) [of "NOT c"] by linarith
  ultimately show ?thesis by (rule that)
qed

lemma first_free_port_Some:
  "first_free_port used p m = Some q \<Longrightarrow>
   \<exists>k. p \<le> k \<and> k < m \<and> q = of_nat k \<and> \<not> used q \<and> (\<forall>j. p \<le> j \<and> j < k \<longrightarrow> used (of_nat j))"
proof (induction used p m rule: first_free_port.induct)
  case (1 used p m)
  show ?case
  proof (cases "p < m \<and> used (of_nat p)")
    case True
    with "1.prems" have "first_free_port used (p + 1) m = Some q"
      by (subst (asm) first_free_port.simps) simp
    with "1.IH" True obtain k where "p + 1 \<le> k" "k < m" "q = of_nat k" "\<not> used q"
      "\<forall>j. p + 1 \<le> j \<and> j < k \<longrightarrow> used (of_nat j)" by blast
    with True show ?thesis by (intro exI [of _ k]) (metis Suc_eq_plus1 Suc_leI add_leD1 le_neq_implies_less)
  next
    case False
    with "1.prems" show ?thesis
      by (subst (asm) first_free_port.simps) (auto split: if_splits)
  qed
qed

lemma first_free_port_None:
  "first_free_port used p m = None \<longleftrightarrow> (\<forall>j. p \<le> j \<and> j < m \<longrightarrow> used (of_nat j))"
proof (induction used p m rule: first_free_port.induct)
  case (1 used p m)
  show ?case
  proof (cases "p < m \<and> used (of_nat p)")
    case True
    then have "first_free_port used p m = first_free_port used (p + 1) m"
      by (subst first_free_port.simps) simp
    with "1.IH" True show ?thesis
      by (metis Suc_eq_plus1 Suc_leI add_leD1 le_neq_implies_less)
  next
    case False
    then show ?thesis by (subst first_free_port.simps) auto
  qed
qed

section \<open>Tables of control blocks\<close>

text \<open>
  Both modules keep a table of sixteen control blocks and hand out the first free one.
  What a client of such a table relies on, whichever block it is given:
\<close>

fun first_index :: "('a \<Rightarrow> bool) \<Rightarrow> 'a list \<Rightarrow> nat option" where
  "first_index P [] = None"
| "first_index P (x # xs) = (if P x then Some 0 else map_option Suc (first_index P xs))"

lemma first_index_Some:
  "first_index P xs = Some i \<Longrightarrow> i < length xs \<and> P (xs ! i) \<and> (\<forall>j < i. \<not> P (xs ! j))"
proof (induction xs arbitrary: i)
  case (Cons x xs)
  then show ?case by (auto simp: less_Suc_eq_0_disj split: if_splits)
qed simp

lemma first_index_None: "first_index P xs = None \<longleftrightarrow> (\<forall>x \<in> set xs. \<not> P x)"
  by (induction xs) auto

lemma first_index_eqI:
  assumes "i < length xs" "P (xs ! i)" "\<And>j. j < length xs \<Longrightarrow> P (xs ! j) \<Longrightarrow> j = i"
  shows "first_index P xs = Some i"
proof (cases "first_index P xs")
  case None
  with assms(1,2) show ?thesis by (auto simp: first_index_None)
next
  case (Some k)
  with assms(3) [of k] show ?thesis by (auto dest: first_index_Some)
qed

locale block_table =
  fixes is_free :: "'p \<Rightarrow> bool" and claim :: "'p \<Rightarrow> 'p"
    and alloc :: "'p list \<Rightarrow> (nat \<times> 'p list) option"
  assumes alloc_Some: "alloc t = Some (i, t') \<Longrightarrow>
      i < length t \<and> is_free (t ! i) \<and> t' = t[i := claim (t ! i)]"
    and alloc_None: "alloc t = None \<Longrightarrow> p \<in> set t \<Longrightarrow> \<not> is_free p"
    and claim_busy: "\<not> is_free (claim p)"
begin

lemma alloc_twice: "alloc t = Some (i, t') \<Longrightarrow> alloc t' = Some (j, t'') \<Longrightarrow> i \<noteq> j"
  by (auto simp: claim_busy dest!: alloc_Some)

lemma alloc_others: "alloc t = Some (i, t') \<Longrightarrow> j \<noteq> i \<Longrightarrow> t' ! j = t ! j"
  by (auto dest!: alloc_Some)

lemma alloc_length: "alloc t = Some (i, t') \<Longrightarrow> length t' = length t"
  by (auto dest!: alloc_Some)

lemma alloc_count:
  assumes "alloc t = Some (i, t')"
  shows "Suc (length (filter is_free t')) = length (filter is_free t)"
proof -
  from assms have i: "i < length t" "is_free (t ! i)" "t' = t[i := claim (t ! i)]"
    by (auto dest!: alloc_Some)
  have t: "t = take i t @ t ! i # drop (Suc i) t" using i(1) by (rule id_take_nth_drop)
  have t': "t' = take i t @ claim (t ! i) # drop (Suc i) t"
    using i(1,3) by (simp add: upd_conv_take_nth_drop)
  have "length (filter is_free t) = length (filter is_free (take i t)) + Suc (length (filter is_free (drop (Suc i) t)))"
    by (subst t) (use i(2) in simp)
  moreover have "length (filter is_free t') = length (filter is_free (take i t)) + length (filter is_free (drop (Suc i) t))"
    by (subst t') (simp add: claim_busy)
  ultimately show ?thesis by simp
qed

lemma alloc_exhausted: "alloc t = None \<longleftrightarrow> filter is_free t = []"
proof
  assume "filter is_free t = []"
  then have "\<not> is_free (t ! i)" if "i < length t" for i
    using that by (metis filter_empty_conv nth_mem)
  then show "alloc t = None" using alloc_Some by (metis not_Some_eq surj_pair)
qed (auto simp: filter_empty_conv dest: alloc_None)

end

text \<open>
  The checksum of a segment: header with a zero checksum field at an even offset,
  followed by data. Inserting it makes the receiver's sum zero.
\<close>

lemma segment_checksum:
  assumes "even k" "k + 1 < length data" "data ! k = 0" "data ! (k + 1) = 0" "length data \<le> 65535"
    and "unat s \<le> 65535"
  obtains c where "cksum16 data (length data) s = Ret c"
    "cksum16 (put_be16 data k c) (length data) s = Ret 0"
proof -
  have bound: "unat s + word_sum data + 65535 < 4294967296"
    using word_sum_bound [of data] assms(5,6) by linarith
  then obtain c where "cksum16 data (length data) s = Ret c"
    using cksum16_reference [of "length data" data s] by simp
  moreover from this have "cksum16 (put_be16 data k c) (length data) s = Ret 0"
    using cksum16_insert [OF assms(1-4) bound] by simp
  ultimately show ?thesis by (rule that)
qed

end
