(* ===== verification/Udp.thy ===== *)
theory Udp
  imports Transport
begin

text \<open>
  \<^verbatim>\<open>src/src/protocols/ip/udp.rs\<close>: the table of 16 control blocks, input, output, and the
  socket operations. A control block found by a search is its index in the table; a
  \<open>Sender\<close> is the index of its channel in the runtime. \<open>receive_from\<close> installs a fresh
  channel (\<open>udp_receive_begin\<close>) and then waits for one message (\<open>udp_receive_resume\<close>).

  The invariant \<open>udp_wf\<close>: sixteen blocks, free blocks are unbound, and no two open
  blocks claim the same port on overlapping addresses.
\<close>

definition UDP_PCB_COUNT :: nat where "UDP_PCB_COUNT = 16"
definition UDP_SRC_PORT_MIN :: nat where "UDP_SRC_PORT_MIN = 49152"
definition UDP_SRC_PORT_MAX :: nat where "UDP_SRC_PORT_MAX = 65535"
definition UDP_HDR_SIZE :: nat where "UDP_HDR_SIZE = 8"

record udp_header =
  udp_src_port :: u16
  udp_dst_port :: u16
  udp_len :: u16
  udp_checksum :: u16

definition udp_header_wf :: "udp_header \<Rightarrow> bool" where
  "udp_header_wf h = True"

definition udp_header_layout :: "udp_header \<Rightarrow> bytes" where
  "udp_header_layout h =
     u16_to_bytes (udp_src_port h) @ u16_to_bytes (udp_dst_port h) @ u16_to_bytes (udp_len h) @
     u16_to_bytes (udp_checksum h)"

definition udp_header_read :: "bytes \<Rightarrow> udp_header" where
  "udp_header_read b =
     \<lparr>udp_src_port = u16_of_bytes (b ! 0) (b ! 1), udp_dst_port = u16_of_bytes (b ! 2) (b ! 3),
      udp_len = u16_of_bytes (b ! 4) (b ! 5), udp_checksum = u16_of_bytes (b ! 6) (b ! 7)\<rparr>"

datatype udp_pcb_state = UdpFree | UdpOpen | UdpClosing

record udp_data_entry =
  ude_remote :: ip_endpoint
  ude_len :: nat
  ude_data :: bytes

record udp_pcb =
  udp_state :: udp_pcb_state
  udp_local :: ip_endpoint
  udp_sender :: "nat option"
  data_entries :: "udp_data_entry list"

type_synonym udp_pcbs = "udp_pcb list"

definition endpoint_any :: ip_endpoint where
  "endpoint_any = \<lparr>ep_address = IP_ADDR_ANY, ep_port = 0\<rparr>"

definition udp_pcb_new :: udp_pcb where
  "udp_pcb_new =
     \<lparr>udp_state = UdpFree, udp_local = endpoint_any, udp_sender = None, data_entries = []\<rparr>"

definition udp_pcbs_new :: udp_pcbs where
  "udp_pcbs_new = replicate UDP_PCB_COUNT udp_pcb_new"

text \<open>\<open>send(..).unwrap()\<close> on the sender of a block, if it has one.\<close>

definition udp_notify :: "nat option \<Rightarrow> bool \<Rightarrow> 'z world_scheme \<Rightarrow> 'z world_scheme exec" where
  "udp_notify c_opt msg w =
     (case c_opt of
        None \<Rightarrow> Ret w
      | Some c \<Rightarrow> let (r, w') = chan_send c msg w in and_then (unwrap_result r) (\<lambda>_. Ret w'))"

definition udp_delete_entry ::
  "udp_pcbs \<Rightarrow> nat \<Rightarrow> 'z world_scheme \<Rightarrow> (udp_pcbs \<times> 'z world_scheme) exec" where
  "udp_delete_entry pcbs pcb_id w =
     and_then (slice_get pcbs pcb_id) (\<lambda>entry.
     and_then (udp_notify (udp_sender entry) False w) (\<lambda>w'.
     Ret (pcbs[pcb_id := entry\<lparr>udp_state := UdpFree, udp_local := endpoint_any, data_entries := []\<rparr>], w')))"

definition udp_get_by_id :: "udp_pcbs \<Rightarrow> nat \<Rightarrow> udp_pcb option" where
  "udp_get_by_id pcbs pcb_id = (if pcb_id < length pcbs then Some (pcbs ! pcb_id) else None)"

definition udp_host_match :: "ip_address \<Rightarrow> u16 \<Rightarrow> udp_pcb \<Rightarrow> bool" where
  "udp_host_match host_addr host_port pcb \<longleftrightarrow>
     udp_state pcb = UdpOpen \<and>
     (ep_address (udp_local pcb) = IP_ADDR_ANY \<or> host_addr = IP_ADDR_ANY \<or>
      ep_address (udp_local pcb) = host_addr) \<and>
     ep_port (udp_local pcb) = host_port"

definition udp_get_by_host :: "udp_pcbs \<Rightarrow> ip_address \<Rightarrow> u16 \<Rightarrow> nat option" where
  "udp_get_by_host pcbs host_addr host_port = first_index (udp_host_match host_addr host_port) pcbs"

definition is_endpoint_used :: "udp_pcbs \<Rightarrow> ip_address \<Rightarrow> u16 \<Rightarrow> bool" where
  "is_endpoint_used pcbs host_addr host_port = list_ex (udp_host_match host_addr host_port) pcbs"

fun udp_close_sockets :: "udp_pcbs \<Rightarrow> 'z world_scheme \<Rightarrow> 'z world_scheme exec" where
  "udp_close_sockets [] w = Ret w"
| "udp_close_sockets (pcb # pcbs) w =
     and_then (udp_notify (udp_sender pcb) False w) (\<lambda>w'. udp_close_sockets pcbs w')"

section \<open>Input and output\<close>

definition udp_input ::
  "bytes \<Rightarrow> nat \<Rightarrow> ip_address \<Rightarrow> ip_address \<Rightarrow> udp_pcbs \<Rightarrow> 'z world_scheme
   \<Rightarrow> (unit result \<times> udp_pcbs \<times> 'z world_scheme) exec" where
  "udp_input data len src dst pcbs w =
     and_then (bytes_to_struct UDP_HDR_SIZE udp_header_read data) (\<lambda>header.
     if be_to_le_u16 (udp_len header) \<noteq> of_nat len then Fault Panicked
     else
       and_then (pseudo_sum src dst Udp (udp_len header)) (\<lambda>ps.
       and_then (cksum16 data len ps) (\<lambda>c.
       if c \<noteq> 0 then Ret (Err, pcbs, w)
       else
         (case udp_get_by_host pcbs dst (udp_dst_port header) of
            None \<Rightarrow> Ret (Err, pcbs, w)
          | Some i \<Rightarrow>
              let pcb = pcbs ! i in
              and_then (slice_from data UDP_HDR_SIZE) (\<lambda>udp_data.
              and_then (usize_sub len UDP_HDR_SIZE) (\<lambda>udp_len.
              let entry = \<lparr>ude_remote = \<lparr>ep_address = src, ep_port = udp_src_port header\<rparr>,
                           ude_len = udp_len, ude_data = udp_data\<rparr>;
                  pcbs' = pcbs[i := pcb\<lparr>data_entries := data_entries pcb @ [entry]\<rparr>]
              in and_then (unwrap_option (udp_sender pcb)) (\<lambda>c.
                 let (r, w') = chan_send c True w
                 in and_then (unwrap_result r) (\<lambda>_. Ret (Ok (), pcbs', w'))))))))) "

definition udp_output :: "ip_endpoint \<Rightarrow> ip_endpoint \<Rightarrow> bytes \<Rightarrow> net \<Rightarrow> net exec" where
  "udp_output src dst udp_data n =
     (let len = length udp_data
      in if IP_PAYLOAD_MAX_SIZE - UDP_HDR_SIZE < len then Fault Panicked
         else
           let total_len = UDP_HDR_SIZE + len;
               total_len_in_be = le_to_be_u16 (of_nat total_len);
               hdr = \<lparr>udp_src_port = ep_port src, udp_dst_port = ep_port dst,
                      udp_len = total_len_in_be, udp_checksum = 0\<rparr>;
               data = to_u8_slice udp_header_layout hdr @ udp_data
           in and_then (pseudo_sum (ep_address src) (ep_address dst) Udp total_len_in_be) (\<lambda>ps.
              and_then (cksum16 data total_len ps) (\<lambda>c.
              and_then (ip_output Udp (put_be16 data 6 c) (ep_address src) (ep_address dst) n) (\<lambda>(r, n').
              and_then (unwrap_result r) (\<lambda>_. Ret n')))))"

section \<open>Socket operations\<close>

definition udp_open :: "udp_pcbs \<Rightarrow> (nat \<times> udp_pcbs) exec" where
  "udp_open pcbs =
     (case first_index (\<lambda>p. udp_state p = UdpFree) pcbs of
        None \<Rightarrow> Fault Panicked
      | Some i \<Rightarrow> Ret (i, pcbs[i := (pcbs ! i)\<lparr>udp_state := UdpOpen\<rparr>]))"

definition udp_bind :: "udp_pcbs \<Rightarrow> nat \<Rightarrow> ip_endpoint \<Rightarrow> udp_pcbs exec" where
  "udp_bind pcbs pcb_id local_endpoint =
     (case udp_get_by_host pcbs (ep_address local_endpoint) (ep_port local_endpoint) of
        Some _ \<Rightarrow> Fault Panicked
      | None \<Rightarrow>
          if pcb_id < length pcbs
          then Ret (pcbs[pcb_id := (pcbs ! pcb_id)\<lparr>udp_local := local_endpoint\<rparr>])
          else Fault Panicked)"

definition udp_send_to :: "nat \<Rightarrow> bytes \<Rightarrow> ip_endpoint \<Rightarrow> udp_pcbs \<Rightarrow> net \<Rightarrow> net exec" where
  "udp_send_to pcb_id data remote pcbs n =
     and_then (unwrap_option (udp_get_by_id pcbs pcb_id)) (\<lambda>pcb.
     let local0 = ip_endpoint_new (ep_address (udp_local pcb)) 0
     in and_then
          (if ep_address local0 = IP_ADDR_ANY
           then and_then (unwrap_option (routes_get_interface (ctx_ip_routes (contexts n)) (ep_address remote)))
                  (\<lambda>interface. Ret (local0\<lparr>ep_address := unicast interface\<rparr>))
           else Ret local0) (\<lambda>local1.
        and_then
          (if ep_port (udp_local pcb) = 0 then
             (case first_free_port (is_endpoint_used pcbs (ep_address local1))
                     UDP_SRC_PORT_MIN UDP_SRC_PORT_MAX of
                None \<Rightarrow> if ep_port local1 = 0 then Fault Panicked else Ret local1
              | Some p \<Rightarrow> Ret (local1\<lparr>ep_port := p\<rparr>))
           else Ret local1) (\<lambda>local2.
        udp_output local2 remote data n)))"

definition udp_receive_begin ::
  "nat \<Rightarrow> udp_pcbs \<Rightarrow> 'z world_scheme \<Rightarrow> (nat \<times> udp_pcbs \<times> 'z world_scheme) exec" where
  "udp_receive_begin pcb_id pcbs w =
     (let (c, w1) = mpsc_channel w
      in and_then (unwrap_option (udp_get_by_id pcbs pcb_id)) (\<lambda>pcb.
         Ret (c, pcbs[pcb_id := pcb\<lparr>udp_sender := Some c\<rparr>], drop_sender (udp_sender pcb) w1)))"

definition udp_receive_resume ::
  "nat \<Rightarrow> nat \<Rightarrow> udp_pcbs \<Rightarrow> 'z world_scheme
   \<Rightarrow> (udp_data_entry option blocking \<times> udp_pcbs \<times> 'z world_scheme) exec" where
  "udp_receive_resume c pcb_id pcbs w =
     (let (m, w1) = chan_recv c w
      in case m of
           Blocked \<Rightarrow> Ret (Sleeping, pcbs, w1)
         | Disconnected \<Rightarrow> Fault UnwrapFailed
         | Message False \<Rightarrow> Ret (Returned None, pcbs, drop_receiver c w1)
         | Message True \<Rightarrow>
             and_then (unwrap_option (udp_get_by_id pcbs pcb_id)) (\<lambda>pcb.
             if udp_state pcb \<noteq> UdpOpen then Ret (Returned None, pcbs, drop_receiver c w1)
             else (case data_entries pcb of
                     [] \<Rightarrow> Ret (Returned None, pcbs, drop_receiver c w1)
                   | e # es \<Rightarrow> Ret (Returned (Some e), pcbs[pcb_id := pcb\<lparr>data_entries := es\<rparr>],
                                   drop_receiver c w1))))"


section \<open>The table\<close>

definition udp_alloc :: "udp_pcbs \<Rightarrow> (nat \<times> udp_pcbs) option" where
  "udp_alloc pcbs = (case udp_open pcbs of Ret r \<Rightarrow> Some r | Fault _ \<Rightarrow> None)"

interpretation udp_table: block_table "\<lambda>p. udp_state p = UdpFree" "\<lambda>p. p\<lparr>udp_state := UdpOpen\<rparr>" udp_alloc
  by unfold_locales
    (auto simp: udp_alloc_def udp_open_def first_index_None dest!: first_index_Some split: option.splits)

text \<open>Two endpoints overlap when one datagram could be meant for both.\<close>

definition overlap :: "ip_endpoint \<Rightarrow> ip_endpoint \<Rightarrow> bool" where
  "overlap a b \<longleftrightarrow> ep_port a = ep_port b \<and>
     (ep_address a = IP_ADDR_ANY \<or> ep_address b = IP_ADDR_ANY \<or> ep_address a = ep_address b)"

definition bound_open :: "udp_pcb \<Rightarrow> bool" where
  "bound_open p \<longleftrightarrow> udp_state p = UdpOpen \<and> ep_port (udp_local p) \<noteq> 0"

definition udp_wf :: "udp_pcbs \<Rightarrow> bool" where
  "udp_wf pcbs \<longleftrightarrow> length pcbs = UDP_PCB_COUNT \<and>
     (\<forall>p \<in> set pcbs. udp_state p = UdpFree \<longrightarrow> udp_local p = endpoint_any \<and> data_entries p = []) \<and>
     (\<forall>i < length pcbs. \<forall>j < length pcbs. i \<noteq> j \<longrightarrow> bound_open (pcbs ! i) \<longrightarrow> bound_open (pcbs ! j) \<longrightarrow>
        \<not> overlap (udp_local (pcbs ! i)) (udp_local (pcbs ! j)))"

lemma overlap_sym: "overlap a b \<longleftrightarrow> overlap b a"
  by (auto simp: overlap_def)

lemma udp_host_match_overlap:
  "udp_host_match a p pcb \<longleftrightarrow>
     udp_state pcb = UdpOpen \<and> overlap (udp_local pcb) \<lparr>ep_address = a, ep_port = p\<rparr>"
  by (auto simp: udp_host_match_def overlap_def)

lemma udp_pcbs_new_wf: "udp_wf udp_pcbs_new"
  by (auto simp: udp_wf_def udp_pcbs_new_def udp_pcb_new_def UDP_PCB_COUNT_def bound_open_def)

text \<open>Changing one block keeps the invariant if the new block clashes with no other.\<close>

lemma udp_wf_update:
  assumes "udp_wf pcbs" "i < length pcbs"
    and "udp_state p = UdpFree \<Longrightarrow> udp_local p = endpoint_any \<and> data_entries p = []"
    and "\<And>j. j < length pcbs \<Longrightarrow> j \<noteq> i \<Longrightarrow> bound_open p \<Longrightarrow> bound_open (pcbs ! j) \<Longrightarrow>
           \<not> overlap (udp_local p) (udp_local (pcbs ! j))"
  shows "udp_wf (pcbs[i := p])"
proof -
  have "\<forall>q \<in> set (pcbs[i := p]). udp_state q = UdpFree \<longrightarrow> udp_local q = endpoint_any \<and> data_entries q = []"
    using assms(1,3) set_update_subset_insert [of pcbs i p] unfolding udp_wf_def by blast
  moreover have "\<not> overlap (udp_local (pcbs[i := p] ! j)) (udp_local (pcbs[i := p] ! k))"
    if "j < length pcbs" "k < length pcbs" "j \<noteq> k" "bound_open (pcbs[i := p] ! j)"
      "bound_open (pcbs[i := p] ! k)" for j k
  proof (cases "j = i \<or> k = i")
    case True
    with that assms(2,4) show ?thesis by (auto simp: nth_list_update overlap_sym)
  next
    case False
    with that assms(1) show ?thesis by (auto simp: udp_wf_def)
  qed
  ultimately show ?thesis using assms(1) by (simp add: udp_wf_def)
qed

text \<open>A change that keeps state and endpoint of an open block.\<close>

lemma udp_wf_same:
  assumes "udp_wf pcbs" "i < length pcbs" "udp_state p = udp_state (pcbs ! i)"
    and "udp_local p = udp_local (pcbs ! i)"
    and "udp_state p = UdpFree \<Longrightarrow> data_entries p = []"
  shows "udp_wf (pcbs[i := p])"
proof (rule udp_wf_update [OF assms(1,2)])
  assume "udp_state p = UdpFree"
  then show "udp_local p = endpoint_any \<and> data_entries p = []"
    using assms unfolding udp_wf_def by (metis nth_mem)
next
  fix j assume "j < length pcbs" "j \<noteq> i" "bound_open p" "bound_open (pcbs ! j)"
  then show "\<not> overlap (udp_local p) (udp_local (pcbs ! j))"
    using assms by (auto simp: udp_wf_def bound_open_def)
qed

lemma udp_open_wf:
  assumes "udp_wf pcbs" "udp_open pcbs = Ret (i, pcbs')"
  shows "udp_wf pcbs' \<and> i < UDP_PCB_COUNT \<and> udp_state (pcbs ! i) = UdpFree \<and>
    pcbs' = pcbs[i := (pcbs ! i)\<lparr>udp_state := UdpOpen\<rparr>] \<and> udp_local (pcbs ! i) = endpoint_any"
proof -
  from assms(2) have i: "first_index (\<lambda>p. udp_state p = UdpFree) pcbs = Some i"
    "pcbs' = pcbs[i := (pcbs ! i)\<lparr>udp_state := UdpOpen\<rparr>]"
    by (auto simp: udp_open_def split: option.splits)
  then have free: "i < length pcbs" "udp_state (pcbs ! i) = UdpFree"
    by (auto dest: first_index_Some)
  with assms(1) have any: "udp_local (pcbs ! i) = endpoint_any" by (auto simp: udp_wf_def)
  have "udp_wf pcbs'" unfolding i(2)
    by (rule udp_wf_update [OF assms(1) free(1)]) (simp_all add: bound_open_def any endpoint_any_def)
  with i free any assms(1) show ?thesis by (simp add: udp_wf_def)
qed

lemma udp_bind_wf:
  assumes "udp_wf pcbs" "udp_state (pcbs ! i) = UdpOpen" "udp_bind pcbs i ep = Ret pcbs'"
  shows "udp_wf pcbs' \<and> pcbs' = pcbs[i := (pcbs ! i)\<lparr>udp_local := ep\<rparr>] \<and> i < UDP_PCB_COUNT"
proof -
  from assms(3) have i: "i < length pcbs" "pcbs' = pcbs[i := (pcbs ! i)\<lparr>udp_local := ep\<rparr>]"
    and none: "\<And>p. p \<in> set pcbs \<Longrightarrow> \<not> udp_host_match (ep_address ep) (ep_port ep) p"
    by (auto simp: udp_bind_def udp_get_by_host_def first_index_None split: option.splits if_splits)
  have "udp_wf pcbs'" unfolding i(2)
  proof (rule udp_wf_update [OF assms(1) i(1)])
    fix j assume "j < length pcbs" "bound_open (pcbs ! j)"
    then show "\<not> overlap (udp_local ((pcbs ! i)\<lparr>udp_local := ep\<rparr>)) (udp_local (pcbs ! j))"
      using none [of "pcbs ! j"] by (auto simp: udp_host_match_overlap bound_open_def overlap_def)
  qed (use assms(2) in simp)
  with i assms(1) show ?thesis by (simp add: udp_wf_def)
qed

lemma udp_bind_taken:
  assumes "p \<in> set pcbs" "udp_state p = UdpOpen" "overlap (udp_local p) ep"
  shows "udp_bind pcbs i ep = Fault Panicked"
proof -
  have "udp_get_by_host pcbs (ep_address ep) (ep_port ep) \<noteq> None"
    using assms by (auto simp: udp_get_by_host_def first_index_None udp_host_match_def overlap_def)
  then show ?thesis by (auto simp: udp_bind_def)
qed

lemma udp_delete_entry_wf:
  assumes "udp_wf pcbs" "udp_delete_entry pcbs i w = Ret (pcbs', w')"
  shows "udp_wf pcbs'"
  using assms
  by (auto simp: udp_delete_entry_def exec_simps bound_open_def intro!: udp_wf_update)

lemma udp_demux:
  assumes "udp_wf pcbs" "i < length pcbs" "bound_open (pcbs ! i)"
    and "ep_port (udp_local (pcbs ! i)) = port" "dst \<noteq> IP_ADDR_ANY"
    and "ep_address (udp_local (pcbs ! i)) \<in> {IP_ADDR_ANY, dst}"
  shows "udp_get_by_host pcbs dst port = Some i"
  unfolding udp_get_by_host_def
proof (rule first_index_eqI [OF assms(2)])
  show "udp_host_match dst port (pcbs ! i)"
    using assms by (auto simp: udp_host_match_def bound_open_def)
  fix j assume j: "j < length pcbs" "udp_host_match dst port (pcbs ! j)"
  with assms have "bound_open (pcbs ! j)" "overlap (udp_local (pcbs ! j)) (udp_local (pcbs ! i))"
    by (auto simp: udp_host_match_def bound_open_def overlap_def)
  with j(1) assms(1-3) show "j = i" unfolding udp_wf_def by blast
qed


section \<open>Datagrams\<close>

interpretation udp_hdr: packed_struct UDP_HDR_SIZE udp_header_wf udp_header_layout udp_header_read
proof unfold_locales
  fix h rest
  show "length (udp_header_layout h) = UDP_HDR_SIZE"
    by (simp add: udp_header_layout_def UDP_HDR_SIZE_def)
  show "udp_header_read (udp_header_layout h @ rest) = h"
    by (simp add: udp_header_layout_def udp_header_read_def u16_to_bytes_def byte_simps)
next
  fix b :: bytes
  assume "UDP_HDR_SIZE \<le> length b"
  then have b: "8 \<le> length b" by (simp add: UDP_HDR_SIZE_def)
  have "take 8 b = take 2 b @ take 2 (drop 2 b) @ take 2 (drop 4 b) @ take 2 (drop 6 b)"
    using b by (simp add: take_field [of 2 8] take_field [of 2 6] take_field [of 2 4])
  then show "udp_header_layout (udp_header_read b) = take UDP_HDR_SIZE b"
    using b take_2_drop [of 0 b]
    by (simp add: udp_header_layout_def udp_header_read_def byte_simps UDP_HDR_SIZE_def take_2_drop)
qed (simp_all add: udp_header_wf_def)

text \<open>The datagram of a payload, as RFC 768 describes it: the header with its checksum, then the payload.\<close>

definition udp_header_of :: "ip_endpoint \<Rightarrow> ip_endpoint \<Rightarrow> bytes \<Rightarrow> udp_header" where
  "udp_header_of src dst data =
     \<lparr>udp_src_port = ep_port src, udp_dst_port = ep_port dst,
      udp_len = le_to_be_u16 (of_nat (8 + length data)), udp_checksum = 0\<rparr>"

definition udp_datagram :: "ip_endpoint \<Rightarrow> ip_endpoint \<Rightarrow> bytes \<Rightarrow> u16 \<Rightarrow> bytes" where
  "udp_datagram src dst data c =
     to_u8_slice udp_header_layout ((udp_header_of src dst data)\<lparr>udp_checksum := le_to_be_u16 c\<rparr>) @ data"

lemma length_udp_datagram [simp]: "length (udp_datagram src dst data c) = 8 + length data"
  by (simp add: udp_datagram_def to_u8_slice_def udp_header_layout_def)

lemma drop_udp_datagram [simp]: "drop 8 (udp_datagram src dst data c) = data"
  by (simp add: udp_datagram_def to_u8_slice_def udp_header_layout_def)

lemma put_be16_udp:
  "put_be16 (to_u8_slice udp_header_layout (udp_header_of src dst data) @ data) 6 c =
     udp_datagram src dst data c"
  by (simp add: udp_datagram_def to_u8_slice_def udp_header_layout_def put_be16_def put_be16_bytes
      byte_simps u16_to_bytes_def)

lemma udp_output_eq:
  assumes "length data \<le> 65507"
  shows "udp_output src dst data n =
    and_then (pseudo_sum (ep_address src) (ep_address dst) Udp (le_to_be_u16 (of_nat (8 + length data)))) (\<lambda>ps.
    and_then (cksum16 (to_u8_slice udp_header_layout (udp_header_of src dst data) @ data) (8 + length data) ps) (\<lambda>c.
    and_then (ip_output Udp (udp_datagram src dst data c) (ep_address src) (ep_address dst) n)
      (\<lambda>(r, n'). and_then (unwrap_result r) (\<lambda>_. Ret n'))))"
  using assms
  by (simp add: udp_output_def Let_def ip_consts UDP_HDR_SIZE_def udp_header_of_def
      flip: put_be16_udp)

text \<open>What \<open>udp_output\<close> hands to IP verifies at the receiver.\<close>

lemma udp_output_datagram:
  assumes "length data \<le> 65507"
  obtains c s where
    "udp_output src dst data n =
       and_then (ip_output Udp (udp_datagram src dst data c) (ep_address src) (ep_address dst) n)
         (\<lambda>(r, n'). and_then (unwrap_result r) (\<lambda>_. Ret n'))"
    "pseudo_sum (ep_address src) (ep_address dst) Udp (le_to_be_u16 (of_nat (8 + length data))) = Ret s"
    "cksum16 (udp_datagram src dst data c) (8 + length data) s = Ret 0"
proof -
  let ?tot = "8 + length data"
  let ?d = "to_u8_slice udp_header_layout (udp_header_of src dst data) @ data"
  have len: "length ?d = ?tot" by (simp add: to_u8_slice_def udp_header_layout_def)
  have zero: "?d ! 6 = 0" "?d ! (6 + 1) = 0"
    by (simp_all add: to_u8_slice_def udp_header_layout_def u16_to_bytes_def udp_header_of_def)
  obtain s where s: "pseudo_sum (ep_address src) (ep_address dst) Udp (le_to_be_u16 (of_nat ?tot)) = Ret s"
    "unat s \<le> 65535" by (rule pseudo_sum_Ret)
  obtain c where c: "cksum16 ?d (length ?d) s = Ret c" "cksum16 (put_be16 ?d 6 c) (length ?d) s = Ret 0"
  proof (rule segment_checksum [of 6 ?d s])
    show "even (6 :: nat)" by simp
  qed (use len zero assms s(2) in simp_all)
  have out: "udp_output src dst data n =
       and_then (ip_output Udp (udp_datagram src dst data c) (ep_address src) (ep_address dst) n)
         (\<lambda>(r, n'). and_then (unwrap_result r) (\<lambda>_. Ret n'))"
    using s(1) c(1) unfolding len by (simp only: udp_output_eq [OF assms] and_then.simps)
  have "cksum16 (udp_datagram src dst data c) ?tot s = Ret 0"
    using c(2) by (simp only: put_be16_udp len)
  with out s(1) show ?thesis by (rule that)
qed

text \<open>A valid datagram is queued at the block it is addressed to, and the receiver is woken.\<close>

lemma udp_input_datagram:
  assumes "length data \<le> 65507"
    and "pseudo_sum sa da Udp (le_to_be_u16 (of_nat (8 + length data))) = Ret s"
    and "cksum16 (udp_datagram src dst data c) (8 + length data) s = Ret 0"
    and "udp_get_by_host pcbs da (ep_port dst) = Some i" "i < length pcbs"
    and "udp_sender (pcbs ! i) = Some ch" "ch < length (chans w)" "ch_receiver (chans w ! ch)"
  shows "udp_input (udp_datagram src dst data c) (8 + length data) sa da pcbs w =
    Ret (Ok (),
      pcbs[i := (pcbs ! i)\<lparr>data_entries := data_entries (pcbs ! i) @
        [\<lparr>ude_remote = \<lparr>ep_address = sa, ep_port = ep_port src\<rparr>, ude_len = length data, ude_data = data\<rparr>]\<rparr>],
      chan_update ch (\<lambda>x. x\<lparr>ch_queue := ch_queue x @ [True]\<rparr>) w)"
proof -
  let ?h = "(udp_header_of src dst data)\<lparr>udp_checksum := le_to_be_u16 c\<rparr>"
  have hdr: "bytes_to_struct UDP_HDR_SIZE udp_header_read (udp_datagram src dst data c) = Ret ?h"
    unfolding udp_datagram_def by (rule udp_hdr.bytes_to_struct_layout) (simp add: udp_header_wf_def)
  have h: "udp_len ?h = le_to_be_u16 (of_nat (8 + length data))" "udp_dst_port ?h = ep_port dst"
    "udp_src_port ?h = ep_port src" by (simp_all add: udp_header_of_def)
  have d: "drop UDP_HDR_SIZE (udp_datagram src dst data c) = data" by (simp add: UDP_HDR_SIZE_def)
  show ?thesis
    using assms hdr h d
    by (simp add: udp_input_def slice_from_def usize_sub_def chan_send_def Let_def UDP_HDR_SIZE_def)
qed


text \<open>The other branches of \<open>udp_input\<close>.\<close>

lemma udp_input_length_mismatch:
  assumes "8 \<le> length data" "be_to_le_u16 (udp_len (udp_header_read data)) \<noteq> of_nat len"
  shows "udp_input data len src dst pcbs w = Fault Panicked"
  using assms by (simp add: udp_input_def bytes_to_struct_def UDP_HDR_SIZE_def)

lemma udp_input_bad_checksum:
  assumes "8 \<le> length data" "be_to_le_u16 (udp_len (udp_header_read data)) = of_nat len"
    and "pseudo_sum src dst Udp (udp_len (udp_header_read data)) = Ret s"
    and "cksum16 data len s = Ret c" "c \<noteq> 0"
  shows "udp_input data len src dst pcbs w = Ret (Err, pcbs, w)"
  using assms by (simp add: udp_input_def bytes_to_struct_def UDP_HDR_SIZE_def)

lemma udp_input_deliver:
  assumes "8 \<le> length data" "be_to_le_u16 (udp_len (udp_header_read data)) = of_nat len" "8 \<le> len"
    and "pseudo_sum src dst Udp (udp_len (udp_header_read data)) = Ret s" "cksum16 data len s = Ret 0"
  shows "udp_input data len src dst pcbs w =
    (case udp_get_by_host pcbs dst (udp_dst_port (udp_header_read data)) of
       None \<Rightarrow> Ret (Err, pcbs, w)
     | Some i \<Rightarrow> and_then (unwrap_option (udp_sender (pcbs ! i))) (\<lambda>c.
         let (r, w') = chan_send c True w
         in and_then (unwrap_result r) (\<lambda>_. Ret (Ok (),
              pcbs[i := (pcbs ! i)\<lparr>data_entries := data_entries (pcbs ! i) @
                [\<lparr>ude_remote = \<lparr>ep_address = src, ep_port = udp_src_port (udp_header_read data)\<rparr>,
                  ude_len = len - 8, ude_data = drop 8 data\<rparr>]\<rparr>], w'))))"
  using assms
  by (auto simp: udp_input_def bytes_to_struct_def slice_from_def usize_sub_def UDP_HDR_SIZE_def Let_def
      split: option.split)

lemma length_chans_update [simp]: "length (chans (chan_update c f w)) = length (chans w)"
  by (simp add: chan_update_def)

lemma length_chans_drop [simp]:
  "length (chans (drop_receiver c w)) = length (chans w)"
  "length (chans (drop_sender s w)) = length (chans w)"
  by (auto simp: drop_receiver_def drop_sender_def split: option.split)

lemma length_chans_recv: "chan_recv c w = (m, w') \<Longrightarrow> length (chans w') = length (chans w)"
  by (auto simp: chan_recv_def split: if_splits list.splits)

lemma udp_input_pcbs:
  assumes "udp_input data len src dst pcbs w = Ret (r, pcbs', w')"
  shows "pcbs' = pcbs \<and> w' = w \<and> r = Err \<or>
    (\<exists>i es. i < length pcbs \<and> udp_state (pcbs ! i) = UdpOpen \<and>
       pcbs' = pcbs[i := (pcbs ! i)\<lparr>data_entries := es\<rparr>] \<and> length (chans w') = length (chans w))"
proof (cases "udp_get_by_host pcbs dst (udp_dst_port (udp_header_read data))")
  case None
  with assms show ?thesis
    by (auto simp: udp_input_def bytes_to_struct_def exec_simps Let_def split: if_splits)
next
  case (Some i)
  then have "i < length pcbs \<and> udp_state (pcbs ! i) = UdpOpen"
    by (auto simp: udp_get_by_host_def udp_host_match_def dest!: first_index_Some)
  moreover have "pcbs' = pcbs \<and> w' = w \<and> r = Err \<or>
    pcbs' = pcbs[i := (pcbs ! i)\<lparr>data_entries := data_entries (pcbs' ! i)\<rparr>] \<and>
    length (chans w') = length (chans w)"
    using assms Some calculation
    by (auto simp: udp_input_def bytes_to_struct_def exec_simps Let_def chan_send_def
        split: if_splits prod.splits)
  ultimately show ?thesis by blast
qed

section \<open>Reachable tables\<close>

text \<open>
  A client of the module: it opens sockets, binds the ones it has open and receives on them, while datagrams
  arrive. The first component of a state is the set of sockets that \<open>open\<close> has returned and that were
  not deleted since. That \<open>bind\<close> is called on one of them is a discipline of the client, which
  both commands of \<^verbatim>\<open>app.rs\<close> follow; \<open>bind\<close> itself does not check it, and the invariant below
  depends on it.
\<close>

inductive udp_session :: "nat set \<times> udp_pcbs \<times> world \<Rightarrow> nat set \<times> udp_pcbs \<times> world \<Rightarrow> bool" where
  step_open: "udp_open pcbs = Ret (i, pcbs') \<Longrightarrow> udp_session (socks, pcbs, w) (insert i socks, pcbs', w)"
| step_bind: "i \<in> socks \<Longrightarrow> udp_bind pcbs i ep = Ret pcbs' \<Longrightarrow> udp_session (socks, pcbs, w) (socks, pcbs', w)"
| step_delete: "udp_delete_entry pcbs i w = Ret (pcbs', w') \<Longrightarrow>
    udp_session (socks, pcbs, w) (socks - {i}, pcbs', w')"
| step_input: "udp_input data len src dst pcbs w = Ret (r, pcbs', w') \<Longrightarrow>
    udp_session (socks, pcbs, w) (socks, pcbs', w')"
| step_receive: "udp_receive_begin i pcbs w = Ret (c, pcbs', w') \<Longrightarrow> udp_session (socks, pcbs, w) (socks, pcbs', w')"
| step_resume: "udp_receive_resume c i pcbs w = Ret (r, pcbs', w') \<Longrightarrow>
    udp_session (socks, pcbs, w) (socks, pcbs', w')"

definition udp_senders_ok :: "udp_pcbs \<Rightarrow> 'z world_scheme \<Rightarrow> bool" where
  "udp_senders_ok pcbs w \<longleftrightarrow> (\<forall>p \<in> set pcbs. \<forall>c. udp_sender p = Some c \<longrightarrow> c < length (chans w))"

lemma udp_senders_ok_update:
  assumes "udp_senders_ok pcbs w" "length (chans w) \<le> length (chans w')"
    and "\<And>c. udp_sender p = Some c \<Longrightarrow> c < length (chans w')"
  shows "udp_senders_ok (pcbs[i := p]) w'"
  using assms set_update_subset_insert [of pcbs i p] unfolding udp_senders_ok_def by fastforce

lemma udp_senders_ok_keep:
  assumes "udp_senders_ok pcbs w" "i < length pcbs" "udp_sender p = udp_sender (pcbs ! i)"
    and "length (chans w') = length (chans w)"
  shows "udp_senders_ok (pcbs[i := p]) w'"
proof (rule udp_senders_ok_update [OF assms(1)])
  fix c assume "udp_sender p = Some c"
  then show "c < length (chans w')"
    using assms nth_mem [OF assms(2)] unfolding udp_senders_ok_def by metis
qed (simp add: assms(4))

lemma udp_receive_begin_pcbs:
  assumes "udp_receive_begin i pcbs w = Ret (c, pcbs', w')"
  shows "i < length pcbs \<and> pcbs' = pcbs[i := (pcbs ! i)\<lparr>udp_sender := Some c\<rparr>] \<and>
    c = length (chans w) \<and> length (chans w') = Suc (length (chans w))"
  using assms
  by (auto simp: udp_receive_begin_def mpsc_channel_def udp_get_by_id_def exec_simps split: if_splits)

lemma udp_receive_begin_keeps:
  assumes "udp_wf pcbs" "udp_receive_begin i pcbs w = Ret (c, pcbs', w')"
  shows "udp_wf pcbs'"
proof -
  have i: "i < length pcbs" "pcbs' = pcbs[i := (pcbs ! i)\<lparr>udp_sender := Some c\<rparr>]"
    using udp_receive_begin_pcbs [OF assms(2)] by auto
  have "data_entries (pcbs ! i) = []" if "udp_state (pcbs ! i) = UdpFree"
    using assms(1) that nth_mem [OF i(1)] unfolding udp_wf_def by blast
  then show ?thesis unfolding i(2) by (intro udp_wf_same [OF assms(1) i(1)]) simp_all
qed

lemma udp_receive_resume_pcbs:
  assumes "udp_receive_resume c i pcbs w = Ret (r, pcbs', w')"
  shows "length (chans w') = length (chans w) \<and>
    (pcbs' = pcbs \<or> i < length pcbs \<and> udp_state (pcbs ! i) = UdpOpen \<and>
       pcbs' = pcbs[i := (pcbs ! i)\<lparr>data_entries := data_entries (pcbs' ! i)\<rparr>])"
proof -
  obtain m w1 where m: "chan_recv c w = (m, w1)" by fastforce
  with assms have "length (chans w') = length (chans w)"
    by (auto simp: udp_receive_resume_def exec_simps dest: length_chans_recv
        split: received.splits bool.splits if_splits list.splits)
  moreover from m assms have "pcbs' = pcbs \<or> i < length pcbs \<and> udp_state (pcbs ! i) = UdpOpen \<and>
      pcbs' = pcbs[i := (pcbs ! i)\<lparr>data_entries := data_entries (pcbs' ! i)\<rparr>]"
    by (auto simp: udp_receive_resume_def udp_get_by_id_def exec_simps
        split: received.splits bool.splits if_splits list.splits)
  ultimately show ?thesis by blast
qed

lemma udp_receive_resume_keeps:
  assumes "udp_wf pcbs" "udp_receive_resume c i pcbs w = Ret (r, pcbs', w')"
  shows "udp_wf pcbs'"
proof -
  have "udp_wf (pcbs[i := (pcbs ! i)\<lparr>data_entries := es\<rparr>])"
    if "i < length pcbs" "udp_state (pcbs ! i) = UdpOpen" for es
    using assms(1) that by (auto intro!: udp_wf_same)
  with udp_receive_resume_pcbs [OF assms(2)] assms(1) show ?thesis by metis
qed

lemma udp_receive_begin_senders:
  assumes "udp_senders_ok pcbs w" "udp_receive_begin i pcbs w = Ret (c, pcbs', w')"
  shows "udp_senders_ok pcbs' w'"
  using udp_receive_begin_pcbs [OF assms(2)] assms(1) by (auto intro!: udp_senders_ok_update)

lemma udp_receive_resume_senders:
  assumes "udp_senders_ok pcbs w" "udp_receive_resume c i pcbs w = Ret (r, pcbs', w')"
  shows "udp_senders_ok pcbs' w'"
proof -
  have "udp_senders_ok (pcbs[i := (pcbs ! i)\<lparr>data_entries := es\<rparr>]) w'"
    if "i < length pcbs" "length (chans w') = length (chans w)" for es
    using assms(1) that by (auto intro!: udp_senders_ok_keep)
  moreover have "udp_senders_ok pcbs w'" if "length (chans w') = length (chans w)"
    using assms(1) that by (simp add: udp_senders_ok_def)
  ultimately show ?thesis using udp_receive_resume_pcbs [OF assms(2)] by metis
qed

lemma udp_delete_entry_senders:
  assumes "udp_senders_ok pcbs w" "udp_delete_entry pcbs i w = Ret (pcbs', w')"
  shows "udp_senders_ok pcbs' w'"
proof -
  from assms(2) have "length (chans w') = length (chans w)"
    by (auto simp: udp_delete_entry_def udp_notify_def chan_send_def exec_simps
        split: option.splits if_splits)
  moreover from assms(2) have "i < length pcbs \<and> pcbs' = pcbs[i := (pcbs ! i)\<lparr>udp_state := UdpFree,
      udp_local := endpoint_any, data_entries := []\<rparr>]"
    by (auto simp: udp_delete_entry_def exec_simps)
  ultimately show ?thesis using assms(1)
    by (auto intro!: udp_senders_ok_keep)
qed

fun session_ok :: "nat set \<times> udp_pcbs \<times> world \<Rightarrow> bool" where
  "session_ok (socks, pcbs, w) \<longleftrightarrow>
     udp_wf pcbs \<and> udp_senders_ok pcbs w \<and> (\<forall>i \<in> socks. i < length pcbs \<and> udp_state (pcbs ! i) = UdpOpen)"

lemma open_after_update:
  "udp_state p = udp_state (pcbs ! k) \<Longrightarrow> i < length pcbs \<and> udp_state (pcbs ! i) = UdpOpen \<Longrightarrow>
   i < length (pcbs[k := p]) \<and> udp_state (pcbs[k := p] ! i) = UdpOpen"
  by (cases "i = k") simp_all

lemma udp_session_inv:
  assumes "udp_session s s'" "session_ok s"
  shows "session_ok s'"
  using assms
proof (induction rule: udp_session.induct)
  case (step_open pcbs i pcbs' socks w)
  then have o: "udp_wf pcbs'" "i < length pcbs" "pcbs' = pcbs[i := (pcbs ! i)\<lparr>udp_state := UdpOpen\<rparr>]"
    using udp_open_wf [of pcbs i pcbs'] by (auto simp: udp_wf_def)
  have "udp_senders_ok pcbs' w" unfolding o(3) using step_open o(2) by (auto intro!: udp_senders_ok_keep)
  moreover have "\<forall>k \<in> insert i socks. k < length pcbs' \<and> udp_state (pcbs' ! k) = UdpOpen"
    using step_open o(2,3) by (auto simp: nth_list_update)
  ultimately show ?case using o(1) by simp
next
  case (step_bind i socks pcbs ep pcbs' w)
  then show ?case
    using udp_bind_wf [of pcbs i ep pcbs'] by (auto intro!: udp_senders_ok_keep simp: nth_list_update)
next
  case (step_delete pcbs i w pcbs' w' socks)
  then have "pcbs' = pcbs[i := (pcbs ! i)\<lparr>udp_state := UdpFree, udp_local := endpoint_any, data_entries := []\<rparr>]"
    by (auto simp: udp_delete_entry_def exec_simps)
  with step_delete show ?case
    using udp_delete_entry_wf [of pcbs i w pcbs' w'] udp_delete_entry_senders [of pcbs w i pcbs' w'] by auto
next
  case (step_input data len src dst pcbs w r pcbs' w' socks)
  then show ?case
    by (auto dest!: udp_input_pcbs intro!: udp_wf_same udp_senders_ok_keep simp: nth_list_update)
next
  case (step_receive i pcbs w c pcbs' w' socks)
  moreover have "pcbs' = pcbs[i := (pcbs ! i)\<lparr>udp_sender := Some c\<rparr>]"
    using udp_receive_begin_pcbs [OF step_receive(1)] by blast
  ultimately show ?case
    using udp_receive_begin_keeps [OF _ step_receive(1)] udp_receive_begin_senders [OF _ step_receive(1)]
      open_after_update [of "(pcbs ! i)\<lparr>udp_sender := Some c\<rparr>" pcbs i] by simp
next
  case (step_resume c i pcbs w r pcbs' w' socks)
  have "\<forall>k \<in> socks. k < length pcbs' \<and> udp_state (pcbs' ! k) = UdpOpen"
    using udp_receive_resume_pcbs [OF step_resume(1)] step_resume(2)
      open_after_update [of "(pcbs ! i)\<lparr>data_entries := data_entries (pcbs' ! i)\<rparr>" pcbs i] by fastforce
  with step_resume show ?case
    using udp_receive_resume_keeps [OF _ step_resume(1)] udp_receive_resume_senders [OF _ step_resume(1)] by auto
qed

lemma udp_session_reachable:
  assumes "udp_session\<^sup>*\<^sup>* ({}, udp_pcbs_new, w) s"
  shows "session_ok s"
  using assms
proof (induction rule: rtranclp_induct)
  case base
  have "udp_senders_ok udp_pcbs_new w"
    by (auto simp: udp_senders_ok_def udp_pcbs_new_def udp_pcb_new_def)
  then show ?case by (simp add: udp_pcbs_new_wf)
next
  case (step s t)
  then show ?case using udp_session_inv by blast
qed

text \<open>Without that discipline: a socket that was bound before it is opened has an endpoint another one may have too.\<close>

lemma bind_before_open:
  assumes "ep_port ep \<noteq> 0"
  shows "\<exists>p1 p2 p3 p4. udp_bind udp_pcbs_new 1 ep = Ret p1 \<and> udp_open p1 = Ret (0, p2) \<and> udp_bind p2 0 ep = Ret p3 \<and>
    udp_open p3 = Ret (1, p4) \<and> udp_state (p4 ! 0) = UdpOpen \<and> udp_state (p4 ! 1) = UdpOpen \<and>
    udp_local (p4 ! 0) = ep \<and> udp_local (p4 ! 1) = ep"
proof -
  let ?n = "udp_pcb_new" and ?b = "udp_pcb_new\<lparr>udp_local := ep\<rparr>" and ?r = "replicate 14 udp_pcb_new"
  have new: "udp_pcbs_new = ?n # ?n # ?r"
    by (simp add: udp_pcbs_new_def UDP_PCB_COUNT_def flip: replicate_Suc)
  have none: "first_index (udp_host_match a q) ?r = None" for a q
    by (auto simp: first_index_None udp_host_match_def udp_pcb_new_def)
  have "udp_bind udp_pcbs_new 1 ep = Ret (?n # ?b # ?r)"
    by (simp add: new udp_bind_def udp_get_by_host_def none) (simp add: udp_host_match_def udp_pcb_new_def)
  moreover have "udp_open (?n # ?b # ?r) = Ret (0, ?n\<lparr>udp_state := UdpOpen\<rparr> # ?b # ?r)"
    by (simp add: udp_open_def) (simp add: udp_pcb_new_def)
  moreover have "udp_bind (?n\<lparr>udp_state := UdpOpen\<rparr> # ?b # ?r) 0 ep =
      Ret (?b\<lparr>udp_state := UdpOpen\<rparr> # ?b # ?r)"
    using assms by (simp add: udp_bind_def udp_get_by_host_def none) (simp add: udp_host_match_def udp_pcb_new_def endpoint_any_def)
  moreover have "udp_open (?b\<lparr>udp_state := UdpOpen\<rparr> # ?b # ?r) =
      Ret (1, ?b\<lparr>udp_state := UdpOpen\<rparr> # ?b\<lparr>udp_state := UdpOpen\<rparr> # ?r)"
    by (simp add: udp_open_def) (simp add: udp_pcb_new_def)
  ultimately show ?thesis by simp
qed

section \<open>Sending and receiving\<close>

text \<open>The source endpoint of \<open>send_to\<close>, for every socket.\<close>

lemma udp_send_to_source:
  assumes "i < length pcbs" "loc = udp_local (pcbs ! i)"
    and "ep_address loc = IP_ADDR_ANY \<Longrightarrow> routes_get_interface (ctx_ip_routes (contexts n)) (ep_address remote) = Some iface"
    and "a = (if ep_address loc = IP_ADDR_ANY then unicast iface else ep_address loc)"
  shows "udp_send_to i data remote pcbs n =
    (if ep_port loc \<noteq> 0 then udp_output \<lparr>ep_address = a, ep_port = 0\<rparr> remote data n
     else case first_free_port (is_endpoint_used pcbs a) UDP_SRC_PORT_MIN UDP_SRC_PORT_MAX of
            None \<Rightarrow> Fault Panicked
          | Some p \<Rightarrow> udp_output \<lparr>ep_address = a, ep_port = p\<rparr> remote data n)"
  using assms
  by (auto simp: udp_send_to_def udp_get_by_id_def ip_endpoint_new_def Let_def byte_order_defs byte_swap_u16_def
      split: option.split)

text \<open>A waiting receiver gets the oldest entry of its socket.\<close>

lemma udp_receive_resume_message:
  assumes "i < length pcbs" "udp_state (pcbs ! i) = UdpOpen" "data_entries (pcbs ! i) = e # es"
    and "c < length (chans w)" "ch_queue (chans w ! c) = True # q"
  shows "udp_receive_resume c i pcbs w =
    Ret (Returned (Some e), pcbs[i := (pcbs ! i)\<lparr>data_entries := es\<rparr>],
      drop_receiver c (chan_update c (\<lambda>ch. ch\<lparr>ch_queue := q\<rparr>) w))"
  using assms by (simp add: udp_receive_resume_def chan_recv_def udp_get_by_id_def)

lemma udp_input_receiver_gone:
  assumes "8 \<le> length data" "be_to_le_u16 (udp_len (udp_header_read data)) = of_nat len" "8 \<le> len"
    and "pseudo_sum src dst Udp (udp_len (udp_header_read data)) = Ret s" "cksum16 data len s = Ret 0"
    and "udp_get_by_host pcbs dst (udp_dst_port (udp_header_read data)) = Some i"
    and "\<And>c. udp_sender (pcbs ! i) = Some c \<Longrightarrow> \<not> ch_receiver (chans w ! c)"
  shows "udp_input data len src dst pcbs w = Fault UnwrapFailed"
  unfolding udp_input_deliver [OF assms(1-5)] assms(6) using assms(7)
  by (cases "udp_sender (pcbs ! i)") (auto simp: chan_send_def)

end
