(* ===== verification/Tcp_Pcb.thy ===== *)
theory Tcp_Pcb
  imports Udp
begin

text \<open>
  \<^verbatim>\<open>src/src/protocols/ip/tcp.rs\<close>, first part: flags, the header and its layout, the control
  block and its operations, the table of 16 blocks, segment output and retransmission.

  A control block is a record; the blocks of the table are referred to by index, the way
  \<open>get_mut_by_id\<close> does. Waking the user command that sleeps on a block is \<open>wake\<close>: the code
  only logs a failed \<open>send\<close>.
\<close>

definition TCP_PCB_COUNT :: nat where "TCP_PCB_COUNT = 16"
definition TCP_DEFAULT_ITVL_MICROS :: nat where "TCP_DEFAULT_ITVL_MICROS = 200000"
definition TCP_RETRANSMIT_TIMOUT_SEC :: nat where "TCP_RETRANSMIT_TIMOUT_SEC = 12"
definition TCP_TIMEWAIT_SEC :: nat where "TCP_TIMEWAIT_SEC = 30"
definition TCP_SRC_PORT_MIN :: nat where "TCP_SRC_PORT_MIN = 49152"
definition TCP_SRC_PORT_MAX :: nat where "TCP_SRC_PORT_MAX = 65535"
definition PCB_BUF_LEN :: nat where "PCB_BUF_LEN = 65535"
definition TCP_HDR_SIZE :: nat where "TCP_HDR_SIZE = 20"

lemmas tcp_consts = TCP_PCB_COUNT_def TCP_DEFAULT_ITVL_MICROS_def TCP_RETRANSMIT_TIMOUT_SEC_def
  TCP_TIMEWAIT_SEC_def TCP_SRC_PORT_MIN_def TCP_SRC_PORT_MAX_def PCB_BUF_LEN_def TCP_HDR_SIZE_def

section \<open>Flags and header\<close>

datatype tcp_flag = FIN | SYN | RST | PSH | ACK | URG

definition tcp_flag_as_u8 :: "tcp_flag \<Rightarrow> u8" where
  "tcp_flag_as_u8 f =
     (case f of FIN \<Rightarrow> 0x01 | SYN \<Rightarrow> 0x02 | RST \<Rightarrow> 0x04 | PSH \<Rightarrow> 0x08 | ACK \<Rightarrow> 0x10 | URG \<Rightarrow> 0x20)"

definition tcp_flag_is :: "u8 \<Rightarrow> tcp_flag \<Rightarrow> bool" where
  "tcp_flag_is flags flag \<longleftrightarrow> flags AND 0x3f = tcp_flag_as_u8 flag"

definition tcp_flag_exists :: "u8 \<Rightarrow> tcp_flag \<Rightarrow> bool" where
  "tcp_flag_exists flags flag \<longleftrightarrow> (flags AND 0x3f) AND tcp_flag_as_u8 flag \<noteq> 0"

record tcp_header =
  tcp_src_port :: u16
  tcp_dst_port :: u16
  tcp_seq_num :: u32
  tcp_ack_num :: u32
  tcp_offset :: u8
  tcp_flags :: u8
  tcp_window :: u16
  tcp_sum :: u16
  tcp_urg_ptr :: u16

definition tcp_header_wf :: "tcp_header \<Rightarrow> bool" where
  "tcp_header_wf h = True"

definition tcp_header_layout :: "tcp_header \<Rightarrow> bytes" where
  "tcp_header_layout h =
     u16_to_bytes (tcp_src_port h) @ u16_to_bytes (tcp_dst_port h) @ u32_to_bytes (tcp_seq_num h) @
     u32_to_bytes (tcp_ack_num h) @ [tcp_offset h, tcp_flags h] @ u16_to_bytes (tcp_window h) @
     u16_to_bytes (tcp_sum h) @ u16_to_bytes (tcp_urg_ptr h)"

definition tcp_header_read :: "bytes \<Rightarrow> tcp_header" where
  "tcp_header_read b =
     \<lparr>tcp_src_port = u16_of_bytes (b ! 0) (b ! 1), tcp_dst_port = u16_of_bytes (b ! 2) (b ! 3),
      tcp_seq_num = u32_of_bytes (b ! 4) (b ! 5) (b ! 6) (b ! 7),
      tcp_ack_num = u32_of_bytes (b ! 8) (b ! 9) (b ! 10) (b ! 11),
      tcp_offset = b ! 12, tcp_flags = b ! 13, tcp_window = u16_of_bytes (b ! 14) (b ! 15),
      tcp_sum = u16_of_bytes (b ! 16) (b ! 17), tcp_urg_ptr = u16_of_bytes (b ! 18) (b ! 19)\<rparr>"

record tcp_segment_info =
  seg_seq :: u32
  seg_ack :: u32
  seg_len :: u16
  seg_window :: u16
  seg_urg :: u16

section \<open>Control blocks\<close>

record tcp_send_context =
  snd_next :: u32
  snd_una :: u32
  snd_window :: u16
  snd_urg :: u16
  snd_wl1 :: u32
  snd_wl2 :: u32

record tcp_recv_context =
  rcv_next :: u32
  rcv_window :: u16
  rcv_urg :: u16

datatype tcp_pcb_state =
    Free | Closed | Listen | SynSent | SynReceived | Established | FinWait1 | FinWait2 | Closing
  | TimeWait | CloseWait | LastAck

datatype tcp_pcb_mode = NotSet | Rfc793 | Socket

record tcp_data_queue_entry =
  first_sent_at :: nat
  last_sent_at :: nat
  retry_interval :: nat
  q_seq :: u32
  q_flags :: u8
  q_data :: bytes

record tcp_pcb =
  tcb_state :: tcp_pcb_state
  tcb_mode :: tcp_pcb_mode
  tcb_local :: ip_endpoint
  tcb_remote :: ip_endpoint
  send_context :: tcp_send_context
  iss :: u32
  recv_context :: tcp_recv_context
  irs :: u32
  tcb_mtu :: u16
  tcb_mss :: u16
  buf :: bytes
  wait_time :: "nat option"
  tcb_sender :: "nat option"
  data_queue :: "tcp_data_queue_entry list"
  parent_id :: "nat option"
  backlog :: "nat list"

type_synonym tcp_pcbs = "tcp_pcb list"

definition tcp_pcb_new :: tcp_pcb where
  "tcp_pcb_new =
     \<lparr>tcb_state = Free, tcb_mode = NotSet, tcb_local = endpoint_any, tcb_remote = endpoint_any,
      send_context = \<lparr>snd_next = 0, snd_una = 0, snd_window = 0, snd_urg = 0, snd_wl1 = 0, snd_wl2 = 0\<rparr>,
      iss = 0, recv_context = \<lparr>rcv_next = 0, rcv_window = 0, rcv_urg = 0\<rparr>, irs = 0,
      tcb_mtu = 0, tcb_mss = 0, buf = [], wait_time = None, tcb_sender = None, data_queue = [],
      parent_id = None, backlog = []\<rparr>"

definition add_data_queue ::
  "u32 \<Rightarrow> u8 \<Rightarrow> bytes \<Rightarrow> tcp_pcb \<Rightarrow> 'z world_scheme \<Rightarrow> tcp_pcb \<times> 'z world_scheme" where
  "add_data_queue seq flags data pcb w =
     (let (now, w') = system_time_now w;
          entry = \<lparr>first_sent_at = now, last_sent_at = now,
                   retry_interval = duration_from_micros TCP_DEFAULT_ITVL_MICROS,
                   q_seq = seq, q_flags = flags, q_data = data\<rparr>
      in (pcb\<lparr>data_queue := data_queue pcb @ [entry]\<rparr>, w'))"

text \<open>
  The loop of \<open>clean_data_queue\<close> remembers the last index before the first entry that is
  not yet acknowledged; only that one entry is removed afterwards.
\<close>

fun clean_scan :: "u32 \<Rightarrow> nat \<Rightarrow> nat option \<Rightarrow> tcp_data_queue_entry list \<Rightarrow> nat option" where
  "clean_scan una i found [] = found"
| "clean_scan una i found (e # es) =
     (if una \<le> q_seq e then found else clean_scan una (Suc i) (Some i) es)"

definition clean_data_queue :: "tcp_pcb \<Rightarrow> tcp_pcb" where
  "clean_data_queue pcb =
     (case clean_scan (snd_una (send_context pcb)) 0 None (data_queue pcb) of
        None \<Rightarrow> pcb
      | Some i \<Rightarrow> pcb\<lparr>data_queue := take i (data_queue pcb) @ drop (Suc i) (data_queue pcb)\<rparr>)"

definition release :: "tcp_pcb \<Rightarrow> 'z world_scheme \<Rightarrow> tcp_pcb \<times> 'z world_scheme" where
  "release pcb w =
     (pcb\<lparr>tcb_state := Free, data_queue := [], backlog := []\<rparr>, wake (tcb_sender pcb) False w)"

definition add_backlog :: "nat \<Rightarrow> tcp_pcb \<Rightarrow> tcp_pcb" where
  "add_backlog pcb_id pcb = pcb\<lparr>backlog := backlog pcb @ [pcb_id]\<rparr>"

section \<open>The table\<close>

definition tcp_pcbs_new :: tcp_pcbs where
  "tcp_pcbs_new = replicate TCP_PCB_COUNT tcp_pcb_new"

definition new_entry :: "tcp_pcbs \<Rightarrow> (nat \<times> tcp_pcbs) option" where
  "new_entry pcbs =
     (case first_index (\<lambda>p. tcb_state p = Free) pcbs of
        None \<Rightarrow> None
      | Some i \<Rightarrow> Some (i, pcbs[i := (pcbs ! i)\<lparr>tcb_state := Closed\<rparr>]))"

definition get_mut_by_id :: "tcp_pcbs \<Rightarrow> nat \<Rightarrow> tcp_pcb option" where
  "get_mut_by_id pcbs pcb_id = (if pcb_id < length pcbs then Some (pcbs ! pcb_id) else None)"

definition local_match :: "ip_endpoint \<Rightarrow> tcp_pcb \<Rightarrow> bool" where
  "local_match loc pcb \<longleftrightarrow>
     (ep_address (tcb_local pcb) = IP_ADDR_ANY \<or> ep_address (tcb_local pcb) = ep_address loc) \<and>
     ep_port (tcb_local pcb) = ep_port loc"

definition open_listener :: "tcp_pcb \<Rightarrow> bool" where
  "open_listener pcb \<longleftrightarrow>
     tcb_state pcb = Listen \<and> ep_address (tcb_remote pcb) = IP_ADDR_ANY \<and> ep_port (tcb_remote pcb) = 0"

fun select_from :: "ip_endpoint \<Rightarrow> ip_endpoint option \<Rightarrow> nat \<Rightarrow> nat option \<Rightarrow> tcp_pcb list \<Rightarrow> nat option" where
  "select_from loc rem i listen_pcb [] = listen_pcb"
| "select_from loc rem i listen_pcb (pcb # pcbs) =
     (if local_match loc pcb then
        (case rem of
           None \<Rightarrow> Some i
         | Some r \<Rightarrow>
             if ep_address (tcb_remote pcb) = ep_address r then Some i
             else if open_listener pcb then select_from loc rem (Suc i) (Some i) pcbs
             else select_from loc rem (Suc i) listen_pcb pcbs)
      else select_from loc rem (Suc i) listen_pcb pcbs)"

definition tcp_select :: "tcp_pcbs \<Rightarrow> ip_endpoint \<Rightarrow> ip_endpoint option \<Rightarrow> nat option" where
  "tcp_select pcbs loc rem = select_from loc rem 0 None pcbs"

fun tcp_close_sockets :: "tcp_pcbs \<Rightarrow> 'z world_scheme \<Rightarrow> tcp_pcbs \<times> 'z world_scheme" where
  "tcp_close_sockets [] w = ([], w)"
| "tcp_close_sockets (pcb # pcbs) w =
     (let (pcb', w1) = release pcb w; (pcbs', w2) = tcp_close_sockets pcbs w1 in (pcb' # pcbs', w2))"

definition pcb_by_id :: "tcp_pcbs \<Rightarrow> nat \<Rightarrow> tcp_pcb exec" where
  "pcb_by_id pcbs pcb_id = unwrap_option (get_mut_by_id pcbs pcb_id)"

text \<open>When a wait time is set already, the sum of the second branch is computed and dropped.\<close>

definition set_wait_time :: "tcp_pcb \<Rightarrow> 'z world_scheme \<Rightarrow> tcp_pcb \<times> 'z world_scheme" where
  "set_wait_time pcb w =
     (let addition = duration_from_secs TCP_TIMEWAIT_SEC
      in case wait_time pcb of
           None \<Rightarrow> let (now, w') = system_time_now w
                   in (pcb\<lparr>wait_time := system_time_checked_add now addition\<rparr>, w')
         | Some _ \<Rightarrow> (pcb, w))"

section \<open>Output\<close>

definition output_segment ::
  "u32 \<Rightarrow> u32 \<Rightarrow> u8 \<Rightarrow> u16 \<Rightarrow> bytes \<Rightarrow> ip_endpoint \<Rightarrow> ip_endpoint \<Rightarrow> net \<Rightarrow> (nat \<times> net) exec" where
  "output_segment seq ack flags window tcp_data loc rem n =
     (let tcp_data_len = length tcp_data;
          total = tcp_data_len + TCP_HDR_SIZE;
          header = \<lparr>tcp_src_port = ep_port loc, tcp_dst_port = ep_port rem,
                    tcp_seq_num = le_to_be_u32 seq, tcp_ack_num = le_to_be_u32 ack,
                    tcp_offset = of_nat (push_bit 4 (drop_bit 2 TCP_HDR_SIZE)), tcp_flags = flags,
                    tcp_window = le_to_be_u16 window, tcp_sum = 0, tcp_urg_ptr = 0\<rparr>;
          data = to_u8_slice tcp_header_layout header @ tcp_data
      in and_then (pseudo_sum (ep_address loc) (ep_address rem) Tcp (le_to_be_u16 (of_nat total))) (\<lambda>ps.
         and_then (cksum16 data total ps) (\<lambda>c.
         and_then (ip_output Tcp (put_be16 data 16 c) (ep_address loc) (ep_address rem) n) (\<lambda>(r, n').
         and_then (unwrap_result r) (\<lambda>_. Ret (tcp_data_len, n'))))))"

definition tcp_output :: "tcp_pcb \<Rightarrow> u8 \<Rightarrow> bytes \<Rightarrow> net \<Rightarrow> (nat \<times> tcp_pcb \<times> net) exec" where
  "tcp_output pcb flags data n =
     (let seq = (if tcp_flag_exists flags SYN then iss pcb else snd_next (send_context pcb));
          (pcb1, n1) = (if tcp_flag_exists flags SYN \<or> tcp_flag_exists flags FIN \<or> 0 < length data
                        then add_data_queue seq flags data pcb n else (pcb, n))
      in and_then (output_segment seq (rcv_next (recv_context pcb1)) flags (rcv_window (recv_context pcb1))
                     data (tcb_local pcb1) (tcb_remote pcb1) n1) (\<lambda>(len, n2).
         Ret (len, pcb1, n2)))"

section \<open>Retransmission\<close>

text \<open>The \<open>while let\<close> loop over the queue of one block; \<open>release\<close> empties the queue.\<close>

function retransmit_queue :: "tcp_pcb \<Rightarrow> net \<Rightarrow> (tcp_pcb \<times> net) exec" where
  "retransmit_queue pcb n =
     (case data_queue pcb of
        [] \<Rightarrow> Ret (pcb, n)
      | queue # rest \<Rightarrow>
          let pcb1 = pcb\<lparr>data_queue := rest\<rparr>;
              (r, n1) = system_time_elapsed (first_sent_at queue) n
          in and_then (unwrap_result r) (\<lambda>elapsed.
             if TCP_RETRANSMIT_TIMOUT_SEC \<le> as_secs elapsed then
               (let (pcb2, n2) = release pcb1 n1 in retransmit_queue pcb2 n2)
             else
               and_then (unwrap_option (system_time_checked_add (last_sent_at queue) (retry_interval queue)))
                 (\<lambda>timeout.
               let (r2, n2) = system_time_elapsed timeout n1
               in if r2 = Err then
                    and_then (output_segment (q_seq queue) (rcv_next (recv_context pcb1)) (q_flags queue)
                      (rcv_window (recv_context pcb1)) (q_data queue) (tcb_local pcb1) (tcb_remote pcb1) n2)
                      (\<lambda>(len, n3). retransmit_queue pcb1 n3)
                  else retransmit_queue pcb1 n2)))"
  by pat_completeness auto
termination
  by (relation "measure (\<lambda>(pcb, n). length (data_queue pcb))") (auto simp: release_def)

declare retransmit_queue.simps [simp del]

definition retransmit_pcb :: "tcp_pcb \<Rightarrow> net \<Rightarrow> (tcp_pcb \<times> net) exec" where
  "retransmit_pcb pcb n =
     (if tcb_state pcb = Free then Ret (pcb, n)
      else if tcb_state pcb = TimeWait then
        and_then (unwrap_option (wait_time pcb)) (\<lambda>t.
        let (r, n1) = system_time_elapsed t n
        in and_then (unwrap_result r) (\<lambda>elapsed.
           if 0 < as_micros elapsed then Ret (release pcb n1) else retransmit_queue pcb n1))
      else retransmit_queue pcb n)"

fun retransmit :: "tcp_pcbs \<Rightarrow> net \<Rightarrow> (tcp_pcbs \<times> net) exec" where
  "retransmit [] n = Ret ([], n)"
| "retransmit (pcb # pcbs) n =
     and_then (retransmit_pcb pcb n) (\<lambda>(pcb', n1).
     and_then (retransmit pcbs n1) (\<lambda>(pcbs', n2). Ret (pcb' # pcbs', n2)))"


section \<open>The header on the wire\<close>

interpretation tcp_hdr: packed_struct TCP_HDR_SIZE tcp_header_wf tcp_header_layout tcp_header_read
proof unfold_locales
  fix h rest
  show "length (tcp_header_layout h) = TCP_HDR_SIZE"
    by (simp add: tcp_header_layout_def TCP_HDR_SIZE_def)
  show "tcp_header_read (tcp_header_layout h @ rest) = h"
    by (simp add: tcp_header_layout_def tcp_header_read_def u16_to_bytes_def u32_to_bytes_def byte_simps)
next
  fix b :: bytes
  assume "TCP_HDR_SIZE \<le> length b"
  then have b: "20 \<le> length b" by (simp add: TCP_HDR_SIZE_def)
  have "take 20 b = take 2 b @ take 2 (drop 2 b) @ take 4 (drop 4 b) @ take 4 (drop 8 b) @
      take 2 (drop 12 b) @ take 2 (drop 14 b) @ take 2 (drop 16 b) @ take 2 (drop 18 b)"
    using b by (simp add: take_field [of 2 20] take_field [of 2 18] take_field [of 4 16]
        take_field [of 4 12] take_field [of 2 8] take_field [of 2 6] take_field [of 2 4])
  then show "tcp_header_layout (tcp_header_read b) = take TCP_HDR_SIZE b"
    using b take_2_drop [of 0 b]
    by (simp add: tcp_header_layout_def tcp_header_read_def byte_simps TCP_HDR_SIZE_def
        take_2_drop take_4_drop)
qed (simp_all add: tcp_header_wf_def)

text \<open>The segment RFC 793 describes for the arguments of \<open>output_segment\<close>, with checksum \<open>c\<close>.\<close>

definition tcp_header_of ::
  "u32 \<Rightarrow> u32 \<Rightarrow> u8 \<Rightarrow> u16 \<Rightarrow> ip_endpoint \<Rightarrow> ip_endpoint \<Rightarrow> tcp_header" where
  "tcp_header_of seq ack flags window loc rem =
     \<lparr>tcp_src_port = ep_port loc, tcp_dst_port = ep_port rem,
      tcp_seq_num = le_to_be_u32 seq, tcp_ack_num = le_to_be_u32 ack, tcp_offset = 0x50, tcp_flags = flags,
      tcp_window = le_to_be_u16 window, tcp_sum = 0, tcp_urg_ptr = 0\<rparr>"

definition tcp_segment ::
  "u32 \<Rightarrow> u32 \<Rightarrow> u8 \<Rightarrow> u16 \<Rightarrow> bytes \<Rightarrow> ip_endpoint \<Rightarrow> ip_endpoint \<Rightarrow> u16 \<Rightarrow> bytes" where
  "tcp_segment seq ack flags window data loc rem c =
     to_u8_slice tcp_header_layout ((tcp_header_of seq ack flags window loc rem)\<lparr>tcp_sum := le_to_be_u16 c\<rparr>) @ data"

lemma length_tcp_segment [simp]: "length (tcp_segment seq ack flags window data loc rem c) = 20 + length data"
  by (simp add: tcp_segment_def to_u8_slice_def tcp_header_layout_def)

lemma drop_tcp_segment [simp]: "drop 20 (tcp_segment seq ack flags window data loc rem c) = data"
  by (simp add: tcp_segment_def to_u8_slice_def tcp_header_layout_def)

lemma put_be16_tcp:
  "put_be16 (to_u8_slice tcp_header_layout (tcp_header_of seq ack flags window loc rem) @ data) 16 c =
     tcp_segment seq ack flags window data loc rem c"
  by (simp add: tcp_segment_def to_u8_slice_def tcp_header_layout_def put_be16_def put_be16_bytes
      byte_simps u16_to_bytes_def u32_to_bytes_def)

lemma output_segment_eq:
  "output_segment seq ack flags window data loc rem n =
    and_then (pseudo_sum (ep_address loc) (ep_address rem) Tcp (le_to_be_u16 (of_nat (20 + length data)))) (\<lambda>ps.
    and_then (cksum16 (to_u8_slice tcp_header_layout (tcp_header_of seq ack flags window loc rem) @ data)
      (20 + length data) ps) (\<lambda>c.
    and_then (ip_output Tcp (tcp_segment seq ack flags window data loc rem c) (ep_address loc) (ep_address rem) n)
      (\<lambda>(r, n'). and_then (unwrap_result r) (\<lambda>_. Ret (length data, n')))))"
  by (simp add: output_segment_def Let_def TCP_HDR_SIZE_def tcp_header_of_def add.commute
      flip: put_be16_tcp)

text \<open>The checksum \<open>output_segment\<close> computes, and that the receiver's sum is zero.\<close>

lemma output_segment_sum:
  assumes "length data \<le> 65515"
  obtains c s where
    "\<And>n. output_segment seq ack flags window data loc rem n =
       and_then (ip_output Tcp (tcp_segment seq ack flags window data loc rem c) (ep_address loc) (ep_address rem) n)
         (\<lambda>(r, n'). and_then (unwrap_result r) (\<lambda>_. Ret (length data, n')))"
    "pseudo_sum (ep_address loc) (ep_address rem) Tcp (le_to_be_u16 (of_nat (20 + length data))) = Ret s"
    "cksum16 (tcp_segment seq ack flags window data loc rem c) (20 + length data) s = Ret 0"
proof -
  let ?tot = "20 + length data"
  let ?d = "to_u8_slice tcp_header_layout (tcp_header_of seq ack flags window loc rem) @ data"
  have len: "length ?d = ?tot" by (simp add: to_u8_slice_def tcp_header_layout_def)
  have zero: "?d ! 16 = 0" "?d ! (16 + 1) = 0"
    by (simp_all add: to_u8_slice_def tcp_header_layout_def u16_to_bytes_def u32_to_bytes_def tcp_header_of_def)
  obtain s where s: "pseudo_sum (ep_address loc) (ep_address rem) Tcp (le_to_be_u16 (of_nat ?tot)) = Ret s"
    "unat s \<le> 65535" by (rule pseudo_sum_Ret)
  obtain c where c: "cksum16 ?d (length ?d) s = Ret c" "cksum16 (put_be16 ?d 16 c) (length ?d) s = Ret 0"
  proof (rule segment_checksum [of 16 ?d s])
    show "even (16 :: nat)" by simp
  qed (use len zero assms s(2) in simp_all)
  show ?thesis
  proof (rule that [of c s])
    show "output_segment seq ack flags window data loc rem n =
       and_then (ip_output Tcp (tcp_segment seq ack flags window data loc rem c) (ep_address loc) (ep_address rem) n)
         (\<lambda>(r, n'). and_then (unwrap_result r) (\<lambda>_. Ret (length data, n')))" for n
      using s(1) c(1) unfolding len by (simp only: output_segment_eq and_then.simps)
    show "cksum16 (tcp_segment seq ack flags window data loc rem c) ?tot s = Ret 0"
      using c(2) by (simp only: put_be16_tcp len)
  qed (rule s(1))
qed

section \<open>Flags\<close>

lemma tcp_flag_exists_bytes [simp]:
  "tcp_flag_exists (tcp_flag_as_u8 f) g \<longleftrightarrow> f = g"
  "tcp_flag_exists (tcp_flag_as_u8 f OR tcp_flag_as_u8 f') g \<longleftrightarrow> f = g \<or> f' = g"
  by (cases f; cases g; simp add: tcp_flag_exists_def tcp_flag_as_u8_def)
     (cases f; cases f'; cases g; simp add: tcp_flag_exists_def tcp_flag_as_u8_def)

section \<open>The queue of unacknowledged segments\<close>

lemma clean_scan_prefix:
  "clean_scan una i found es =
     (if takeWhile (\<lambda>e. q_seq e < una) es = [] then found
      else Some (i + length (takeWhile (\<lambda>e. q_seq e < una) es) - 1))"
  by (induction una i found es rule: clean_scan.induct) (auto simp: not_le)

lemma clean_data_queue_eq:
  "clean_data_queue pcb = pcb\<lparr>data_queue :=
     (let acked = takeWhile (\<lambda>e. q_seq e < snd_una (send_context pcb)) (data_queue pcb)
      in butlast acked @ drop (length acked) (data_queue pcb))\<rparr>"
proof -
  let ?P = "\<lambda>e. q_seq e < snd_una (send_context pcb)"
  let ?a = "takeWhile ?P (data_queue pcb)"
  show ?thesis
  proof (cases "?a = []")
    case False
    then have "take (length ?a - 1) (data_queue pcb) = butlast ?a"
      using takeWhile_eq_take [of ?P "data_queue pcb"] butlast_take [of "length ?a" "data_queue pcb"]
        length_takeWhile_le [of ?P "data_queue pcb"] by simp
    with False show ?thesis
      by (simp add: clean_data_queue_def clean_scan_prefix Let_def)
  qed (simp add: clean_data_queue_def clean_scan_prefix)
qed

lemma clean_data_queue_simps [simp]:
  "tcb_state (clean_data_queue pcb) = tcb_state pcb" "send_context (clean_data_queue pcb) = send_context pcb"
  "recv_context (clean_data_queue pcb) = recv_context pcb" "iss (clean_data_queue pcb) = iss pcb"
  "tcb_sender (clean_data_queue pcb) = tcb_sender pcb" "parent_id (clean_data_queue pcb) = parent_id pcb"
  "backlog (clean_data_queue pcb) = backlog pcb" "tcb_local (clean_data_queue pcb) = tcb_local pcb"
  "tcb_remote (clean_data_queue pcb) = tcb_remote pcb" "buf (clean_data_queue pcb) = buf pcb"
  "tcb_mode (clean_data_queue pcb) = tcb_mode pcb"
  by (simp_all add: clean_data_queue_eq)


section \<open>The table of blocks\<close>

interpretation tcp_table: block_table "\<lambda>p. tcb_state p = Free" "\<lambda>p. p\<lparr>tcb_state := Closed\<rparr>" new_entry
  by unfold_locales
    (auto simp: new_entry_def first_index_None dest!: first_index_Some split: option.splits)

text \<open>
  \<open>select\<close> as a specification: the first block whose endpoints match, and otherwise the
  last open listener on the local endpoint.
\<close>

definition exact_match :: "ip_endpoint \<Rightarrow> ip_endpoint \<Rightarrow> tcp_pcb \<Rightarrow> bool" where
  "exact_match loc rem p \<longleftrightarrow> local_match loc p \<and> ep_address (tcb_remote p) = ep_address rem"

definition listen_match :: "ip_endpoint \<Rightarrow> tcp_pcb \<Rightarrow> bool" where
  "listen_match loc p \<longleftrightarrow> local_match loc p \<and> open_listener p"

fun last_index :: "('a \<Rightarrow> bool) \<Rightarrow> 'a list \<Rightarrow> nat option" where
  "last_index P [] = None"
| "last_index P (x # xs) =
     (case last_index P xs of Some i \<Rightarrow> Some (Suc i) | None \<Rightarrow> if P x then Some 0 else None)"

lemma last_index_Some:
  "last_index P xs = Some i \<Longrightarrow> i < length xs \<and> P (xs ! i) \<and> (\<forall>j < length xs. i < j \<longrightarrow> \<not> P (xs ! j))"
proof (induction xs arbitrary: i)
  case (Cons x xs)
  have none: "last_index P ys = None \<Longrightarrow> j < length ys \<Longrightarrow> \<not> P (ys ! j)" for ys j
    by (induction ys arbitrary: j) (auto simp: less_Suc_eq_0_disj split: option.splits if_splits)
  with Cons show ?case by (auto simp: less_Suc_eq_0_disj split: option.splits if_splits)
qed simp

lemma select_from_Some_rem:
  "select_from loc (Some rem) i lp xs =
     (case first_index (exact_match loc rem) xs of
        Some k \<Rightarrow> Some (i + k)
      | None \<Rightarrow> (case last_index (listen_match loc) xs of Some k \<Rightarrow> Some (i + k) | None \<Rightarrow> lp))"
  by (induction xs arbitrary: i lp)
    (auto simp: exact_match_def listen_match_def split: option.splits)

lemma tcp_select_spec:
  "tcp_select pcbs loc (Some rem) =
     (case first_index (exact_match loc rem) pcbs of
        Some k \<Rightarrow> Some k | None \<Rightarrow> last_index (listen_match loc) pcbs)"
  by (simp add: tcp_select_def select_from_Some_rem split: option.split)

lemma select_from_None_rem:
  "select_from loc None i None xs = map_option ((+) i) (first_index (local_match loc) xs)"
proof (induction xs arbitrary: i)
  case (Cons x xs)
  then show ?case by (cases "first_index (local_match loc) xs") auto
qed simp

lemma tcp_select_bind: "tcp_select pcbs loc None = first_index (local_match loc) pcbs"
  by (cases "first_index (local_match loc) pcbs") (simp_all add: tcp_select_def select_from_None_rem)

lemma tcp_select_length: "tcp_select pcbs loc (Some rem) = Some i \<Longrightarrow> i < length pcbs"
  by (auto simp: tcp_select_spec dest: first_index_Some last_index_Some split: option.splits)

section \<open>What output changes\<close>

lemma output_segment_frame:
  "output_segment seq ack flags window data loc rem n = Ret (len, n') \<Longrightarrow> io_frame n n' \<and> len = length data"
  by (auto simp: output_segment_def Let_def exec_simps dest: ip_output_frame)

lemma tcp_output_frame:
  assumes "tcp_output pcb flags data n = Ret (len, pcb', n')"
  shows "\<exists>q. pcb' = pcb\<lparr>data_queue := data_queue pcb @ q\<rparr>" "io_frame n n'" "len = length data"
  using assms
  by (auto simp: tcp_output_def add_data_queue_def system_time_now_def Let_def exec_simps io_frame_def
      dest!: output_segment_frame split: if_splits prod.splits intro: exI [of _ "[]"])

lemma tcp_output_plain:
  "\<not> tcp_flag_exists flags SYN \<Longrightarrow> \<not> tcp_flag_exists flags FIN \<Longrightarrow>
   tcp_output pcb flags [] n =
     and_then (output_segment (snd_next (send_context pcb)) (rcv_next (recv_context pcb)) flags
       (rcv_window (recv_context pcb)) [] (tcb_local pcb) (tcb_remote pcb) n)
       (\<lambda>(len, n'). Ret (len, pcb, n'))"
  by (simp add: tcp_output_def)


section \<open>Retransmission empties the queues\<close>

lemma release_simps [simp]:
  "tcb_state (fst (release pcb w)) = Free" "data_queue (fst (release pcb w)) = []"
  "backlog (fst (release pcb w)) = []"
  by (simp_all add: release_def)

lemma retransmit_queue_empties:
  "retransmit_queue pcb n = Ret (pcb', n') \<Longrightarrow>
   pcb' = pcb\<lparr>data_queue := []\<rparr> \<or> pcb' = pcb\<lparr>tcb_state := Free, data_queue := [], backlog := []\<rparr>"
proof (induction "data_queue pcb" arbitrary: pcb n)
  case Nil
  then show ?case by (subst (asm) retransmit_queue.simps) simp
next
  case (Cons q rest)
  note step = Cons.prems [unfolded retransmit_queue.simps [of pcb n] Cons.hyps(2) [symmetric] list.case]
  obtain r n1 where e1: "system_time_elapsed (first_sent_at q) n = (r, n1)" by fastforce
  from step e1 obtain el where r: "r = Ok el" by (auto simp: Let_def exec_simps)
  show ?case
  proof (cases "TCP_RETRANSMIT_TIMOUT_SEC \<le> as_secs el")
    case True
    with step e1 r have "retransmit_queue (pcb\<lparr>tcb_state := Free, data_queue := [], backlog := []\<rparr>)
        (wake (tcb_sender pcb) False n1) = Ret (pcb', n')" by (simp add: release_def)
    then show ?thesis by (subst (asm) retransmit_queue.simps) simp
  next
    case False
    with step e1 r obtain t where t: "system_time_checked_add (last_sent_at q) (retry_interval q) = Some t"
      by (auto simp: Let_def exec_simps)
    obtain r2 n2 where e2: "system_time_elapsed t n1 = (r2, n2)" by fastforce
    from step e1 r False t e2 obtain n3 where "retransmit_queue (pcb\<lparr>data_queue := rest\<rparr>) n3 = Ret (pcb', n')"
      by (auto simp: Let_def exec_simps split: if_splits)
    from Cons.hyps(1) [OF _ this] show ?thesis by simp
  qed
qed

lemma data_queue_id: "data_queue p = q \<Longrightarrow> p\<lparr>data_queue := q\<rparr> = p"
  by (cases p) simp

lemma retransmit_pcb_empties:
  assumes "retransmit_pcb pcb n = Ret (pcb', n')" "tcb_state pcb = Free \<Longrightarrow> data_queue pcb = []"
  shows "pcb' = pcb\<lparr>data_queue := []\<rparr> \<or> pcb' = pcb\<lparr>tcb_state := Free, data_queue := [], backlog := []\<rparr>"
proof (cases "tcb_state pcb = TimeWait")
  case True
  with assms(1) obtain t where t: "wait_time pcb = Some t" by (auto simp: retransmit_pcb_def exec_simps)
  obtain r n1 where e: "system_time_elapsed t n = (r, n1)" by fastforce
  from assms(1) True t e show ?thesis
    by (auto simp: retransmit_pcb_def release_def exec_simps Let_def dest: retransmit_queue_empties
        split: if_splits)
next
  case False
  show ?thesis
  proof (cases "tcb_state pcb = Free")
    case True
    with assms(1) have "pcb' = pcb" by (simp add: retransmit_pcb_def)
    then show ?thesis using data_queue_id [OF assms(2) [OF True]] by metis
  next
    case notfree: False
    with False assms(1) have "retransmit_queue pcb n = Ret (pcb', n')" by (simp add: retransmit_pcb_def)
    then show ?thesis by (rule retransmit_queue_empties)
  qed
qed

lemma retransmit_empties:
  assumes "retransmit pcbs n = Ret (pcbs', n')"
    and "\<And>p. p \<in> set pcbs \<Longrightarrow> tcb_state p = Free \<Longrightarrow> data_queue p = []"
  shows "list_all2 (\<lambda>p p'. p' = p\<lparr>data_queue := []\<rparr> \<or>
    p' = p\<lparr>tcb_state := Free, data_queue := [], backlog := []\<rparr>) pcbs pcbs'"
  using assms
proof (induction pcbs arbitrary: n pcbs')
  case (Cons p pcbs)
  then obtain p' n1 ps where r: "retransmit_pcb p n = Ret (p', n1)" "retransmit pcbs n1 = Ret (ps, n')"
    "pcbs' = p' # ps" by (auto simp: exec_simps)
  have "list_all2 (\<lambda>p p'. p' = p\<lparr>data_queue := []\<rparr> \<or>
    p' = p\<lparr>tcb_state := Free, data_queue := [], backlog := []\<rparr>) pcbs ps"
    using Cons.IH [OF r(2)] Cons.prems(2) by simp
  moreover have "p' = p\<lparr>data_queue := []\<rparr> \<or> p' = p\<lparr>tcb_state := Free, data_queue := [], backlog := []\<rparr>"
    using retransmit_pcb_empties [OF r(1)] Cons.prems(2) [of p] by simp
  ultimately show ?case by (simp add: r(3))
qed simp

lemma tcp_close_sockets_all:
  "tcp_close_sockets pcbs w = (pcbs', w') \<Longrightarrow>
   pcbs' = map (\<lambda>p. p\<lparr>tcb_state := Free, data_queue := [], backlog := []\<rparr>) pcbs"
  by (induction pcbs arbitrary: w pcbs') (auto simp: release_def Let_def split: prod.splits)

section \<open>Output to a resolved neighbour\<close>

text \<open>
  \<open>reaches n src dst hw\<close>: a route to \<open>dst\<close> leaves through an interface with address
  \<open>src\<close>, the device works, and the next hop is in the ARP cache with hardware address
  \<open>hw\<close>, fresh at every later reading of the clock.
\<close>

definition reaches :: "net \<Rightarrow> ip_address \<Rightarrow> ip_address \<Rightarrow> bytes \<Rightarrow> bool" where
  "reaches n src dst hw \<longleftrightarrow>
     (\<exists>route e. lookup_ip_route (ctx_ip_routes (contexts n)) dst = Some route \<and>
        unicast (rt_interface route) = src \<and> \<not> is_broadcast dst route \<and> needs_arp n \<and> tap_ready (device n) \<and>
        ctx_arp_table (contexts n) (next_hop_of route dst) = Some e \<and> hw_address e = hw \<and> length hw = 6 \<and>
        (\<forall>k \<ge> readings n. timestamp e \<le> clock n k \<and> arp_fresh (timestamp e) (clock n k)))"

definition ip_frame :: "ip_protocol_type \<Rightarrow> ip_address \<Rightarrow> ip_address \<Rightarrow> bytes \<Rightarrow> bytes \<Rightarrow> net \<Rightarrow> bytes" where
  "ip_frame p src dst hw data n =
     eth_frame hw (dev_mac (device n)) IP_Type (ip_packet p src dst (ctx_ip_id (contexts n) + 1) data)"

definition ip_sent :: "ip_protocol_type \<Rightarrow> ip_address \<Rightarrow> ip_address \<Rightarrow> bytes \<Rightarrow> bytes \<Rightarrow> net \<Rightarrow> net" where
  "ip_sent p src dst hw data n =
     net_send (ip_frame p src dst hw data n) ((net_count n)\<lparr>readings := Suc (readings n)\<rparr>)"

lemma ip_output_reaches:
  assumes "reaches n src dst hw" "ctx_ip_id (contexts n) \<noteq> 0xffff" "length data \<le> 1480"
  shows "ip_output p data src dst n = Ret (Ok (), ip_sent p src dst hw data n)"
proof -
  from assms(1) obtain route e where r: "lookup_ip_route (ctx_ip_routes (contexts n)) dst = Some route"
    "unicast (rt_interface route) = src" "\<not> is_broadcast dst route" "needs_arp n" "tap_ready (device n)"
    "ctx_arp_table (contexts n) (next_hop_of route dst) = Some e" "hw_address e = hw" "length hw = 6"
    "timestamp e \<le> clock n (readings n)" "arp_fresh (timestamp e) (clock n (readings n))"
    by (auto simp: reaches_def)
  then show ?thesis
    using ip_output_cached [of n dst route src data e p] assms(2,3)
    by (simp add: ip_sent_def ip_frame_def src_allowed_def)
qed

lemma output_segment_reaches:
  assumes "reaches n (ep_address loc) (ep_address rem) hw" "ctx_ip_id (contexts n) \<noteq> 0xffff" "length data \<le> 1460"
  obtains c where
    "output_segment seq ack flags window data loc rem n =
       Ret (length data, ip_sent Tcp (ep_address loc) (ep_address rem) hw
         (tcp_segment seq ack flags window data loc rem c) n)"
proof -
  have "length data \<le> 65515" using assms(3) by simp
  then obtain c s where "\<And>n. output_segment seq ack flags window data loc rem n =
       and_then (ip_output Tcp (tcp_segment seq ack flags window data loc rem c) (ep_address loc) (ep_address rem) n)
         (\<lambda>(r, n'). and_then (unwrap_result r) (\<lambda>_. Ret (length data, n')))"
    by (rule output_segment_sum [of data seq ack flags window loc rem]) blast
  then have "output_segment seq ack flags window data loc rem n =
       Ret (length data, ip_sent Tcp (ep_address loc) (ep_address rem) hw
         (tcp_segment seq ack flags window data loc rem c) n)"
    using ip_output_reaches [OF assms(1,2)] assms(3) by simp
  then show ?thesis by (rule that)
qed

end
