(* ===== verification/Tcp_Input.thy ===== *)
theory Tcp_Input
  imports Tcp_Pcb
begin

text \<open>
  \<^verbatim>\<open>src/src/protocols/ip/tcp.rs\<close>, second part: \<open>segment_arrives\<close> (RFC 793 section 3.9) and
  \<open>input\<close>. The function is cut at the comments that number the checks of the RFC, one
  definition per check; each returns the table and the state, and whether the function
  has returned (\<open>Stop\<close>) or goes on with the next check (\<open>Go\<close>).
\<close>

datatype flow = Stop | Go

type_synonym tcp_machine = "tcp_pcbs \<times> net"

definition seg_reply ::
  "u32 \<Rightarrow> u32 \<Rightarrow> u8 \<Rightarrow> ip_endpoint \<Rightarrow> ip_endpoint \<Rightarrow> tcp_machine \<Rightarrow> tcp_machine exec" where
  "seg_reply seq ack flags loc rem m =
     and_then (output_segment seq ack flags 0 [] loc rem (snd m)) (\<lambda>(_, n'). Ret (fst m, n'))"

definition flag_ack :: u8 where "flag_ack = tcp_flag_as_u8 ACK"
definition flag_rst :: u8 where "flag_rst = tcp_flag_as_u8 RST"
definition flag_syn :: u8 where "flag_syn = tcp_flag_as_u8 SYN"
definition flag_syn_ack :: u8 where "flag_syn_ack = tcp_flag_as_u8 SYN OR tcp_flag_as_u8 ACK"
definition flag_rst_ack :: u8 where "flag_rst_ack = tcp_flag_as_u8 RST OR tcp_flag_as_u8 ACK"

lemmas flag_bytes = flag_ack_def flag_rst_def flag_syn_def flag_syn_ack_def flag_rst_ack_def

text \<open>No block, or a closed one.\<close>

definition seg_closed ::
  "tcp_segment_info \<Rightarrow> u8 \<Rightarrow> ip_endpoint \<Rightarrow> ip_endpoint \<Rightarrow> tcp_machine \<Rightarrow> tcp_machine exec" where
  "seg_closed seg flags loc rem m =
     (if tcp_flag_exists flags RST then Ret m
      else if tcp_flag_exists flags ACK then seg_reply (seg_ack seg) 0 flag_rst loc rem m
      else and_then (checked_add (seg_seq seg) (ucast (seg_len seg))) (\<lambda>a.
           seg_reply 0 a flag_rst_ack loc rem m))"

text \<open>The block that answers a SYN: a fresh one in socket mode, the listener itself otherwise.\<close>

definition listen_target :: "nat \<Rightarrow> tcp_pcb_mode \<Rightarrow> tcp_pcbs \<Rightarrow> (nat \<times> tcp_pcbs) exec" where
  "listen_target pcb_id mode pcbs =
     (if mode = Socket then
        and_then (unwrap_option (new_entry pcbs)) (\<lambda>(i, pcbs').
        Ret (i, pcbs'[i := (pcbs' ! i)\<lparr>tcb_mode := Socket, parent_id := Some pcb_id\<rparr>]))
      else and_then (pcb_by_id pcbs pcb_id) (\<lambda>_. Ret (pcb_id, pcbs)))"

definition seg_listen ::
  "nat \<Rightarrow> tcp_pcb_mode \<Rightarrow> tcp_segment_info \<Rightarrow> u8 \<Rightarrow> ip_endpoint \<Rightarrow> ip_endpoint \<Rightarrow> tcp_machine \<Rightarrow> tcp_machine exec" where
  "seg_listen pcb_id mode seg flags loc rem m =
     (if tcp_flag_exists flags RST then Ret m
      else if tcp_flag_exists flags ACK then seg_reply (seg_ack seg) 0 flag_rst loc rem m
      else if tcp_flag_exists flags SYN then
        and_then (listen_target pcb_id mode (fst m)) (\<lambda>(i, pcbs).
        and_then (checked_add (seg_seq seg) 1) (\<lambda>next.
        let (isn, n1) = gen_range_u32 (snd m);
            pcb = (pcbs ! i)\<lparr>tcb_local := loc, tcb_remote := rem,
                    recv_context := (recv_context (pcbs ! i))\<lparr>rcv_window := of_nat PCB_BUF_LEN, rcv_next := next\<rparr>,
                    iss := isn\<rparr>
        in and_then (tcp_output pcb flag_syn_ack [] n1) (\<lambda>(_, pcb1, n2).
           and_then (checked_add (iss pcb1) 1) (\<lambda>snext.
           let pcb2 = pcb1\<lparr>send_context := (send_context pcb1)\<lparr>snd_next := snext, snd_una := iss pcb1\<rparr>,
                           tcb_state := SynReceived\<rparr>
           in Ret (pcbs[i := pcb2], n2)))))
      else Ret m)"

definition syn_update :: "tcp_segment_info \<Rightarrow> bool \<Rightarrow> u32 \<Rightarrow> tcp_pcb \<Rightarrow> tcp_pcb" where
  "syn_update seg acceptable next pcb =
     (let pcb1 = pcb\<lparr>recv_context := (recv_context pcb)\<lparr>rcv_next := next\<rparr>, irs := seg_seq seg\<rparr>
      in if acceptable
         then clean_data_queue (pcb1\<lparr>send_context := (send_context pcb1)\<lparr>snd_una := seg_ack seg\<rparr>\<rparr>)
         else pcb1)"

definition seg_syn_sent ::
  "nat \<Rightarrow> tcp_segment_info \<Rightarrow> u8 \<Rightarrow> ip_endpoint \<Rightarrow> ip_endpoint \<Rightarrow> tcp_machine \<Rightarrow> tcp_machine exec" where
  "seg_syn_sent pcb_id seg flags loc rem m =
     and_then (pcb_by_id (fst m) pcb_id) (\<lambda>pcb.
     let sc = send_context pcb;
         ack = tcp_flag_exists flags ACK;
         acceptable = (ack \<and> snd_una sc \<le> seg_ack seg \<and> seg_ack seg \<le> snd_next sc)
     in if ack \<and> (seg_ack seg \<le> iss pcb \<or> snd_next sc < seg_ack seg)
        then seg_reply (seg_ack seg) 0 flag_rst loc rem m
        else if tcp_flag_exists flags RST then
          (if acceptable
           then let (pcb', n') = release pcb (snd m) in Ret ((fst m)[pcb_id := pcb'], n')
           else Ret m)
        else if tcp_flag_exists flags SYN then
          and_then (checked_add (seg_seq seg) 1) (\<lambda>next.
          let pcb2 = syn_update seg acceptable next pcb
          in if iss pcb2 < snd_una (send_context pcb2) then
               and_then (tcp_output (pcb2\<lparr>tcb_state := Established\<rparr>) flag_ack [] (snd m)) (\<lambda>(_, pcb3, n1).
               let pcb4 = pcb3\<lparr>send_context := (send_context pcb3)\<lparr>snd_window := seg_window seg,
                                snd_wl1 := seg_seq seg, snd_wl2 := seg_ack seg\<rparr>\<rparr>
               in Ret ((fst m)[pcb_id := pcb4], wake (tcb_sender pcb4) True n1))
             else
               and_then (tcp_output (pcb2\<lparr>tcb_state := SynReceived\<rparr>) flag_syn_ack [] (snd m)) (\<lambda>(_, pcb3, n1).
               Ret ((fst m)[pcb_id := pcb3], n1)))
        else Ret m)"

section \<open>The checks for the other states\<close>

text \<open>First: the sequence number. \<open>&&\<close> and \<open>||\<close> evaluate from the left and stop early.\<close>

definition seq_in_window :: "tcp_recv_context \<Rightarrow> u32 \<Rightarrow> bool exec" where
  "seq_in_window rc seq =
     (if rcv_next rc \<le> seq
      then and_then (checked_add (rcv_next rc) (ucast (rcv_window rc))) (\<lambda>e. Ret (seq < e))
      else Ret False)"

definition last_seq :: "tcp_segment_info \<Rightarrow> u32 exec" where
  "last_seq seg =
     and_then (checked_add (seg_seq seg) (ucast (seg_len seg))) (\<lambda>e. checked_sub e 1)"

definition seg_acceptable :: "tcp_recv_context \<Rightarrow> tcp_segment_info \<Rightarrow> bool exec" where
  "seg_acceptable rc seg =
     (if seg_len seg < 1 then
        (if rcv_window rc < 1 then Ret (seg_seq seg = rcv_next rc) else seq_in_window rc (seg_seq seg))
      else
        (if rcv_window rc < 1 then Ret False
         else
           and_then (seq_in_window rc (seg_seq seg)) (\<lambda>first.
           if first then Ret True
           else and_then (last_seq seg) (\<lambda>l. seq_in_window rc l))))"

definition seg_check_seq ::
  "nat \<Rightarrow> tcp_pcb_state \<Rightarrow> tcp_segment_info \<Rightarrow> u8 \<Rightarrow> tcp_machine \<Rightarrow> (flow \<times> tcp_machine) exec" where
  "seg_check_seq pcb_id st seg flags m =
     (if st \<in> {SynReceived, Established, FinWait1, FinWait2, CloseWait, Closing, LastAck, TimeWait} then
        and_then (pcb_by_id (fst m) pcb_id) (\<lambda>pcb.
        and_then (seg_acceptable (recv_context pcb) seg) (\<lambda>acceptable.
        if acceptable then Ret (Go, m)
        else if tcp_flag_exists flags RST then
          and_then (tcp_output pcb flag_ack [] (snd m)) (\<lambda>(_, pcb', n').
          Ret (Stop, (fst m)[pcb_id := pcb'], n'))
        else Ret (Stop, m)))
      else Ret (Go, m))"

definition seg_release :: "nat \<Rightarrow> tcp_machine \<Rightarrow> (flow \<times> tcp_machine) exec" where
  "seg_release pcb_id m =
     and_then (pcb_by_id (fst m) pcb_id) (\<lambda>pcb.
     let (pcb', n') = release pcb (snd m) in Ret (Stop, (fst m)[pcb_id := pcb'], n'))"

text \<open>Second: the RST bit. The three final states are released whatever the flags are.\<close>

definition seg_check_rst ::
  "nat \<Rightarrow> tcp_pcb_state \<Rightarrow> u8 \<Rightarrow> tcp_machine \<Rightarrow> (flow \<times> tcp_machine) exec" where
  "seg_check_rst pcb_id st flags m =
     (if st = SynReceived then
        (if tcp_flag_exists flags RST then seg_release pcb_id m else Ret (Go, m))
      else if st \<in> {Established, FinWait1, FinWait2, CloseWait} then
        (if tcp_flag_exists flags RST then seg_release pcb_id m else Ret (Go, m))
      else if st \<in> {Closing, LastAck, TimeWait} then seg_release pcb_id m
      else Ret (Go, m))"

text \<open>Fourth: the SYN bit.\<close>

definition seg_check_syn ::
  "nat \<Rightarrow> tcp_pcb_state \<Rightarrow> u8 \<Rightarrow> tcp_machine \<Rightarrow> (flow \<times> tcp_machine) exec" where
  "seg_check_syn pcb_id st flags m =
     (if st \<in> {SynReceived, Established, FinWait1, FinWait2, CloseWait, Closing, LastAck, TimeWait} \<and>
         tcp_flag_exists flags SYN
      then seg_release pcb_id m else Ret (Go, m))"

text \<open>Fifth: the ACK bit, in SYN-RECEIVED.\<close>

definition seg_ack_syn_received ::
  "nat \<Rightarrow> tcp_segment_info \<Rightarrow> ip_endpoint \<Rightarrow> ip_endpoint \<Rightarrow> tcp_machine \<Rightarrow> (flow \<times> tcp_machine) exec" where
  "seg_ack_syn_received pcb_id seg loc rem m =
     and_then (pcb_by_id (fst m) pcb_id) (\<lambda>pcb.
     let sc = send_context pcb
     in if snd_una sc \<le> seg_ack seg \<and> seg_ack seg \<le> snd_next sc then
          let pcbs1 = (fst m)[pcb_id := pcb\<lparr>tcb_state := Established\<rparr>];
              n1 = wake (tcb_sender pcb) True (snd m)
          in (case parent_id pcb of
                None \<Rightarrow> Ret (Go, pcbs1, n1)
              | Some p \<Rightarrow>
                  and_then (pcb_by_id pcbs1 p) (\<lambda>parent.
                  Ret (Go, pcbs1[p := add_backlog pcb_id parent], wake (tcb_sender parent) True n1)))
        else
          and_then (seg_reply (seg_ack seg) 0 flag_rst loc rem m) (\<lambda>m'. Ret (Stop, m')))"

text \<open>Fifth: the ACK bit, in the synchronized states that still send.\<close>

definition ack_update :: "tcp_segment_info \<Rightarrow> tcp_pcb \<Rightarrow> tcp_pcb" where
  "ack_update seg pcb =
     (let pcb1 = clean_data_queue (pcb\<lparr>send_context := (send_context pcb)\<lparr>snd_una := seg_ack seg\<rparr>\<rparr>);
          sc = send_context pcb1
      in if snd_wl1 sc < seg_seq seg \<or> (snd_wl1 sc = seg_seq seg \<and> snd_wl2 sc \<le> seg_ack seg)
         then pcb1\<lparr>send_context := sc\<lparr>snd_window := seg_window seg, snd_wl1 := seg_seq seg, snd_wl2 := seg_ack seg\<rparr>\<rparr>
         else pcb1)"

definition seg_ack_synchronized ::
  "nat \<Rightarrow> tcp_pcb_state \<Rightarrow> tcp_segment_info \<Rightarrow> tcp_machine \<Rightarrow> (flow \<times> tcp_machine) exec" where
  "seg_ack_synchronized pcb_id st seg m =
     and_then (pcb_by_id (fst m) pcb_id) (\<lambda>pcb.
     let sc = send_context pcb;
         fresh = (snd_una sc < seg_ack seg \<and> seg_ack seg \<le> snd_next sc)
     in if \<not> fresh \<and> \<not> seg_ack seg < snd_una sc \<and> snd_next sc < seg_ack seg then
          and_then (tcp_output pcb flag_ack [] (snd m)) (\<lambda>(_, pcb', n').
          Ret (Stop, (fst m)[pcb_id := pcb'], n'))
        else
          let pcb1 = (if fresh then ack_update seg pcb else pcb)
          in if st = Closing \<and> seg_ack seg = snd_next (send_context pcb1) then
               let (pcb2, n1) = set_wait_time (pcb1\<lparr>tcb_state := TimeWait\<rparr>) (snd m)
               in Ret (Go, (fst m)[pcb_id := pcb2], wake (tcb_sender pcb2) True n1)
             else Ret (Go, (fst m)[pcb_id := pcb1], snd m))"

definition seg_check_ack ::
  "nat \<Rightarrow> tcp_pcb_state \<Rightarrow> tcp_segment_info \<Rightarrow> u8 \<Rightarrow> ip_endpoint \<Rightarrow> ip_endpoint \<Rightarrow> tcp_machine
   \<Rightarrow> (flow \<times> tcp_machine) exec" where
  "seg_check_ack pcb_id st seg flags loc rem m =
     (if \<not> tcp_flag_exists flags ACK then Ret (Stop, m)
      else if st = SynReceived then seg_ack_syn_received pcb_id seg loc rem m
      else if st \<in> {Established, FinWait1, FinWait2, CloseWait, Closing}
      then seg_ack_synchronized pcb_id st seg m
      else if st = LastAck then
        and_then (pcb_by_id (fst m) pcb_id) (\<lambda>pcb.
        if seg_ack seg = snd_next (send_context pcb) then seg_release pcb_id m else Ret (Stop, m))
      else if st = TimeWait \<and> tcp_flag_exists flags FIN then
        and_then (pcb_by_id (fst m) pcb_id) (\<lambda>pcb.
        let (pcb', n') = set_wait_time pcb (snd m) in Ret (Go, (fst m)[pcb_id := pcb'], n'))
      else Ret (Go, m))"

text \<open>Seventh: the segment text.\<close>

definition seg_text ::
  "nat \<Rightarrow> tcp_pcb_state \<Rightarrow> tcp_segment_info \<Rightarrow> bytes \<Rightarrow> nat \<Rightarrow> tcp_machine \<Rightarrow> tcp_machine exec" where
  "seg_text pcb_id st seg data len m =
     (if st \<in> {Established, FinWait1, FinWait2} then
        and_then (pcb_by_id (fst m) pcb_id) (\<lambda>pcb.
        if 0 < len then
          and_then (checked_add (seg_seq seg) (ucast (seg_len seg))) (\<lambda>next.
          and_then (checked_sub (rcv_window (recv_context pcb)) (of_nat len)) (\<lambda>win.
          let pcb1 = pcb\<lparr>buf := buf pcb @ data,
                         recv_context := (recv_context pcb)\<lparr>rcv_next := next, rcv_window := win\<rparr>\<rparr>
          in and_then (tcp_output pcb1 flag_ack [] (snd m)) (\<lambda>(_, pcb2, n1).
             Ret ((fst m)[pcb_id := pcb2], wake (tcb_sender pcb2) True n1))))
        else Ret m)
      else Ret m)"

text \<open>Eighth: the FIN bit.\<close>

definition seg_fin ::
  "nat \<Rightarrow> tcp_pcb_state \<Rightarrow> tcp_segment_info \<Rightarrow> u8 \<Rightarrow> tcp_machine \<Rightarrow> tcp_machine exec" where
  "seg_fin pcb_id st seg flags m =
     (if tcp_flag_exists flags FIN then
        and_then (pcb_by_id (fst m) pcb_id) (\<lambda>pcb.
        if st \<in> {Closed, Listen, SynSent} then Ret m
        else
          and_then (checked_add (seg_seq seg) 1) (\<lambda>next.
          and_then (tcp_output (pcb\<lparr>recv_context := (recv_context pcb)\<lparr>rcv_next := next\<rparr>\<rparr>) flag_ack [] (snd m))
            (\<lambda>(_, pcb1, n1).
          let put = (\<lambda>(p, n). Ret ((fst m)[pcb_id := p], n))
          in if st \<in> {SynReceived, Established} then
               put (pcb1\<lparr>tcb_state := CloseWait\<rparr>, wake (tcb_sender pcb1) True n1)
             else if st = FinWait1 then
               (if seg_ack seg = snd_next (send_context pcb1)
                then put (set_wait_time (pcb1\<lparr>tcb_state := TimeWait\<rparr>) n1)
                else put (pcb1\<lparr>tcb_state := Closing\<rparr>, n1))
             else if st = FinWait2 then put (pcb1\<lparr>tcb_state := TimeWait\<rparr>, n1)
             else if st = TimeWait then put (set_wait_time pcb1 n1)
             else put (pcb1, n1))))
      else Ret m)"

section \<open>Segment arrival\<close>

definition flow_then ::
  "(flow \<times> tcp_machine) exec \<Rightarrow> (tcp_machine \<Rightarrow> tcp_machine exec) \<Rightarrow> tcp_machine exec" where
  "flow_then r f = and_then r (\<lambda>(fl, m). if fl = Stop then Ret m else f m)"

definition segment_arrives ::
  "tcp_segment_info \<Rightarrow> u8 \<Rightarrow> bytes \<Rightarrow> nat \<Rightarrow> ip_endpoint \<Rightarrow> ip_endpoint \<Rightarrow> tcp_machine \<Rightarrow> tcp_machine exec" where
  "segment_arrives seg flags data len loc rem m =
     (case tcp_select (fst m) loc (Some rem) of
        None \<Rightarrow> seg_closed seg flags loc rem m
      | Some i \<Rightarrow>
          let st = tcb_state (fst m ! i) in
          if st = Closed then seg_closed seg flags loc rem m
          else if st = Listen then seg_listen i (tcb_mode (fst m ! i)) seg flags loc rem m
          else if st = SynSent then seg_syn_sent i seg flags loc rem m
          else
            flow_then (seg_check_seq i st seg flags m) (\<lambda>m1.
            flow_then (seg_check_rst i st flags m1) (\<lambda>m2.
            flow_then (seg_check_syn i st flags m2) (\<lambda>m3.
            flow_then (seg_check_ack i st seg flags loc rem m3) (\<lambda>m4.
            and_then (seg_text i st seg data len m4) (\<lambda>m5.
            seg_fin i st seg flags m5))))))"

text \<open>The segment a header describes; SYN and FIN count one octet each.\<close>

definition segment_length :: "nat \<Rightarrow> u8 \<Rightarrow> nat" where
  "segment_length text_len flags =
     text_len + (if tcp_flag_exists flags SYN then 1 else 0) + (if tcp_flag_exists flags FIN then 1 else 0)"

definition tcp_input ::
  "bytes \<Rightarrow> nat \<Rightarrow> ip_address \<Rightarrow> ip_address \<Rightarrow> ip_interface \<Rightarrow> tcp_machine \<Rightarrow> (unit result \<times> tcp_machine) exec" where
  "tcp_input data len src dst iface m =
     and_then (bytes_to_struct TCP_HDR_SIZE tcp_header_read data) (\<lambda>header.
     if len < TCP_HDR_SIZE then Fault Panicked
     else
       and_then (pseudo_sum src dst Tcp (le_to_be_u16 (of_nat len))) (\<lambda>ps.
       and_then (cksum16 data len ps) (\<lambda>c.
       if c \<noteq> 0 then Ret (Err, m)
       else if src = IP_ADDR_ANY \<or> src = broadcast iface \<or> dst = IP_ADDR_ANY \<or> dst = broadcast iface
       then Fault Panicked
       else
         let loc = \<lparr>ep_address = dst, ep_port = tcp_dst_port header\<rparr>;
             rem = \<lparr>ep_address = src, ep_port = tcp_src_port header\<rparr>;
             header_len = unat (push_bit 2 (drop_bit 4 (tcp_offset header)))
         in and_then (usize_sub len header_len) (\<lambda>text_len.
            let seg = \<lparr>seg_seq = be_to_le_u32 (tcp_seq_num header), seg_ack = be_to_le_u32 (tcp_ack_num header),
                       seg_len = of_nat (segment_length text_len (tcp_flags header)),
                       seg_window = be_to_le_u16 (tcp_window header), seg_urg = be_to_le_u16 (tcp_urg_ptr header)\<rparr>
            in and_then (slice_from data TCP_HDR_SIZE) (\<lambda>text.
               and_then (segment_arrives seg (tcp_flags header) text text_len loc rem m) (\<lambda>m'.
               Ret (Ok (), m')))))))"


section \<open>The invariant of the table\<close>

text \<open>
  The states of the active close are never entered: \<open>close\<close> resets the connection instead
  of sending a FIN. In every state that sends, \<open>una\<close> does not pass \<open>next\<close>. A free block
  has nothing queued for retransmission, and the references between blocks stay inside the
  table. (The backlog of a free block need not be empty: a child that completes its
  handshake after its parent was closed is still added there.)
\<close>

definition live_state :: "tcp_pcb_state \<Rightarrow> bool" where
  "live_state st \<longleftrightarrow> st \<notin> {FinWait1, FinWait2, Closing, LastAck, TimeWait}"

definition tcp_pcb_ok :: "tcp_pcb \<Rightarrow> bool" where
  "tcp_pcb_ok p \<longleftrightarrow> live_state (tcb_state p) \<and>
     (tcb_state p \<in> {SynSent, SynReceived, Established, CloseWait} \<longrightarrow>
        snd_una (send_context p) \<le> snd_next (send_context p)) \<and>
     (tcb_state p = Free \<longrightarrow> data_queue p = []) \<and>
     (\<forall>b \<in> set (backlog p). b < TCP_PCB_COUNT) \<and> (\<forall>i. parent_id p = Some i \<longrightarrow> i < TCP_PCB_COUNT)"

definition tcp_wf :: "tcp_pcbs \<Rightarrow> bool" where
  "tcp_wf pcbs \<longleftrightarrow> length pcbs = TCP_PCB_COUNT \<and> (\<forall>p \<in> set pcbs. tcp_pcb_ok p)"

lemmas pcb_ok_defs = tcp_pcb_ok_def live_state_def

lemma tcp_wf_new: "tcp_wf tcp_pcbs_new"
  by (simp add: tcp_wf_def tcp_pcbs_new_def tcp_pcb_new_def pcb_ok_defs)

lemma tcp_wf_update [intro]: "tcp_wf pcbs \<Longrightarrow> tcp_pcb_ok p \<Longrightarrow> tcp_wf (pcbs[i := p])"
  using set_update_subset_insert [of pcbs i p] by (auto simp: tcp_wf_def)

lemma tcp_wf_nth: "tcp_wf pcbs \<Longrightarrow> i < length pcbs \<Longrightarrow> tcp_pcb_ok (pcbs ! i)"
  by (simp add: tcp_wf_def)

lemma pcb_by_id_Ret_iff [exec_simps]: "pcb_by_id pcbs i = Ret p \<longleftrightarrow> i < length pcbs \<and> p = pcbs ! i"
  by (auto simp: pcb_by_id_def get_mut_by_id_def)

lemma checked_add_le: "checked_add a b = Ret c \<Longrightarrow> a \<le> c"
  using checked_add_unat [of a b c] by (simp add: word_le_nat_alt)

lemma tcp_output_plain_pcb:
  assumes "tcp_output pcb flags [] n = Ret (len, pcb', n')" "flags = flag_ack \<or> flags = flag_rst"
  shows "pcb' = pcb"
proof -
  have "\<not> tcp_flag_exists flags SYN" "\<not> tcp_flag_exists flags FIN"
    using assms(2) by (auto simp: flag_bytes)
  with assms(1) show ?thesis by (auto simp: tcp_output_plain exec_simps)
qed

lemma seg_reply_wf: "seg_reply seq ack flags loc rem m = Ret m' \<Longrightarrow> fst m' = fst m"
  by (auto simp: seg_reply_def exec_simps)

lemma seg_closed_wf: "seg_closed seg flags loc rem m = Ret m' \<Longrightarrow> fst m' = fst m"
  by (auto simp: seg_closed_def exec_simps dest: seg_reply_wf split: if_splits)

lemma new_entry_wf:
  assumes "tcp_wf pcbs" "new_entry pcbs = Some (i, pcbs')"
  shows "tcp_wf pcbs' \<and> i < TCP_PCB_COUNT \<and> tcb_state (pcbs' ! i) = Closed"
proof -
  have i: "i < length pcbs" "tcb_state (pcbs ! i) = Free" "pcbs' = pcbs[i := (pcbs ! i)\<lparr>tcb_state := Closed\<rparr>]"
    using tcp_table.alloc_Some [OF assms(2)] by auto
  moreover have "tcp_pcb_ok ((pcbs ! i)\<lparr>tcb_state := Closed\<rparr>)"
    using tcp_wf_nth [OF assms(1) i(1)] by (simp add: pcb_ok_defs)
  ultimately show ?thesis using assms(1) by (auto simp: tcp_wf_def dest: set_update_subset_insert [THEN subsetD])
qed

lemma release_fst_ok: "tcp_pcb_ok p \<Longrightarrow> tcp_pcb_ok (fst (release p w))"
  by (simp add: release_def pcb_ok_defs)

lemma release_ok: "tcp_pcb_ok p \<Longrightarrow> release p w = (p', w') \<Longrightarrow> tcp_pcb_ok p'"
  using release_fst_ok [of p w] by simp

lemma seg_release_wf:
  "tcp_wf (fst m) \<Longrightarrow> seg_release i m = Ret (fl, m') \<Longrightarrow> tcp_wf (fst m') \<and> fl = Stop"
  by (auto simp: seg_release_def exec_simps intro!: tcp_wf_update
      intro: release_ok [OF tcp_wf_nth] split: prod.splits)

text \<open>Entering a state that sends.\<close>

lemma sending_ok:
  assumes "tcp_pcb_ok p" "st \<in> {SynSent, SynReceived, Established, CloseWait}" "snd_una sc \<le> snd_next sc"
  shows "tcp_pcb_ok (p\<lparr>send_context := sc, tcb_state := st\<rparr>)"
  using assms by (auto simp: pcb_ok_defs)

lemma word_le_plus1: "unat (a :: u32) < 4294967295 \<Longrightarrow> a \<le> a + 1"
  using checked_add_le [of a 1 "a + 1"] by (simp add: checked_add_def)

lemma tcp_output_ok:
  assumes "tcp_output p flags data n = Ret (len, p', n')" "tcp_pcb_ok p" "tcb_state p \<noteq> Free"
  shows "tcp_pcb_ok p' \<and> tcb_state p' = tcb_state p \<and> iss p' = iss p \<and> send_context p' = send_context p"
proof -
  obtain q where p': "p' = p\<lparr>data_queue := data_queue p @ q\<rparr>" using tcp_output_frame(1) [OF assms(1)] by blast
  show ?thesis using assms(2,3) unfolding p' by (simp add: pcb_ok_defs)
qed

lemma listen_target_wf:
  assumes "tcp_wf pcbs" "i < length pcbs" "listen_target i mode pcbs = Ret (j, pcbs')"
    "tcb_state (pcbs ! i) = Listen"
  shows "tcp_wf pcbs' \<and> j < length pcbs' \<and> tcb_state (pcbs' ! j) \<in> {Closed, Listen}"
proof (cases "mode = Socket")
  case True
  with assms(3) obtain ps where new: "new_entry pcbs = Some (j, ps)"
    and pcbs': "pcbs' = ps[j := (ps ! j)\<lparr>tcb_mode := Socket, parent_id := Some i\<rparr>]"
    by (auto simp: listen_target_def exec_simps)
  from new_entry_wf [OF assms(1) new] have j: "tcp_wf ps" "j < TCP_PCB_COUNT" "tcb_state (ps ! j) = Closed" by auto
  then have "tcp_pcb_ok ((ps ! j)\<lparr>tcb_mode := Socket, parent_id := Some i\<rparr>)"
    using tcp_wf_nth [OF j(1), of j] assms(1,2) by (auto simp: tcp_wf_def pcb_ok_defs)
  with j pcbs' show ?thesis by (auto simp: tcp_wf_def dest: set_update_subset_insert [THEN subsetD])
next
  case False
  with assms show ?thesis by (auto simp: listen_target_def exec_simps)
qed

lemma seg_listen_wf:
  assumes "tcp_wf (fst m)" "i < length (fst m)" "tcb_state (fst m ! i) = Listen"
    and "seg_listen i mode seg flags loc rem m = Ret m'"
  shows "tcp_wf (fst m')"
proof (cases "tcp_flag_exists flags RST \<or> tcp_flag_exists flags ACK \<or> \<not> tcp_flag_exists flags SYN")
  case True
  with assms show ?thesis by (auto simp: seg_listen_def dest!: seg_reply_wf split: if_splits)
next
  case False
  with assms(4) obtain j pcbs where t: "listen_target i mode (fst m) = Ret (j, pcbs)"
    by (auto simp: seg_listen_def exec_simps)
  from listen_target_wf [OF assms(1,2) t assms(3)] have w: "tcp_wf pcbs" "j < length pcbs"
    "tcb_state (pcbs ! j) \<in> {Closed, Listen}" by auto
  then have ok: "tcp_pcb_ok ((pcbs ! j)\<lparr>tcb_local := loc, tcb_remote := rem, recv_context := rc, iss := isn\<rparr>)"
    "tcb_state ((pcbs ! j)\<lparr>tcb_local := loc, tcb_remote := rem, recv_context := rc, iss := isn\<rparr>) \<noteq> Free" for rc isn
    using tcp_wf_nth [OF w(1,2)] by (auto simp: pcb_ok_defs)
  show ?thesis
    using assms(4) False t w(1)
    by (auto simp: seg_listen_def gen_range_u32_def exec_simps Let_def word_le_plus1
        intro!: tcp_wf_update sending_ok dest: tcp_output_ok [OF _ ok])
qed


lemma seg_syn_sent_wf:
  assumes "tcp_wf (fst m)" "i < length (fst m)" "tcb_state (fst m ! i) = SynSent"
    and "seg_syn_sent i seg flags loc rem m = Ret m'"
  shows "tcp_wf (fst m')"
proof -
  let ?p = "fst m ! i"
  have p: "tcp_pcb_ok ?p" using assms(1,2) by (rule tcp_wf_nth)
  with assms(3) have una: "snd_una (send_context ?p) \<le> snd_next (send_context ?p)" by (simp add: pcb_ok_defs)
  have ok: "tcp_pcb_ok (syn_update seg acc nxt ?p\<lparr>tcb_state := st\<rparr>)"
    "tcb_state (syn_update seg acc nxt ?p\<lparr>tcb_state := st\<rparr>) \<noteq> Free"
    if "acc \<longrightarrow> seg_ack seg \<le> snd_next (send_context ?p)" "st \<in> {Established, SynReceived}" for nxt acc st
    using that p una by (auto simp: syn_update_def Let_def pcb_ok_defs)
  have est: "tcp_pcb_ok (p3\<lparr>send_context := (send_context p3)\<lparr>snd_window := a, snd_wl1 := b, snd_wl2 := c\<rparr>\<rparr>)"
    if "tcp_pcb_ok p3" for p3 a b c using that by (simp add: pcb_ok_defs)
  show ?thesis
    using assms(1,2,4)
    by (auto simp: seg_syn_sent_def exec_simps Let_def
        dest!: seg_reply_wf dest: tcp_output_ok [OF _ ok] intro!: tcp_wf_update est
        intro: release_ok [OF p] split: if_splits prod.splits)
qed


text \<open>What holds between the checks: \<open>st\<close> is the state read at the start.\<close>

definition arrival_inv :: "nat \<Rightarrow> tcp_pcb_state \<Rightarrow> tcp_machine \<Rightarrow> bool" where
  "arrival_inv i st m \<longleftrightarrow> tcp_wf (fst m) \<and> i < length (fst m) \<and> live_state st \<and>
     (st \<in> {SynReceived, Established, CloseWait} \<longrightarrow>
        tcb_state (fst m ! i) \<in> {SynReceived, Established, CloseWait})"

lemma arrival_inv_ok: "arrival_inv i st m \<Longrightarrow> tcp_pcb_ok (fst m ! i)"
  by (simp add: arrival_inv_def tcp_wf_nth)

lemma arrival_inv_update:
  assumes "arrival_inv i st m" "tcp_pcb_ok p"
    and "st \<in> {SynReceived, Established, CloseWait} \<Longrightarrow> tcb_state p \<in> {SynReceived, Established, CloseWait}"
  shows "arrival_inv i st ((fst m)[i := p], n)"
  using assms by (auto simp: arrival_inv_def)

definition keeps :: "nat \<Rightarrow> tcp_pcb_state \<Rightarrow> tcp_machine \<Rightarrow> (flow \<times> tcp_machine) exec \<Rightarrow> bool" where
  "keeps i st m r \<longleftrightarrow> (arrival_inv i st m \<longrightarrow>
     (\<forall>fl m'. r = Ret (fl, m') \<longrightarrow> tcp_wf (fst m') \<and> (fl = Go \<longrightarrow> arrival_inv i st m')))"

lemma keeps_go [simp]: "keeps i st m (Ret (Go, m))" "keeps i st m (Ret (Stop, m))"
  by (auto simp: keeps_def arrival_inv_def)

lemma keeps_release [simp]: "keeps i st m (seg_release i m)"
  by (auto simp: keeps_def arrival_inv_def dest: seg_release_wf)

lemma keeps_check_seq: "keeps i st m (seg_check_seq i st seg flags m)"
  by (auto simp: keeps_def seg_check_seq_def exec_simps arrival_inv_def
      dest!: tcp_output_plain_pcb split: if_splits)

lemma keeps_check_rst: "keeps i st m (seg_check_rst i st flags m)"
  by (simp add: seg_check_rst_def)

lemma keeps_check_syn: "keeps i st m (seg_check_syn i st flags m)"
  by (simp add: seg_check_syn_def)

lemma established_ok: "tcp_pcb_ok p \<Longrightarrow> tcb_state p \<in> {SynReceived, Established, CloseWait} \<Longrightarrow>
    tcp_pcb_ok (p\<lparr>tcb_state := Established\<rparr>)"
  by (auto simp: pcb_ok_defs)

lemma add_backlog_ok: "tcp_pcb_ok p \<Longrightarrow> i < TCP_PCB_COUNT \<Longrightarrow> tcp_pcb_ok (add_backlog i p)"
  by (auto simp: pcb_ok_defs add_backlog_def)


lemma keeps_ack_syn_received:
  assumes "st = SynReceived"
  shows "keeps i st m (seg_ack_syn_received i seg loc rem m)"
proof -
  { fix fl m'
    assume inv: "arrival_inv i st m" and r: "seg_ack_syn_received i seg loc rem m = Ret (fl, m')"
    let ?p = "fst m ! i"
    let ?pcbs = "(fst m)[i := ?p\<lparr>tcb_state := Established\<rparr>]"
    have i: "i < length (fst m)" "i < TCP_PCB_COUNT" using inv by (auto simp: arrival_inv_def tcp_wf_def)
    have est: "tcp_pcb_ok (?p\<lparr>tcb_state := Established\<rparr>)"
      using inv assms by (intro established_ok arrival_inv_ok) (auto simp: arrival_inv_def)
    have a: "arrival_inv i st (?pcbs, n)" for n
      using inv est by (intro arrival_inv_update) auto
    have b: "arrival_inv i st (?pcbs[j := add_backlog i (?pcbs ! j)], n)" if "j < length ?pcbs" for j n
    proof -
      have wf: "tcp_wf ?pcbs" using a by (simp add: arrival_inv_def)
      have "tcp_wf (?pcbs[j := add_backlog i (?pcbs ! j)])"
        by (rule tcp_wf_update [OF wf add_backlog_ok [OF tcp_wf_nth [OF wf that] i(2)]])
      moreover have "tcb_state (?pcbs[j := add_backlog i (?pcbs ! j)] ! i) = Established"
        using i(1) by (simp add: nth_list_update add_backlog_def)
      ultimately show ?thesis using inv by (simp add: arrival_inv_def)
    qed
    have "tcp_wf (fst m') \<and> (fl = Go \<longrightarrow> arrival_inv i st m')"
    proof (cases "snd_una (send_context ?p) \<le> seg_ack seg \<and> seg_ack seg \<le> snd_next (send_context ?p)")
      case True
      then have "arrival_inv i st m'"
        using r i(1) a b by (cases "parent_id ?p") (auto simp: seg_ack_syn_received_def exec_simps Let_def)
      then show ?thesis by (simp add: arrival_inv_def)
    next
      case False
      then have "fst m' = fst m \<and> fl = Stop"
        using r by (auto simp: seg_ack_syn_received_def exec_simps Let_def dest!: seg_reply_wf)
      then show ?thesis using inv by (simp add: arrival_inv_def)
    qed }
  then show ?thesis by (simp add: keeps_def)
qed


lemma ack_update_ok:
  assumes "tcp_pcb_ok p" "seg_ack seg \<le> snd_next (send_context p)"
  shows "tcp_pcb_ok (ack_update seg p)" "tcb_state (ack_update seg p) = tcb_state p"
  using assms by (auto simp: ack_update_def Let_def pcb_ok_defs clean_data_queue_eq)

lemma keeps_ack_synchronized:
  assumes "st \<noteq> Closing"
  shows "keeps i st m (seg_ack_synchronized i st seg m)"
proof -
  { fix fl m'
    assume inv: "arrival_inv i st m" and r: "seg_ack_synchronized i st seg m = Ret (fl, m')"
    let ?p = "fst m ! i"
    have ok: "tcp_pcb_ok ?p" using inv by (rule arrival_inv_ok)
    have upd: "arrival_inv i st ((fst m)[i := p], n)" if "tcp_pcb_ok p" "tcb_state p = tcb_state ?p" for p n
      using inv that by (intro arrival_inv_update) (auto simp: arrival_inv_def)
    have "arrival_inv i st m'"
      using r assms inv ok upd ack_update_ok [OF ok]
      by (auto simp: seg_ack_synchronized_def exec_simps Let_def dest!: tcp_output_plain_pcb split: if_splits)
    then have "tcp_wf (fst m') \<and> (fl = Go \<longrightarrow> arrival_inv i st m')" by (simp add: arrival_inv_def) }
  then show ?thesis by (simp add: keeps_def)
qed

lemma keeps_check_ack: "keeps i st m (seg_check_ack i st seg flags loc rem m)"
proof (cases "live_state st")
  case True
  then have "st \<noteq> Closing" "st \<noteq> LastAck" "st \<noteq> TimeWait" by (auto simp: live_state_def)
  then show ?thesis
    by (auto simp: seg_check_ack_def keeps_ack_syn_received keeps_ack_synchronized)
next
  case False
  then show ?thesis by (simp add: keeps_def arrival_inv_def)
qed

lemma seg_text_inv:
  assumes "arrival_inv i st m" "seg_text i st seg data len m = Ret m'"
  shows "arrival_inv i st m'"
proof -
  let ?p = "fst m ! i"
  have ok: "tcp_pcb_ok ?p" using assms(1) by (rule arrival_inv_ok)
  then have "tcp_pcb_ok (?p\<lparr>buf := b, recv_context := rc\<rparr>)" for b rc by (simp add: pcb_ok_defs)
  then have "arrival_inv i st ((fst m)[i := ?p\<lparr>buf := b, recv_context := rc\<rparr>], n)" for b rc n
    using assms(1) by (intro arrival_inv_update) (auto simp: arrival_inv_def)
  with assms show ?thesis
    by (auto simp: seg_text_def exec_simps Let_def dest!: tcp_output_plain_pcb split: if_splits)
qed

lemma seg_fin_wf:
  assumes "arrival_inv i st m" "seg_fin i st seg flags m = Ret m'"
  shows "tcp_wf (fst m')"
proof -
  let ?p = "fst m ! i"
  have wf: "tcp_wf (fst m)" and live: "st \<notin> {FinWait1, FinWait2, TimeWait}"
    using assms(1) by (auto simp: arrival_inv_def live_state_def)
  have ok: "tcp_pcb_ok ?p" using assms(1) by (rule arrival_inv_ok)
  have plain: "tcp_pcb_ok (?p\<lparr>recv_context := rc\<rparr>)" for rc using ok by (simp add: pcb_ok_defs)
  have cw: "tcp_pcb_ok (?p\<lparr>recv_context := rc, tcb_state := CloseWait\<rparr>)" if "st \<in> {SynReceived, Established}" for rc
    using ok that assms(1) by (auto simp: pcb_ok_defs arrival_inv_def)
  show ?thesis
  proof (cases "st \<in> {SynReceived, Established}")
    case True
    with assms(2) wf live cw show ?thesis
      by (auto simp: seg_fin_def exec_simps Let_def dest!: tcp_output_plain_pcb intro!: tcp_wf_update
          split: if_splits)
  next
    case False
    with assms(2) wf live plain show ?thesis
      by (auto simp: seg_fin_def exec_simps Let_def dest!: tcp_output_plain_pcb intro!: tcp_wf_update
          split: if_splits)
  qed
qed

lemma flow_then_wf:
  assumes "arrival_inv i st m" "keeps i st m r" "flow_then r f = Ret m'"
    and "\<And>m1. arrival_inv i st m1 \<Longrightarrow> f m1 = Ret m' \<Longrightarrow> tcp_wf (fst m')"
  shows "tcp_wf (fst m')"
proof -
  from assms(3) obtain fl m1 where r: "r = Ret (fl, m1)" "(if fl = Stop then Ret m1 else f m1) = Ret m'"
    by (auto simp: flow_then_def exec_simps)
  with assms(1,2) have inv: "tcp_wf (fst m1)" "fl = Go \<longrightarrow> arrival_inv i st m1"
    by (cases m1, force simp: keeps_def)+
  show ?thesis
  proof (cases fl)
    case Go
    with r(2) inv(2) show ?thesis by (auto intro: assms(4))
  qed (use r(2) inv(1) in simp)
qed

lemma segment_arrives_wf:
  assumes "tcp_wf (fst m)" "segment_arrives seg flags data len loc rem m = Ret m'"
  shows "tcp_wf (fst m')"
proof (cases "tcp_select (fst m) loc (Some rem)")
  case None
  with assms show ?thesis by (auto simp: segment_arrives_def dest: seg_closed_wf)
next
  case (Some i)
  let ?st = "tcb_state (fst m ! i)"
  have i: "i < length (fst m)" using Some by (rule tcp_select_length)
  consider "?st = Closed" | "?st = Listen" | "?st = SynSent" | "?st \<notin> {Closed, Listen, SynSent}" by blast
  then show ?thesis
  proof cases
    case 4
    have inv: "arrival_inv i ?st m"
      using assms(1) i tcp_wf_nth [OF assms(1) i] by (auto simp: arrival_inv_def tcp_pcb_ok_def)
    from assms(2) Some 4 have "flow_then (seg_check_seq i ?st seg flags m) (\<lambda>m1.
            flow_then (seg_check_rst i ?st flags m1) (\<lambda>m2.
            flow_then (seg_check_syn i ?st flags m2) (\<lambda>m3.
            flow_then (seg_check_ack i ?st seg flags loc rem m3) (\<lambda>m4.
            and_then (seg_text i ?st seg data len m4) (\<lambda>m5. seg_fin i ?st seg flags m5))))) = Ret m'"
      by (simp add: segment_arrives_def Let_def)
    then show ?thesis
      by (rule flow_then_wf [OF inv keeps_check_seq])
        (erule (1) flow_then_wf [OF _ keeps_check_rst], erule (1) flow_then_wf [OF _ keeps_check_syn],
         erule (1) flow_then_wf [OF _ keeps_check_ack], auto simp: exec_simps dest: seg_text_inv seg_fin_wf)
  qed (use assms Some i in \<open>auto simp: segment_arrives_def Let_def
      dest: seg_closed_wf seg_listen_wf seg_syn_sent_wf\<close>)
qed

lemma tcp_input_wf:
  assumes "tcp_wf (fst m)" "tcp_input data len src dst iface m = Ret (r, m')"
  shows "tcp_wf (fst m')"
  using assms by (auto simp: tcp_input_def exec_simps Let_def dest: segment_arrives_wf split: if_splits)

end
