(* ===== verification/Tcp_User.thy ===== *)
theory Tcp_User
  imports Tcp_Input
begin

text \<open>
  \<^verbatim>\<open>src/src/protocols/ip/tcp.rs\<close>, third part: the user commands.

  A command that may sleep is cut where it waits on its channel: \<open>..._begin\<close> runs up to
  the first wait, \<open>..._resume\<close> is one pass of the waiting loop. The table is locked
  inside a pass only, so other threads run between the passes, never inside. A pass that
  finds the channel empty, or that goes around the loop again, answers \<open>Sleeping\<close>.
\<close>

section \<open>Opening\<close>

text \<open>The SYN of an active open, common to \<open>rfc793_open\<close> and \<open>connect\<close>.\<close>

definition send_syn :: "tcp_pcb \<Rightarrow> net \<Rightarrow> (tcp_pcb \<times> net) exec" where
  "send_syn pcb n =
     (let (isn, n1) = gen_range_u32 n;
          pcb1 = pcb\<lparr>recv_context := (recv_context pcb)\<lparr>rcv_window := of_nat PCB_BUF_LEN\<rparr>, iss := isn\<rparr>
      in and_then (tcp_output pcb1 flag_syn [] n1) (\<lambda>(_, pcb2, n2).
         and_then (checked_add (iss pcb2) 1) (\<lambda>next.
         Ret (pcb2\<lparr>send_context := (send_context pcb2)\<lparr>snd_una := iss pcb2, snd_next := next\<rparr>,
                   tcb_state := SynSent\<rparr>, n2))))"

definition rfc793_open_begin ::
  "ip_endpoint \<Rightarrow> ip_endpoint option \<Rightarrow> bool \<Rightarrow> tcp_machine \<Rightarrow> (nat \<times> nat \<times> tcp_machine) exec" where
  "rfc793_open_begin loc remote_opt active m =
     (let (c, n1) = mpsc_channel (snd m)
      in and_then (unwrap_option (new_entry (fst m))) (\<lambda>(i, pcbs).
         let pcb = (pcbs ! i)\<lparr>tcb_mode := Rfc793, tcb_local := loc, tcb_sender := Some c\<rparr>;
             n2 = drop_sender (tcb_sender (pcbs ! i)) n1;
             pcb1 = (case remote_opt of None \<Rightarrow> pcb | Some r \<Rightarrow> pcb\<lparr>tcb_remote := r\<rparr>)
         in if \<not> active then Ret (i, c, pcbs[i := pcb1\<lparr>tcb_state := Listen\<rparr>], n2)
            else and_then (send_syn pcb1 n2) (\<lambda>(pcb2, n3). Ret (i, c, pcbs[i := pcb2], n3))))"

definition rfc793_open_resume ::
  "nat \<Rightarrow> nat \<Rightarrow> tcp_pcbs \<times> 'z world_scheme \<Rightarrow> (nat option blocking \<times> tcp_pcbs \<times> 'z world_scheme) exec" where
  "rfc793_open_resume c pcb_id m =
     (let (msg, n1) = chan_recv c (snd m)
      in case msg of
           Blocked \<Rightarrow> Ret (Sleeping, fst m, n1)
         | Disconnected \<Rightarrow> Fault UnwrapFailed
         | Message proceed \<Rightarrow>
             and_then (pcb_by_id (fst m) pcb_id) (\<lambda>pcb.
             if tcb_state pcb = Established then Ret (Returned (Some pcb_id), fst m, drop_receiver c n1)
             else if \<not> proceed \<or> tcb_state pcb \<noteq> SynReceived then
               let (pcb', n2) = release pcb n1
               in Ret (Returned None, (fst m)[pcb_id := pcb'], drop_receiver c n2)
             else Ret (Sleeping, fst m, n1)))"

definition tcp_open :: "tcp_pcbs \<Rightarrow> (nat \<times> tcp_pcbs) exec" where
  "tcp_open pcbs =
     and_then (unwrap_option (new_entry pcbs)) (\<lambda>(i, pcbs').
     Ret (i, pcbs'[i := (pcbs' ! i)\<lparr>tcb_mode := Socket\<rparr>]))"

text \<open>
  The port search of \<open>connect\<close>: the loop leaves the first free port in \<open>local.port\<close>, or
  the last one it tried.
\<close>

definition connect_port :: "tcp_pcbs \<Rightarrow> ip_endpoint \<Rightarrow> ip_endpoint \<Rightarrow> u16" where
  "connect_port pcbs loc rem =
     (case first_free_port (\<lambda>p. tcp_select pcbs (loc\<lparr>ep_port := p\<rparr>) (Some rem) \<noteq> None)
             TCP_SRC_PORT_MIN TCP_SRC_PORT_MAX of
        Some p \<Rightarrow> p
      | None \<Rightarrow> of_nat (TCP_SRC_PORT_MAX - 1))"

definition connect_begin ::
  "nat \<Rightarrow> ip_endpoint \<Rightarrow> tcp_machine \<Rightarrow> (nat \<times> tcp_machine) exec" where
  "connect_begin pcb_id remote m =
     and_then (pcb_by_id (fst m) pcb_id) (\<lambda>pcb.
     if tcb_mode pcb \<noteq> Socket then Fault Panicked
     else
       let loc0 = ip_endpoint_new (ep_address (tcb_local pcb)) (ep_port (tcb_local pcb))
       in and_then
            (if ep_address loc0 = IP_ADDR_ANY
             then and_then (unwrap_option (routes_get_interface (ctx_ip_routes (contexts (snd m))) (ep_address remote)))
                    (\<lambda>interface. Ret (loc0\<lparr>ep_address := unicast interface\<rparr>))
             else Ret loc0) (\<lambda>loc1.
          let loc2 = (if ep_port loc1 = 0 then loc1\<lparr>ep_port := connect_port (fst m) loc1 remote\<rparr> else loc1)
          in if ep_port loc2 = 0 then Fault Panicked
             else
               let (c, n1) = mpsc_channel (snd m);
                   pcb1 = pcb\<lparr>tcb_local := loc2,
                               tcb_remote := \<lparr>ep_address = ep_address remote, ep_port = ep_port remote\<rparr>\<rparr>
               in and_then (send_syn pcb1 n1) (\<lambda>(pcb2, n2).
                  Ret (c, (fst m)[pcb_id := pcb2\<lparr>tcb_sender := Some c\<rparr>], drop_sender (tcb_sender pcb2) n2))))"

definition connect_resume ::
  "nat \<Rightarrow> nat \<Rightarrow> tcp_machine \<Rightarrow> (nat option blocking \<times> tcp_machine) exec" where
  "connect_resume c pcb_id m =
     (let (msg, n1) = chan_recv c (snd m);
          give_up = (\<lambda>pcb. Ret (Returned None, (fst m)[pcb_id := pcb\<lparr>tcb_state := Closed\<rparr>], drop_receiver c n1))
      in case msg of
           Blocked \<Rightarrow> Ret (Sleeping, fst m, n1)
         | Disconnected \<Rightarrow> Fault UnwrapFailed
         | Message wakeup \<Rightarrow>
             and_then (pcb_by_id (fst m) pcb_id) (\<lambda>pcb.
             if \<not> wakeup then give_up pcb
             else if tcb_state pcb = Established then Ret (Returned (Some pcb_id), fst m, drop_receiver c n1)
             else if tcb_state pcb \<noteq> SynReceived then give_up pcb
             else Ret (Sleeping, fst m, n1)))"

definition tcp_bind :: "nat \<Rightarrow> ip_endpoint \<Rightarrow> tcp_pcbs \<Rightarrow> tcp_pcbs exec" where
  "tcp_bind pcb_id loc pcbs =
     (if tcp_select pcbs loc None \<noteq> None then Fault Panicked
      else
        and_then (pcb_by_id pcbs pcb_id) (\<lambda>pcb.
        if tcb_mode pcb \<noteq> Socket then Fault Panicked
        else Ret (pcbs[pcb_id := pcb\<lparr>tcb_local := loc\<rparr>])))"

definition tcp_listen :: "nat \<Rightarrow> tcp_pcbs \<Rightarrow> tcp_pcbs exec" where
  "tcp_listen pcb_id pcbs =
     and_then (pcb_by_id pcbs pcb_id) (\<lambda>pcb.
     if tcb_mode pcb \<noteq> Socket then Fault Panicked
     else Ret (pcbs[pcb_id := pcb\<lparr>tcb_state := Listen\<rparr>]))"

section \<open>Accepting\<close>

text \<open>The loop variables of \<open>accept\<close>.\<close>

record accept_loop =
  backlog_id :: "nat option"
  next_backlog :: "nat option"

definition pop_backlog :: "tcp_pcb \<Rightarrow> nat option \<times> tcp_pcb" where
  "pop_backlog pcb =
     (case backlog pcb of [] \<Rightarrow> (None, pcb) | b # bs \<Rightarrow> (Some b, pcb\<lparr>backlog := bs\<rparr>))"

definition accept_begin ::
  "nat \<Rightarrow> tcp_machine \<Rightarrow> (nat \<times> accept_loop \<times> tcp_machine) exec" where
  "accept_begin pcb_id m =
     (let (c, n1) = mpsc_channel (snd m)
      in and_then (pcb_by_id (fst m) pcb_id) (\<lambda>pcb.
         if tcb_mode pcb \<noteq> Socket then Fault Panicked
         else if tcb_state pcb \<noteq> Listen then Fault Panicked
         else
           let (b, pcb1) = pop_backlog (pcb\<lparr>tcb_sender := Some c\<rparr>)
           in Ret (c, \<lparr>backlog_id = None, next_backlog = b\<rparr>, (fst m)[pcb_id := pcb1],
                   drop_sender (tcb_sender pcb) n1)))"

definition accept_resume ::
  "nat \<Rightarrow> nat \<Rightarrow> accept_loop \<Rightarrow> tcp_machine \<Rightarrow> (nat option blocking \<times> accept_loop \<times> tcp_machine) exec" where
  "accept_resume c pcb_id l m =
     (case next_backlog l of
        None \<Rightarrow> Ret (Returned (backlog_id l), l, fst m, drop_receiver c (snd m))
      | Some b \<Rightarrow>
          let (msg, n1) = chan_recv c (snd m)
          in case msg of
               Blocked \<Rightarrow> Ret (Sleeping, l, fst m, n1)
             | Disconnected \<Rightarrow> Fault UnwrapFailed
             | Message False \<Rightarrow> Ret (Returned None, l, fst m, drop_receiver c n1)
             | Message True \<Rightarrow>
                 and_then (pcb_by_id (fst m) pcb_id) (\<lambda>pcb.
                 if tcb_state pcb = Closed then Ret (Returned None, l, fst m, drop_receiver c n1)
                 else
                   let (b', pcb1) = pop_backlog pcb
                   in Ret (Sleeping, \<lparr>backlog_id = Some b, next_backlog = b'\<rparr>, (fst m)[pcb_id := pcb1], n1)))"

section \<open>Sending\<close>

text \<open>
  The capacity is computed from the window, \<open>next\<close> and \<open>una\<close> read before the inner
  loop. A pass ends with everything sent, waiting for the window, or without result.
\<close>

datatype send_status = AllSent | AwaitWindow | NotSent

definition send_capacity :: "u16 \<Rightarrow> u32 \<Rightarrow> u32 \<Rightarrow> nat exec" where
  "send_capacity window next una =
     and_then (checked_sub next una) (\<lambda>flight.
     and_then (checked_sub (ucast window) flight) (\<lambda>c. Ret (unat c)))"

partial_function (option) send_segments ::
  "nat \<Rightarrow> bytes \<Rightarrow> nat \<Rightarrow> nat exec \<Rightarrow> nat \<Rightarrow> tcp_machine \<Rightarrow> (send_status \<times> nat \<times> tcp_machine) exec option" where
  "send_segments pcb_id data mss cap sent m =
     (if sent < length data then
        (case cap of
           Fault e \<Rightarrow> Some (Fault e)
         | Ret capacity \<Rightarrow>
             if capacity < 1 then Some (Ret (AwaitWindow, sent, m))
             else
               (case pcb_by_id (fst m) pcb_id of
                  Fault e \<Rightarrow> Some (Fault e)
                | Ret pcb \<Rightarrow>
                    (case tcp_output pcb (tcp_flag_as_u8 ACK OR tcp_flag_as_u8 PSH) (drop sent data) (snd m) of
                       Fault e \<Rightarrow> Some (Fault e)
                     | Ret (_, pcb1, n1) \<Rightarrow>
                         let send_len = min (min mss (length data - sent)) capacity in
                         (case checked_add (snd_next (send_context pcb1)) (of_nat send_len) of
                            Fault e \<Rightarrow> Some (Fault e)
                          | Ret next \<Rightarrow>
                              send_segments pcb_id data mss cap (sent + send_len)
                                ((fst m)[pcb_id := pcb1\<lparr>send_context := (send_context pcb1)\<lparr>snd_next := next\<rparr>\<rparr>], n1)))))
      else Some (Ret (AllSent, sent, m)))"

text \<open>The receiver lives until the command returns.\<close>

definition send_exit :: "nat \<Rightarrow> (send_status \<times> nat \<times> tcp_machine) exec \<Rightarrow> (send_status \<times> nat \<times> tcp_machine) exec" where
  "send_exit c r =
     and_then r (\<lambda>(st, sent, pcbs, n).
     Ret (st, sent, pcbs, if st = AwaitWindow then n else drop_receiver c n))"

definition send_begin :: "nat \<Rightarrow> tcp_machine \<Rightarrow> (nat \<times> tcp_machine) exec" where
  "send_begin pcb_id m =
     (let (c, n1) = mpsc_channel (snd m)
      in and_then (pcb_by_id (fst m) pcb_id) (\<lambda>pcb.
         Ret (c, (fst m)[pcb_id := pcb\<lparr>tcb_sender := Some c\<rparr>], drop_sender (tcb_sender pcb) n1)))"

text \<open>One pass of the outer loop; \<open>None\<close> when it does not return.\<close>

definition send_pass ::
  "nat \<Rightarrow> nat \<Rightarrow> bytes \<Rightarrow> nat \<Rightarrow> tcp_machine \<Rightarrow> (send_status \<times> nat \<times> tcp_machine) exec option" where
  "send_pass c pcb_id data sent m =
     map_option (send_exit c) (case pcb_by_id (fst m) pcb_id of
        Fault e \<Rightarrow> Some (Fault e)
      | Ret pcb \<Rightarrow>
          if tcb_state pcb \<in> {Established, CloseWait} then
            (case usize_sub (mtu (device (snd m))) (IP_HEADER_MIN_SIZE + TCP_HDR_SIZE) of
               Fault e \<Rightarrow> Some (Fault e)
             | Ret mss \<Rightarrow>
                 let sc = send_context pcb
                 in send_segments pcb_id data mss (send_capacity (snd_window sc) (snd_next sc) (snd_una sc)) sent m)
          else Some (Ret (NotSent, sent, m)))"

text \<open>What happens after a wait for the window.\<close>

definition send_resume ::
  "nat \<Rightarrow> nat \<Rightarrow> bytes \<Rightarrow> nat \<Rightarrow> tcp_machine \<Rightarrow> (send_status \<times> nat \<times> tcp_machine) exec option" where
  "send_resume c pcb_id data sent m =
     (let (msg, n1) = chan_recv c (snd m)
      in case msg of
           Blocked \<Rightarrow> Some (Ret (AwaitWindow, sent, fst m, n1))
         | Disconnected \<Rightarrow> Some (Fault UnwrapFailed)
         | Message False \<Rightarrow> Some (Ret (NotSent, sent, fst m, drop_receiver c n1))
         | Message True \<Rightarrow> send_pass c pcb_id data sent (fst m, n1))"

section \<open>Receiving\<close>

text \<open>The loop variables of \<open>receive\<close>, read under the lock of an earlier pass.\<close>

record receive_loop =
  rl_state :: tcp_pcb_state
  rl_window :: nat
  remain :: "nat option"

datatype receive_next = ReceiveNone | AwaitData | TakeData "nat option" | SpinForever

definition receive_branch :: "receive_loop \<Rightarrow> receive_next" where
  "receive_branch l =
     (if rl_state l = Closed then ReceiveNone
      else if rl_state l \<in> {Listen, SynSent, SynReceived} then ReceiveNone
      else if rl_state l \<in> {Established, FinWait1, FinWait2} then
        (if PCB_BUF_LEN \<le> rl_window l then AwaitData else TakeData (remain l))
      else if rl_state l = CloseWait then
        (if rl_window l < PCB_BUF_LEN then TakeData (Some (PCB_BUF_LEN - rl_window l)) else TakeData (remain l))
      else SpinForever)"

definition receive_begin ::
  "nat \<Rightarrow> tcp_pcbs \<times> 'z world_scheme \<Rightarrow> (nat \<times> receive_loop \<times> tcp_pcbs \<times> 'z world_scheme) exec" where
  "receive_begin pcb_id m =
     (let (c, n1) = mpsc_channel (snd m)
      in and_then (pcb_by_id (fst m) pcb_id) (\<lambda>pcb.
         Ret (c, \<lparr>rl_state = tcb_state pcb, rl_window = unat (rcv_window (recv_context pcb)), remain = None\<rparr>,
              (fst m)[pcb_id := pcb\<lparr>tcb_sender := Some c\<rparr>], drop_sender (tcb_sender pcb) n1)))"

definition take_data :: "nat \<Rightarrow> nat \<Rightarrow> nat option \<Rightarrow> tcp_pcbs \<Rightarrow> (bytes \<times> tcp_pcbs) exec" where
  "take_data pcb_id len_max remain_opt pcbs =
     and_then (pcb_by_id pcbs pcb_id) (\<lambda>pcb.
     let buf_len = length (buf pcb);
         len = (case remain_opt of None \<Rightarrow> min buf_len len_max | Some r \<Rightarrow> min buf_len (min len_max r))
     in and_then (slice_to (buf pcb) len) (\<lambda>data.
        and_then (slice_from (buf pcb) len) (\<lambda>rest.
        and_then (checked_add (rcv_window (recv_context pcb)) (of_nat len)) (\<lambda>win.
        Ret (data, pcbs[pcb_id := pcb\<lparr>buf := rest, recv_context := (recv_context pcb)\<lparr>rcv_window := win\<rparr>\<rparr>])))))"

definition receive_resume ::
  "nat \<Rightarrow> nat \<Rightarrow> nat \<Rightarrow> receive_loop \<Rightarrow> tcp_pcbs \<times> 'z world_scheme
   \<Rightarrow> (bytes option blocking \<times> receive_loop \<times> tcp_pcbs \<times> 'z world_scheme) exec" where
  "receive_resume c pcb_id len_max l m =
     (case receive_branch l of
        ReceiveNone \<Rightarrow> Ret (Returned None, l, fst m, drop_receiver c (snd m))
      | TakeData r \<Rightarrow>
          and_then (take_data pcb_id len_max r (fst m)) (\<lambda>(data, pcbs).
          Ret (Returned (Some data), l, pcbs, drop_receiver c (snd m)))
      | SpinForever \<Rightarrow> Ret (Sleeping, l, m)
      | AwaitData \<Rightarrow>
          let (msg, n1) = chan_recv c (snd m)
          in case msg of
               Blocked \<Rightarrow> Ret (Sleeping, l, fst m, n1)
             | Disconnected \<Rightarrow> Fault UnwrapFailed
             | Message False \<Rightarrow> Ret (Returned None, l, fst m, drop_receiver c n1)
             | Message True \<Rightarrow>
                 and_then (pcb_by_id (fst m) pcb_id) (\<lambda>pcb.
                 let win = unat (rcv_window (recv_context pcb))
                 in and_then (usize_sub PCB_BUF_LEN win) (\<lambda>r.
                    Ret (Sleeping, \<lparr>rl_state = tcb_state pcb, rl_window = win, remain = Some r\<rparr>, fst m, n1))))"

section \<open>Closing\<close>

definition tcp_close :: "nat \<Rightarrow> tcp_machine \<Rightarrow> tcp_machine exec" where
  "tcp_close pcb_id m =
     (case get_mut_by_id (fst m) pcb_id of
        None \<Rightarrow> Ret m
      | Some pcb \<Rightarrow>
          and_then (tcp_output pcb flag_rst [] (snd m)) (\<lambda>(_, pcb1, n1).
          let (pcb2, n2) = release pcb1 n1 in Ret ((fst m)[pcb_id := pcb2], n2)))"


section \<open>The invariant under the user commands\<close>

lemma tcp_pcb_ok_simps [simp]:
  "tcp_pcb_ok (p\<lparr>tcb_sender := s\<rparr>) = tcp_pcb_ok p" "tcp_pcb_ok (p\<lparr>tcb_local := l\<rparr>) = tcp_pcb_ok p"
  "tcp_pcb_ok (p\<lparr>tcb_remote := l\<rparr>) = tcp_pcb_ok p" "tcp_pcb_ok (p\<lparr>tcb_mode := mo\<rparr>) = tcp_pcb_ok p"
  "tcp_pcb_ok (p\<lparr>recv_context := rc\<rparr>) = tcp_pcb_ok p" "tcp_pcb_ok (p\<lparr>iss := isn\<rparr>) = tcp_pcb_ok p"
  "tcp_pcb_ok (p\<lparr>buf := b\<rparr>) = tcp_pcb_ok p"
  by (simp_all add: pcb_ok_defs)

lemma tcp_pcb_ok_quiet:
  assumes "tcp_pcb_ok p"
  shows "tcp_pcb_ok (p\<lparr>tcb_state := Closed\<rparr>)" "tcp_pcb_ok (p\<lparr>tcb_state := Listen\<rparr>)"
    "tcp_pcb_ok (p\<lparr>tcb_state := Free, data_queue := [], backlog := []\<rparr>)"
  using assms by (auto simp: pcb_ok_defs)

lemmas user_wf_intros = tcp_wf_update tcp_pcb_ok_quiet tcp_wf_nth

lemma send_syn_ok:
  assumes "tcp_pcb_ok p" "send_syn p n = Ret (p', n')"
  shows "tcp_pcb_ok p' \<and> tcb_state p' = SynSent \<and> snd_una (send_context p') = iss p' \<and>
    snd_next (send_context p') = iss p' + 1"
proof -
  from assms(2) obtain len p2 n2 rc isn n1 where
    o: "tcp_output (p\<lparr>recv_context := rc, iss := isn\<rparr>) flag_syn [] n1 = Ret (len, p2, n2)" and
    lt: "unat (iss p2) < 4294967295" and
    p': "p' = p2\<lparr>send_context := (send_context p2)\<lparr>snd_una := iss p2, snd_next := iss p2 + 1\<rparr>, tcb_state := SynSent\<rparr>"
    by (auto simp: send_syn_def gen_range_u32_def exec_simps Let_def)
  from tcp_output_frame(1) [OF o] obtain q where
    "p2 = p\<lparr>recv_context := rc, iss := isn, data_queue := data_queue p @ q\<rparr>" by auto
  with assms(1) lt show ?thesis unfolding p' by (auto simp: pcb_ok_defs word_le_plus1)
qed

lemma rfc793_open_begin_wf:
  assumes "tcp_wf (fst m)" "rfc793_open_begin loc ro active m = Ret (i, c, m')"
  shows "tcp_wf (fst m') \<and> i < TCP_PCB_COUNT \<and>
    tcb_state (fst m' ! i) = (if active then SynSent else Listen)"
proof -
  from assms(2) obtain pcbs where new: "new_entry (fst m) = Some (i, pcbs)"
    by (auto simp: rfc793_open_begin_def mpsc_channel_def exec_simps Let_def split: if_splits)
  from new_entry_wf [OF assms(1) new] have w: "tcp_wf pcbs" "i < TCP_PCB_COUNT" by auto
  then have i: "i < length pcbs" by (simp add: tcp_wf_def)
  have ok: "tcp_pcb_ok ((pcbs ! i)\<lparr>tcb_mode := Rfc793, tcb_local := loc, tcb_sender := s\<rparr>)"
    "tcp_pcb_ok ((pcbs ! i)\<lparr>tcb_mode := Rfc793, tcb_local := loc, tcb_sender := s, tcb_remote := r\<rparr>)" for s r
    using tcp_wf_nth [OF w(1) i] by simp_all
  show ?thesis
    using assms(2) new w i tcp_pcb_ok_quiet(2) [OF ok(1)] tcp_pcb_ok_quiet(2) [OF ok(2)]
    by (auto simp: rfc793_open_begin_def mpsc_channel_def exec_simps Let_def
        dest!: send_syn_ok [OF ok(1)] send_syn_ok [OF ok(2)] intro!: tcp_wf_update split: if_splits option.splits)
qed

lemma rfc793_open_resume_wf:
  assumes "tcp_wf (fst m)" "rfc793_open_resume c i m = Ret (r, m')"
  shows "tcp_wf (fst m')"
  using assms
  by (auto simp: rfc793_open_resume_def exec_simps Let_def release_def intro!: user_wf_intros
      split: prod.splits received.splits if_splits)

lemma tcp_open_wf:
  assumes "tcp_wf pcbs" "tcp_open pcbs = Ret (i, pcbs')"
  shows "tcp_wf pcbs' \<and> i < TCP_PCB_COUNT"
proof -
  from assms(2) obtain ps where new: "new_entry pcbs = Some (i, ps)"
    and p: "pcbs' = ps[i := (ps ! i)\<lparr>tcb_mode := Socket\<rparr>]" by (auto simp: tcp_open_def exec_simps)
  from new_entry_wf [OF assms(1) new] have w: "tcp_wf ps" "i < TCP_PCB_COUNT" by auto
  then have "tcp_pcb_ok ((ps ! i)\<lparr>tcb_mode := Socket\<rparr>)"
    using tcp_wf_nth [OF w(1), of i] by (auto simp: tcp_wf_def pcb_ok_defs)
  with w show ?thesis unfolding p by auto
qed

lemma connect_begin_wf:
  assumes "tcp_wf (fst m)" "connect_begin i remote m = Ret (c, m')"
  shows "tcp_wf (fst m')"
proof -
  have i: "i < length (fst m)" using assms(2) by (auto simp: connect_begin_def exec_simps)
  let ?p = "fst m ! i"
  have ok: "tcp_pcb_ok (?p\<lparr>tcb_local := l, tcb_remote := r\<rparr>)" for l r
    using tcp_wf_nth [OF assms(1) i] by simp
  show ?thesis
    using assms
    by (auto simp: connect_begin_def mpsc_channel_def exec_simps Let_def intro!: tcp_wf_update
        dest!: send_syn_ok [OF ok] split: if_splits)
qed

lemma connect_resume_wf:
  assumes "tcp_wf (fst m)" "connect_resume c i m = Ret (r, m')"
  shows "tcp_wf (fst m')"
  using assms
  by (auto simp: connect_resume_def exec_simps Let_def intro!: user_wf_intros
      split: prod.splits received.splits if_splits)

lemma tcp_bind_wf: "tcp_wf pcbs \<Longrightarrow> tcp_bind i loc pcbs = Ret pcbs' \<Longrightarrow> tcp_wf pcbs'"
  by (auto simp: tcp_bind_def exec_simps intro!: user_wf_intros split: if_splits)

lemma tcp_listen_wf: "tcp_wf pcbs \<Longrightarrow> tcp_listen i pcbs = Ret pcbs' \<Longrightarrow> tcp_wf pcbs'"
  by (auto simp: tcp_listen_def exec_simps intro!: user_wf_intros split: if_splits)


lemma pop_backlog_ok:
  assumes "tcp_pcb_ok p" "pop_backlog p = (b, p')"
  shows "tcp_pcb_ok p' \<and> (\<forall>x. b = Some x \<longrightarrow> x < TCP_PCB_COUNT)"
proof (cases "backlog p")
  case Nil
  with assms show ?thesis by (simp add: pop_backlog_def)
next
  case (Cons x xs)
  have "tcp_pcb_ok (p\<lparr>backlog := xs\<rparr>)" "x < TCP_PCB_COUNT"
    using assms(1) Cons by (simp_all add: pcb_ok_defs)
  with assms(2) Cons show ?thesis by (auto simp: pop_backlog_def)
qed

lemma accept_begin_wf:
  assumes "tcp_wf (fst m)" "accept_begin i m = Ret (c, l, m')"
  shows "tcp_wf (fst m')"
proof -
  have i: "i < length (fst m)" using assms(2) by (auto simp: accept_begin_def mpsc_channel_def exec_simps)
  have ok: "tcp_pcb_ok ((fst m ! i)\<lparr>tcb_sender := s\<rparr>)" for s using tcp_wf_nth [OF assms(1) i] by simp
  show ?thesis
    using assms
    by (auto simp: accept_begin_def mpsc_channel_def exec_simps Let_def intro!: tcp_wf_update
        dest!: pop_backlog_ok [OF ok] split: if_splits prod.splits)
qed

lemma accept_resume_wf:
  assumes "tcp_wf (fst m)" "accept_resume c i l m = Ret (r, l', m')"
  shows "tcp_wf (fst m')"
  using assms
  by (auto simp: accept_resume_def exec_simps Let_def intro!: tcp_wf_update dest: pop_backlog_ok [OF tcp_wf_nth]
      split: if_splits prod.splits option.splits received.splits bool.splits)

lemma send_begin_wf: "tcp_wf (fst m) \<Longrightarrow> send_begin i m = Ret (c, m') \<Longrightarrow> tcp_wf (fst m')"
  by (auto simp: send_begin_def mpsc_channel_def exec_simps intro!: user_wf_intros)

lemma receive_begin_wf: "tcp_wf (fst m) \<Longrightarrow> receive_begin i m = Ret (c, l, m') \<Longrightarrow> tcp_wf (fst m')"
  by (auto simp: receive_begin_def mpsc_channel_def exec_simps intro!: user_wf_intros)

lemma take_data_wf: "tcp_wf pcbs \<Longrightarrow> take_data i k r pcbs = Ret (d, pcbs') \<Longrightarrow> tcp_wf pcbs'"
  by (auto simp: take_data_def exec_simps Let_def intro!: user_wf_intros)

lemma receive_resume_wf:
  "tcp_wf (fst m) \<Longrightarrow> receive_resume c i k l m = Ret (r, l', m') \<Longrightarrow> tcp_wf (fst m')"
  by (auto simp: receive_resume_def exec_simps Let_def dest: take_data_wf
      split: receive_next.splits prod.splits received.splits bool.splits)

lemma tcp_close_wf:
  assumes "tcp_wf (fst m)" "tcp_close i m = Ret m'"
  shows "tcp_wf (fst m')"
  using assms
  by (auto simp: tcp_close_def get_mut_by_id_def release_def exec_simps dest!: tcp_output_plain_pcb
      intro!: user_wf_intros split: if_splits option.splits)

lemma tcp_close_sockets_wf:
  "tcp_wf pcbs \<Longrightarrow> tcp_close_sockets pcbs w = (pcbs', w') \<Longrightarrow> tcp_wf pcbs'"
  by (auto simp: tcp_wf_def tcp_pcb_ok_quiet dest!: tcp_close_sockets_all)

lemma retransmit_wf:
  assumes "tcp_wf pcbs" "retransmit pcbs n = Ret (pcbs', n')"
  shows "tcp_wf pcbs'"
proof -
  let ?R = "\<lambda>p p'. p' = p\<lparr>data_queue := []\<rparr> \<or> p' = p\<lparr>tcb_state := Free, data_queue := [], backlog := []\<rparr>"
  have all2: "list_all2 ?R pcbs pcbs'"
    using retransmit_empties [OF assms(2)] assms(1) by (auto simp: tcp_wf_def tcp_pcb_ok_def)
  have step: "tcp_pcb_ok p'" if "tcp_pcb_ok p" "?R p p'" for p p'
    using that by (elim disjE) (simp_all add: pcb_ok_defs)
  have "list_all2 ?R ps ps' \<Longrightarrow> \<forall>p \<in> set ps. tcp_pcb_ok p \<Longrightarrow> \<forall>p' \<in> set ps'. tcp_pcb_ok p'" for ps ps'
    by (induction rule: list_all2_induct) (simp, metis list.set_intros set_ConsD step)
  then have "\<forall>p' \<in> set pcbs'. tcp_pcb_ok p'" using assms(1) all2 unfolding tcp_wf_def by blast
  then show ?thesis using assms(1) list_all2_lengthD [OF all2] by (simp add: tcp_wf_def)
qed


section \<open>The sending loop\<close>

lemma advance_next_ok:
  assumes "tcp_pcb_ok p" "snd_next (send_context p) \<le> nxt"
  shows "tcp_pcb_ok (p\<lparr>send_context := (send_context p)\<lparr>snd_next := nxt\<rparr>\<rparr>)"
proof -
  have "tcb_state p \<in> {SynSent, SynReceived, Established, CloseWait} \<Longrightarrow> snd_una (send_context p) \<le> nxt"
    using assms unfolding tcp_pcb_ok_def by (blast intro: order_trans)
  with assms(1) show ?thesis by (simp add: tcp_pcb_ok_def)
qed

lemma send_next_ok:
  assumes "tcp_pcb_ok p" "tcb_state p \<noteq> Free" "tcp_output p flags data n = Ret (len, p1, n1)"
    and "checked_add (snd_next (send_context p1)) k = Ret nxt"
  shows "tcp_pcb_ok (p1\<lparr>send_context := (send_context p1)\<lparr>snd_next := nxt\<rparr>\<rparr>)"
  using tcp_output_ok [OF assms(3,1,2)] checked_add_le [OF assms(4)] by (blast intro: advance_next_ok)

lemma send_segments_wf:
  assumes "send_segments i data mss cap sent m = Some r" "tcp_wf (fst m)" "i < length (fst m)"
    and "tcb_state (fst m ! i) \<noteq> Free" "r = Ret (st, sent', m')"
  shows "tcp_wf (fst m')"
proof -
  let ?P = "\<lambda>i data mss (cap :: nat exec) sent m r. tcp_wf (fst m) \<longrightarrow> i < length (fst m) \<longrightarrow>
    tcb_state (fst m ! i) \<noteq> Free \<longrightarrow> (\<forall>st sent' m'. r = Ret (st, sent', m') \<longrightarrow> tcp_wf (fst m'))"
  have "?P i data mss cap sent m r"
  proof (rule send_segments.raw_induct [where P = ?P, OF _ assms(1)], intro impI allI, goal_cases)
    case (1 rec i data mss cap sent m r st sent' m')
    note IH = 1(1) and body = 1(2) and wf = 1(3) and i = 1(4) and busy = 1(5) and r = 1(6)
    show ?case
    proof (cases "sent < length data \<and> (\<exists>k. cap = Ret k \<and> 0 < k)")
      case False
      with body wf r show ?thesis by (auto split: if_splits exec.splits)
    next
      case True
      then obtain k where k: "cap = Ret k" "0 < k" "sent < length data" by blast
      let ?p = "fst m ! i" and ?fl = "tcp_flag_as_u8 ACK OR tcp_flag_as_u8 PSH"
      let ?len = "min (min mss (length data - sent)) k"
      have p: "pcb_by_id (fst m) i = Ret ?p" using i by (simp add: pcb_by_id_Ret_iff)
      from body k p r obtain len p1 n1 where o: "tcp_output ?p ?fl (drop sent data) (snd m) = Ret (len, p1, n1)"
        by (auto split: exec.splits)
      from body k p o r obtain nxt where nxt: "checked_add (snd_next (send_context p1)) (of_nat ?len) = Ret nxt"
        by (auto simp: Let_def split: exec.splits)
      let ?p' = "p1\<lparr>send_context := (send_context p1)\<lparr>snd_next := nxt\<rparr>\<rparr>"
      have "rec i data mss cap (sent + ?len) ((fst m)[i := ?p'], n1) = Some r"
        using body k p o nxt by (simp add: Let_def)
      note step = IH [OF this]
      have ok: "tcp_pcb_ok ?p" using wf i by (rule tcp_wf_nth)
      have "tcp_wf ((fst m)[i := ?p'])" using wf send_next_ok [OF ok busy o nxt] by (rule tcp_wf_update)
      moreover have "tcb_state ?p' \<noteq> Free" using tcp_output_ok [OF o ok busy] busy by simp
      ultimately show ?thesis using step i r by (cases m') simp
    qed
  qed
  with assms show ?thesis by blast
qed

lemma send_pass_wf:
  assumes "tcp_wf (fst m)" "send_pass c i data sent m = Some (Ret (st, sent', m'))"
  shows "tcp_wf (fst m')"
proof (cases "i < length (fst m) \<and> tcb_state (fst m ! i) \<in> {Established, CloseWait}")
  case True
  with assms(2) obtain mss cap r where "send_segments i data mss cap sent m = Some r"
    "send_exit c r = Ret (st, sent', m')"
    by (auto simp: send_pass_def send_exit_def pcb_by_id_def get_mut_by_id_def Let_def split: exec.splits)
  then obtain n where "send_segments i data mss cap sent m = Some (Ret (st, sent', fst m', n))"
    by (cases r) (auto simp: send_exit_def)
  from send_segments_wf [OF this assms(1)] True show ?thesis by auto
next
  case False
  with assms show ?thesis
    by (auto simp: send_pass_def send_exit_def pcb_by_id_def get_mut_by_id_def split: exec.splits if_splits prod.splits)
qed

lemma send_resume_wf:
  "tcp_wf (fst m) \<Longrightarrow> send_resume c i data sent m = Some (Ret (st, sent', m')) \<Longrightarrow> tcp_wf (fst m')"
  by (auto simp: send_resume_def Let_def dest: send_pass_wf [rotated]
      split: prod.splits received.splits bool.splits)

text \<open>The loop ends when a segment carries at least one octet.\<close>

lemma send_segments_returns:
  "0 < mss \<Longrightarrow> \<exists>r. send_segments i data mss cap sent m = Some r"
proof (induction "length data - sent" arbitrary: sent m rule: less_induct)
  case less
  show ?case
    using less.hyps less.prems
    by (subst send_segments.simps) (auto split: exec.splits simp: Let_def)
qed

section \<open>Accepting\<close>

text \<open>A new channel is empty; the sender it replaces in a block belongs to an older one.\<close>

lemma fresh_channel_blocks:
  assumes "\<And>c. old = Some c \<Longrightarrow> c < length (chans n)"
  shows "chan_recv (length (chans n)) (drop_sender old (snd (mpsc_channel n))) = (Blocked, drop_sender old (snd (mpsc_channel n)))"
  using assms by (cases old) (auto simp: chan_recv_def drop_sender_def mpsc_channel_def chan_update_def)

lemma accept_outcome:
  assumes "i < length pcbs" "tcb_mode (pcbs ! i) = Socket" "tcb_state (pcbs ! i) = Listen"
    and "\<And>c. tcb_sender (pcbs ! i) = Some c \<Longrightarrow> c < length (chans n)"
  shows "\<exists>c l m m'. accept_begin i (pcbs, n) = Ret (c, l, m) \<and>
    accept_resume c i l m = Ret (if backlog (pcbs ! i) = [] then Returned None else Sleeping, l, m')"
proof -
  obtain p b where b: "pop_backlog ((pcbs ! i)\<lparr>tcb_sender := Some (length (chans n))\<rparr>) = (b, p)"
    "b = None \<longleftrightarrow> backlog (pcbs ! i) = []"
    by (cases "backlog (pcbs ! i)") (auto simp: pop_backlog_def)
  have "fst (mpsc_channel n) = length (chans n)" by (simp add: mpsc_channel_def)
  then show ?thesis
    using assms b fresh_channel_blocks [of "tcb_sender (pcbs ! i)" n]
    by (auto simp: accept_begin_def accept_resume_def pcb_by_id_def get_mut_by_id_def split_beta split: option.split)
qed

end
