(* ===== verification/Protocols.thy ===== *)
theory Protocols
  imports Icmp Tcp_User
begin

text \<open>
  The input path above the devices: \<open>input\<close> of \<^verbatim>\<open>src/src/protocols/ip/mod.rs\<close> and the
  queues of \<^verbatim>\<open>src/src/protocols/mod.rs\<close>. The interrupt handler has queued what it read
  (theory \<open>Devices\<close>); \<open>handle_data\<close> drains every queue and hands each entry to the
  protocol of its queue, with the device whose interrupt delivered it.

  Shown here: the effect of \<open>ip_input\<close> on every branch, that a packet built by
  \<open>ip_output\<close> reaches the input function of its protocol at the receiver with the payload,
  that a handler that returns an error panics, and that \<open>handle_data\<close> leaves the queues
  empty.
\<close>

record control_blocks =
  udp_blocks :: udp_pcbs
  tcp_blocks :: tcp_pcbs

definition control_blocks_new :: control_blocks where
  "control_blocks_new = \<lparr>udp_blocks = udp_pcbs_new, tcp_blocks = tcp_pcbs_new\<rparr>"

section \<open>IP input\<close>

definition ip_dispatch ::
  "ip_protocol_type \<Rightarrow> bytes \<Rightarrow> nat \<Rightarrow> ip_address \<Rightarrow> ip_address \<Rightarrow> ip_interface \<Rightarrow> control_blocks \<Rightarrow> net
   \<Rightarrow> (unit result \<times> control_blocks \<times> net) exec" where
  "ip_dispatch proto data len src dst iface cbs n =
     (case proto of
        Icmp \<Rightarrow> and_then (icmp_input data len src dst iface n) (\<lambda>(r, n'). Ret (r, cbs, n'))
      | Tcp \<Rightarrow> and_then (tcp_input data len src dst iface (tcp_blocks cbs, n)) (\<lambda>(r, pcbs, n').
               Ret (r, cbs\<lparr>tcp_blocks := pcbs\<rparr>, n'))
      | Udp \<Rightarrow> and_then (udp_input data len src dst (udp_blocks cbs) n) (\<lambda>(r, pcbs, n').
               Ret (r, cbs\<lparr>udp_blocks := pcbs\<rparr>, n'))
      | UnknownProto \<Rightarrow> Ret (Ok (), cbs, n))"

definition ip_input ::
  "bytes \<Rightarrow> nat \<Rightarrow> control_blocks \<Rightarrow> net \<Rightarrow> (unit result \<times> control_blocks \<times> net) exec" where
  "ip_input data len cbs n =
     (if len < IP_HEADER_MIN_SIZE then Fault Panicked
      else
        and_then (bytes_to_struct IP_HEADER_MIN_SIZE ip_header_read data) (\<lambda>header.
        let hdr_len = unat (push_bit 2 (ver_len header AND 0x0f))
        in and_then (check_ip_header header len hdr_len) (\<lambda>checked.
           case checked of
             Err \<Rightarrow> Ret (Err, cbs, n)
           | Ok _ \<Rightarrow>
               (case get_interface (device n) IP_Family of
                  None \<Rightarrow> Ret (Ok (), cbs, n)
                | Some iface \<Rightarrow>
                    if unicast iface \<noteq> ip_dst header then Ret (Err, cbs, n)
                    else
                      and_then (slice_from data hdr_len) (\<lambda>sub_data.
                      and_then (usize_sub len hdr_len) (\<lambda>sub_len.
                      ip_dispatch (ip_protocol_from_u8 (protocol header)) sub_data sub_len
                        (ip_src header) (ip_dst header) iface cbs n))))))"

section \<open>The protocol queues\<close>

definition protocol_input ::
  "protocol_type \<Rightarrow> bytes \<Rightarrow> nat \<Rightarrow> control_blocks \<Rightarrow> net \<Rightarrow> (control_blocks \<times> net) exec" where
  "protocol_input ty data len cbs n =
     (case ty of
        Arp_Type \<Rightarrow>
          and_then (arp_input data len n) (\<lambda>(r, n'). and_then (unwrap_result r) (\<lambda>_. Ret (cbs, n')))
      | IP_Type \<Rightarrow>
          and_then (ip_input data len cbs n) (\<lambda>(r, cbs', n'). and_then (unwrap_result r) (\<lambda>_. Ret (cbs', n')))
      | Unknown_Type \<Rightarrow> Ret (cbs, n))"

text \<open>
  The handlers work on a \<open>net\<close>: the runtime with one device and the contexts. The lists
  of devices and of protocols live in the application; \<open>net_of\<close> lends one device to a
  handler, \<open>world_of\<close> gives the runtime back.
\<close>

definition net_of :: "net_device \<Rightarrow> protocol_contexts \<Rightarrow> world \<Rightarrow> net" where
  "net_of d ctx w =
     \<lparr>clock = clock w, readings = readings w, rng = rng w, draws = draws w, raised = raised w,
      chans = chans w, device = d, contexts = ctx\<rparr>"

definition world_of :: "net \<Rightarrow> world" where
  "world_of n =
     \<lparr>clock = clock n, readings = readings n, rng = rng n, draws = draws n, raised = raised n,
      chans = chans n\<rparr>"

record stack =
  st_world :: world
  st_devices :: net_devices
  st_contexts :: protocol_contexts
  st_pcbs :: control_blocks

type_synonym handler_state = "protocol_contexts \<times> control_blocks \<times> world"

text \<open>One entry of a queue: the first device with the entry's interrupt number gets it.\<close>

definition deliver ::
  "protocol_type \<Rightarrow> protocol_data \<Rightarrow> bytes \<Rightarrow> net_device \<Rightarrow> handler_state
   \<Rightarrow> (net_device \<times> handler_state \<times> control) exec" where
  "deliver ty pd data d h =
     (case h of (ctx, cbs, w) \<Rightarrow>
        if irq (dev_irq_entry d) = pd_irq pd then
          and_then (protocol_input ty data (pd_len pd) cbs (net_of d ctx w)) (\<lambda>(cbs', n').
          Ret (device n', (contexts n', cbs', world_of n'), Break))
        else Ret (d, h, Continue))"

definition handle_entry :: "protocol_type \<Rightarrow> protocol_data \<Rightarrow> stack \<Rightarrow> stack exec" where
  "handle_entry ty pd s =
     and_then (unwrap_option (pd_data pd)) (\<lambda>data.
     and_then (for_iter_mut (deliver ty pd data) (st_devices s) (st_contexts s, st_pcbs s, st_world s))
       (\<lambda>(ds, ctx, cbs, w).
     Ret (s\<lparr>st_devices := ds, st_contexts := ctx, st_pcbs := cbs, st_world := w\<rparr>)))"

fun handle_queue :: "protocol_type \<Rightarrow> protocol_data list \<Rightarrow> stack \<Rightarrow> stack exec" where
  "handle_queue ty [] s = Ret s"
| "handle_queue ty (pd # pds) s = and_then (handle_entry ty pd s) (\<lambda>s'. handle_queue ty pds s')"

definition handle_input :: "net_protocol \<Rightarrow> stack \<Rightarrow> (net_protocol \<times> stack) exec" where
  "handle_input p s =
     and_then (handle_queue (protocol_type p) (input_head p) s) (\<lambda>s'. Ret (p\<lparr>input_head := []\<rparr>, s'))"

definition handle_data :: "net_protocols \<Rightarrow> stack \<Rightarrow> (net_protocols \<times> stack) exec" where
  "handle_data ps s =
     for_iter_mut (\<lambda>p s. and_then (handle_input p s) (\<lambda>(p', s'). Ret (p', s', Continue))) ps s"


section \<open>A packet reaches its protocol\<close>

text \<open>
  The receiver sees the packet with the padding of a short Ethernet frame behind it. The
  padding is not cut off: it is part of what the protocol gets.
\<close>

lemma check_ip_header_padded:
  assumes "check_ip_header h k l = Ret (Ok ())" "k \<le> k'" "l \<le> k"
  shows "check_ip_header h k' l = Ret (Ok ())"
  using assms by (auto simp: check_ip_header_def Let_def split: if_splits)

lemma ip_input_packet:
  assumes "length data \<le> 65515" "get_interface (device n) IP_Family = Some iface" "unicast iface = dst"
  shows "ip_input (ip_packet p src dst i data @ pad) (20 + length data + length pad) cbs n =
    ip_dispatch p (data @ pad) (length data + length pad) src dst iface cbs n"
proof (rule create_ip_header_Ret [OF assms(1), of p src dst i])
  fix h
  assume h: "create_ip_header p src dst data i = Ret h" "ver_len h = 0x45"
    "protocol h = ip_protocol_as_u8 p" "ip_src h = src" "ip_dst h = dst"
  have pkt: "ip_packet p src dst i data @ pad = to_u8_slice ip_header_layout h @ data @ pad"
    using h(1) by (simp add: ip_packet_def)
  have read: "bytes_to_struct IP_HEADER_MIN_SIZE ip_header_read (ip_packet p src dst i data @ pad) = Ret h"
    unfolding pkt by (rule ip_hdr.bytes_to_struct_layout) (simp add: ip_header_wf_def)
  have ok: "check_ip_header h (20 + length data + length pad) 20 = Ret (Ok ())"
    by (rule check_ip_header_padded [OF create_ip_header_checks [OF assms(1) h(1)]]) simp_all
  have "length (to_u8_slice ip_header_layout h) = 20"
    by (simp add: to_u8_slice_def ip_header_layout_def)
  then have sl: "slice_from (ip_packet p src dst i data @ pad) 20 = Ret (data @ pad)"
    unfolding pkt by (simp add: slice_from_def)
  show ?thesis
    using assms(2,3) read ok sl h(2-5)
    by (simp add: ip_input_def IP_HEADER_MIN_SIZE_def usize_sub_def)
qed

text \<open>The other branches.\<close>

lemma ip_input_short: "len < 20 \<Longrightarrow> ip_input data len cbs n = Fault Panicked"
  by (simp add: ip_input_def IP_HEADER_MIN_SIZE_def)

lemma ip_input_rejected:
  assumes "20 \<le> len" "20 \<le> length data"
    and "check_ip_header (ip_header_read data) len (unat (push_bit 2 (ver_len (ip_header_read data) AND 0x0f))) = Ret Err"
  shows "ip_input data len cbs n = Ret (Err, cbs, n)"
  using assms by (simp add: ip_input_def IP_HEADER_MIN_SIZE_def bytes_to_struct_def)

lemma ip_input_not_ours:
  assumes "length data \<le> 65515" "get_interface (device n) IP_Family = Some iface" "unicast iface \<noteq> dst"
  shows "ip_input (ip_packet p src dst i data @ pad) (20 + length data + length pad) cbs n = Ret (Err, cbs, n)"
proof (rule create_ip_header_Ret [OF assms(1), of p src dst i])
  fix h
  assume h: "create_ip_header p src dst data i = Ret h" "ver_len h = 0x45" "ip_dst h = dst"
  have pkt: "ip_packet p src dst i data @ pad = to_u8_slice ip_header_layout h @ data @ pad"
    using h(1) by (simp add: ip_packet_def)
  have read: "bytes_to_struct IP_HEADER_MIN_SIZE ip_header_read (ip_packet p src dst i data @ pad) = Ret h"
    unfolding pkt by (rule ip_hdr.bytes_to_struct_layout) (simp add: ip_header_wf_def)
  have ok: "check_ip_header h (20 + length data + length pad) 20 = Ret (Ok ())"
    by (rule check_ip_header_padded [OF create_ip_header_checks [OF assms(1) h(1)]]) simp_all
  show ?thesis
    using assms(2,3) read ok h(2,3) by (auto simp: ip_input_def IP_HEADER_MIN_SIZE_def)
qed

lemma protocol_input_error:
  assumes "ip_input data len cbs n = Ret (Err, cbs', n')"
  shows "protocol_input IP_Type data len cbs n = Fault UnwrapFailed"
  using assms by (simp add: protocol_input_def)

section \<open>The invariants of both tables\<close>

definition blocks_wf :: "control_blocks \<Rightarrow> bool" where
  "blocks_wf cbs \<longleftrightarrow> udp_wf (udp_blocks cbs) \<and> tcp_wf (tcp_blocks cbs)"

lemma blocks_wf_new: "blocks_wf control_blocks_new"
  by (simp add: blocks_wf_def control_blocks_new_def udp_pcbs_new_wf tcp_wf_new)

lemma udp_input_wf:
  assumes "udp_wf pcbs" "udp_input data len src dst pcbs w = Ret (r, pcbs', w')"
  shows "udp_wf pcbs'"
  using udp_input_pcbs [OF assms(2)] assms(1) by (auto intro!: udp_wf_same)

lemma ip_dispatch_wf:
  assumes "blocks_wf cbs" "ip_dispatch proto data len src dst iface cbs n = Ret (r, cbs', n')"
  shows "blocks_wf cbs'"
  using assms
  by (cases proto)
    (auto simp: ip_dispatch_def blocks_wf_def exec_simps dest: udp_input_wf tcp_input_wf [rotated])

lemma ip_input_wf:
  assumes "blocks_wf cbs" "ip_input data len cbs n = Ret (r, cbs', n')"
  shows "blocks_wf cbs'"
  using assms
  by (auto simp: ip_input_def Let_def exec_simps dest: ip_dispatch_wf split: if_splits result.splits option.splits)

lemma protocol_input_wf:
  assumes "blocks_wf cbs" "protocol_input ty data len cbs n = Ret (cbs', n')"
  shows "blocks_wf cbs'"
  using assms by (cases ty) (auto simp: protocol_input_def exec_simps dest: ip_input_wf)

lemma handle_entry_wf:
  assumes "blocks_wf (st_pcbs s)" "handle_entry ty pd s = Ret s'"
  shows "blocks_wf (st_pcbs s')"
proof -
  have inv: "seq_iter_mut (deliver ty pd data) ds h = Ret (ds', ctx', cbs', w') \<Longrightarrow>
      blocks_wf (fst (snd h)) \<Longrightarrow> blocks_wf cbs'" for data ds h ds' ctx' cbs' w'
  proof (induction ds arbitrary: h ds')
    case (Cons d ds)
    show ?case
    proof (cases "irq (dev_irq_entry d) = pd_irq pd")
      case True
      with Cons.prems show ?thesis
        by (cases h) (auto simp: deliver_def exec_simps dest: protocol_input_wf)
    next
      case False
      with Cons.prems Cons.IH show ?thesis by (cases h) (auto simp: deliver_def exec_simps)
    qed
  qed auto
  from assms(2) obtain data ds' ctx' cbs' w' where
    "for_iter_mut (deliver ty pd data) (st_devices s) (st_contexts s, st_pcbs s, st_world s) = Ret (ds', ctx', cbs', w')"
    "st_pcbs s' = cbs'"
    by (auto simp: handle_entry_def exec_simps)
  with inv [OF for_iter_mut_Ret] assms(1) show ?thesis by auto
qed

lemma handle_queue_wf:
  "blocks_wf (st_pcbs s) \<Longrightarrow> handle_queue ty pds s = Ret s' \<Longrightarrow> blocks_wf (st_pcbs s')"
  by (induction pds arbitrary: s) (auto simp: exec_simps dest: handle_entry_wf)

lemma handle_input_wf:
  "blocks_wf (st_pcbs s) \<Longrightarrow> handle_input p s = Ret (p', s') \<Longrightarrow>
   blocks_wf (st_pcbs s') \<and> p' = p\<lparr>input_head := []\<rparr>"
  by (auto simp: handle_input_def exec_simps dest: handle_queue_wf)

lemma handle_data_wf:
  assumes "blocks_wf (st_pcbs s)" "handle_data ps s = Ret (ps', s')"
  shows "blocks_wf (st_pcbs s')" "list_iter ps' = map (\<lambda>p. p\<lparr>input_head := []\<rparr>) (list_iter ps)"
proof -
  have "seq_iter_mut (\<lambda>p s. and_then (handle_input p s) (\<lambda>(p', s'). Ret (p', s', Continue))) l s = Ret (l', s') \<Longrightarrow>
      blocks_wf (st_pcbs s) \<Longrightarrow> blocks_wf (st_pcbs s') \<and> l' = map (\<lambda>p. p\<lparr>input_head := []\<rparr>) l" for l l' s
  proof (induction l arbitrary: l' s)
    case (Cons p l)
    then obtain p' s1 l1 where "handle_input p s = Ret (p', s1)" "l' = p' # l1"
      "seq_iter_mut (\<lambda>p s. and_then (handle_input p s) (\<lambda>(p', s'). Ret (p', s', Continue))) l s1 = Ret (l1, s')"
      by (auto simp: exec_simps)
    with Cons show ?case using handle_input_wf [of s p p' s1] by auto
  qed auto
  from this [OF for_iter_mut_Ret [OF assms(2) [unfolded handle_data_def]] assms(1)]
  show "blocks_wf (st_pcbs s')" "list_iter ps' = map (\<lambda>p. p\<lparr>input_head := []\<rparr>) (list_iter ps)" by auto
qed

end
