(* ===== verification/App.thy ===== *)
theory App
  imports Protocols
begin

text \<open>
  \<^verbatim>\<open>src/src/app.rs\<close> and \<^verbatim>\<open>src/src/main.rs\<close>: the configuration of the stack, the handlers the
  signal loop calls, the retransmission thread and the four commands.

  The stack runs in three threads: the signal loop, the retransmission thread and one
  command. A command is a state machine whose phases are the points where it takes or
  releases the locks; a step runs from one such point to the next, so steps of different
  threads interleave but do not overlap. While \<open>tcp::send\<close> waits for the window the
  command keeps the locks of the devices and the contexts (\<open>holds_locks\<close>), and
  the other two threads cannot run.

  Shown here: the configuration \<open>app_new\<close> builds; every reachable state keeps the
  invariants of both tables of control blocks; a sender that waits for the window waits
  forever.
\<close>

definition LOOPBACK_IP :: string where "LOOPBACK_IP = ''127.0.0.1''"
definition LOOPBACK_NETMASK :: string where "LOOPBACK_NETMASK = ''255.255.255.0''"
definition DEFAULT_GATEWAY :: string where "DEFAULT_GATEWAY = ''192.0.2.1''"
definition ETH_TAP_IP :: string where "ETH_TAP_IP = ''192.0.2.2''"
definition ETH_TAP_NETMASK :: string where "ETH_TAP_NETMASK = ''255.255.255.0''"

record net_app =
  app_stack :: stack
  app_protocols :: net_protocols

text \<open>\<open>device.open().unwrap()\<close> and the registration of an interface.\<close>

definition open_with_interface ::
  "tap_os \<Rightarrow> net_device \<Rightarrow> string \<Rightarrow> string \<Rightarrow> (net_device \<times> ip_interface) exec" where
  "open_with_interface os d ip nm =
     and_then (device_open os d) (\<lambda>(r, d1).
     and_then (unwrap_result r) (\<lambda>_.
     and_then (ip_interface_new ip nm) (\<lambda>iface.
     Ret (register_interface d1 iface, iface))))"

definition app_new :: "tap_os \<Rightarrow> world \<Rightarrow> net_app exec" where
  "app_new os w =
     and_then (open_with_interface os (loopback_init 0) LOOPBACK_IP LOOPBACK_NETMASK) (\<lambda>(lo, lo_if).
     and_then (open_with_interface os (ethernet_init 1 Tap) ETH_TAP_IP ETH_TAP_NETMASK) (\<lambda>(eth, eth_if).
     and_then (gateway_route DEFAULT_GATEWAY eth_if) (\<lambda>gw.
     let ds = net_devices_register (net_devices_register net_devices_new lo) eth;
         routes = ip_routes_register (ip_routes_register ip_routes_new (interface_route lo_if)) gw;
         ps = net_protocols_register
                (net_protocols_register net_protocols_new (net_protocol_new Arp_Type)) (net_protocol_new IP_Type);
         ctx = \<lparr>ctx_arp_table = arp_table_new, ctx_ip_routes = routes, ctx_ip_id = ip_id_new\<rparr>
     in Ret \<lparr>app_stack = \<lparr>st_world = w, st_devices = ds, st_contexts = ctx, st_pcbs = control_blocks_new\<rparr>,
             app_protocols = ps\<rparr>)))"

section \<open>Handlers\<close>

definition app_close_sockets :: "net_app \<Rightarrow> net_app exec" where
  "app_close_sockets app =
     (let s = app_stack app
      in and_then (udp_close_sockets (udp_blocks (st_pcbs s)) (st_world s)) (\<lambda>w1.
         let (pcbs, w2) = tcp_close_sockets (tcp_blocks (st_pcbs s)) w1
         in Ret (app\<lparr>app_stack := s\<lparr>st_world := w2, st_pcbs := (st_pcbs s)\<lparr>tcp_blocks := pcbs\<rparr>\<rparr>\<rparr>)))"

definition app_handle_protocol :: "net_app \<Rightarrow> net_app exec" where
  "app_handle_protocol app =
     and_then (handle_data (app_protocols app) (app_stack app)) (\<lambda>(ps, s).
     Ret (app\<lparr>app_stack := s, app_protocols := ps\<rparr>))"

definition app_handle_irq :: "int \<Rightarrow> net_app \<Rightarrow> net_app exec" where
  "app_handle_irq i app =
     (let s = app_stack app
      in and_then (devices_handle_irq (st_devices s) i (app_protocols app) (st_world s)) (\<lambda>(ds, ps, w).
         Ret (app\<lparr>app_stack := s\<lparr>st_devices := ds, st_world := w\<rparr>, app_protocols := ps\<rparr>)))"

text \<open>The body of the signal loop. \<open>TERM_SIGNALS\<close> comes from the crate \<open>signal_hook\<close>.\<close>

definition SIGHUP :: int where "SIGHUP = 1"

definition handle_signal :: "int list \<Rightarrow> int \<Rightarrow> net_app \<Rightarrow> (control \<times> net_app) exec" where
  "handle_signal term_signals sig app =
     (if sig = SIGHUP then Ret (Continue, app)
      else if sig = SIGUSR1 then and_then (app_handle_protocol app) (\<lambda>app'. Ret (Continue, app'))
      else if sig \<in> set term_signals then Ret (Break, app)
      else and_then (app_handle_irq sig app) (\<lambda>app'. Ret (Continue, app')))"

section \<open>Lending the Ethernet device\<close>

text \<open>\<open>get_mut_by_type\<close> lends the first Ethernet device; the change is seen in the list.\<close>

definition set_ethernet :: "net_device \<Rightarrow> net_devices \<Rightarrow> net_devices exec" where
  "set_ethernet d ds =
     and_then (for_iter_mut (\<lambda>e (u :: unit). if device_type e = Ethernet then Ret (d, (), Break) else Ret (e, (), Continue)) ds ())
       (\<lambda>(ds', _). Ret ds')"

definition with_ethernet :: "(net \<Rightarrow> ('a \<times> net) exec) \<Rightarrow> stack \<Rightarrow> ('a \<times> stack) exec" where
  "with_ethernet f s =
     and_then (unwrap_option (get_mut_by_type (st_devices s) Ethernet)) (\<lambda>d.
     and_then (f (net_of d (st_contexts s) (st_world s))) (\<lambda>(x, n).
     and_then (set_ethernet (device n) (st_devices s)) (\<lambda>ds.
     Ret (x, s\<lparr>st_world := world_of n, st_devices := ds, st_contexts := contexts n\<rparr>))))"

definition with_tcp :: "(tcp_machine \<Rightarrow> ('a \<times> tcp_machine) exec) \<Rightarrow> stack \<Rightarrow> ('a \<times> stack) exec" where
  "with_tcp f s =
     and_then (with_ethernet (\<lambda>n. and_then (f (tcp_blocks (st_pcbs s), n)) (\<lambda>(x, pcbs, n'). Ret ((x, pcbs), n'))) s)
       (\<lambda>((x, pcbs), s'). Ret (x, s'\<lparr>st_pcbs := (st_pcbs s')\<lparr>tcp_blocks := pcbs\<rparr>\<rparr>))"

text \<open>The sections that lock the control blocks only.\<close>

definition with_pcbs :: "(tcp_pcbs \<times> world \<Rightarrow> ('a \<times> tcp_pcbs \<times> world) exec) \<Rightarrow> stack \<Rightarrow> ('a \<times> stack) exec" where
  "with_pcbs f s =
     and_then (f (tcp_blocks (st_pcbs s), st_world s)) (\<lambda>(x, pcbs, w).
     Ret (x, s\<lparr>st_world := w, st_pcbs := (st_pcbs s)\<lparr>tcp_blocks := pcbs\<rparr>\<rparr>))"

definition transmit_tick :: "stack \<Rightarrow> stack exec" where
  "transmit_tick s =
     and_then (with_tcp (\<lambda>m. and_then (retransmit (fst m) (snd m)) (\<lambda>m'. Ret ((), m'))) s) (\<lambda>(_, s'). Ret s')"

section \<open>The TCP commands\<close>

text \<open>
  \<open>data.replace("\\r", "\r").replace("\\n", "\n").as_bytes()\<close> on the UTF-8 bytes of the
  argument: the patterns are ASCII, so they match at the same places.
\<close>

fun replace_pair :: "u8 \<Rightarrow> u8 \<Rightarrow> u8 \<Rightarrow> bytes \<Rightarrow> bytes" where
  "replace_pair a b r (x # y # ys) =
     (if x = a \<and> y = b then r # replace_pair a b r ys else x # replace_pair a b r (y # ys))"
| "replace_pair a b r xs = xs"

definition request_bytes :: "bytes \<Rightarrow> bytes" where
  "request_bytes data = replace_pair 0x5c 0x6e 0x0a (replace_pair 0x5c 0x72 0x0d data)"

datatype tcp_phase =
    TcpTop
  | TcpOpening nat nat
  | TcpOpened
  | TcpSending nat nat
  | TcpReceive
  | TcpReceiving nat receive_loop
  | TcpDone

record tcp_thread =
  tcp_phase_of :: tcp_phase
  sock_opt :: "nat option"
  request_sent :: bool

definition tcp_thread_new :: tcp_thread where
  "tcp_thread_new = \<lparr>tcp_phase_of = TcpTop, sock_opt = None, request_sent = False\<rparr>"

text \<open>After \<open>tcp::send\<close> has returned, or waits with the sender's state kept in the phase.\<close>

definition after_send :: "nat \<Rightarrow> tcp_thread \<Rightarrow> send_status \<Rightarrow> nat \<Rightarrow> tcp_thread" where
  "after_send c t st sent =
     (if st = AwaitWindow then t\<lparr>tcp_phase_of := TcpSending c sent\<rparr>
      else t\<lparr>tcp_phase_of := TcpReceive, request_sent := True\<rparr>)"

text \<open>\<open>None\<close> is a send loop that never returns; \<open>with_ethernet\<close> for such an operation.\<close>

definition with_tcp_send ::
  "(tcp_machine \<Rightarrow> (send_status \<times> nat \<times> tcp_machine) exec option) \<Rightarrow> stack
   \<Rightarrow> ((send_status \<times> nat) \<times> stack) exec option" where
  "with_tcp_send f s =
     (case get_mut_by_type (st_devices s) Ethernet of
        None \<Rightarrow> Some (Fault UnwrapFailed)
      | Some d \<Rightarrow>
          (case f (tcp_blocks (st_pcbs s), net_of d (st_contexts s) (st_world s)) of
             None \<Rightarrow> None
           | Some r \<Rightarrow>
               Some (with_tcp (\<lambda>m. and_then r (\<lambda>(st, sent, m'). Ret ((st, sent), m'))) s)))"

definition tcp_open_phase ::
  "ip_endpoint \<Rightarrow> ip_endpoint option \<Rightarrow> bool \<Rightarrow> tcp_thread \<Rightarrow> stack \<Rightarrow> (tcp_thread \<times> stack) exec" where
  "tcp_open_phase loc rem active t s =
     and_then (with_tcp (\<lambda>m. and_then (rfc793_open_begin loc rem active m) (\<lambda>(i, c, m'). Ret ((i, c), m'))) s)
       (\<lambda>((i, c), s'). Ret (t\<lparr>tcp_phase_of := TcpOpening i c\<rparr>, s'))"

definition tcp_opening_phase :: "nat \<Rightarrow> nat \<Rightarrow> tcp_thread \<Rightarrow> stack \<Rightarrow> (tcp_thread \<times> stack) exec" where
  "tcp_opening_phase i c t s =
     and_then (with_pcbs (rfc793_open_resume c i) s) (\<lambda>(b, s').
     case b of
       Sleeping \<Rightarrow> Ret (t, s')
     | Returned r \<Rightarrow> Ret (t\<lparr>tcp_phase_of := TcpOpened, sock_opt := r\<rparr>, s'))"

definition tcp_receive_phase :: "tcp_thread \<Rightarrow> stack \<Rightarrow> (tcp_thread \<times> stack) exec" where
  "tcp_receive_phase t s =
     and_then (unwrap_option (sock_opt t)) (\<lambda>i.
     and_then (with_pcbs (\<lambda>m. and_then (receive_begin i m) (\<lambda>(c, l, m'). Ret ((c, l), m'))) s) (\<lambda>((c, l), s').
     Ret (t\<lparr>tcp_phase_of := TcpReceiving c l\<rparr>, s')))"

definition tcp_receiving_phase :: "nat \<Rightarrow> receive_loop \<Rightarrow> tcp_thread \<Rightarrow> stack \<Rightarrow> (tcp_thread \<times> stack) exec" where
  "tcp_receiving_phase c l t s =
     and_then (unwrap_option (sock_opt t)) (\<lambda>i.
     and_then (with_pcbs (\<lambda>m. and_then (receive_resume c i 2048 l m) (\<lambda>(b, l', m'). Ret ((b, l'), m'))) s)
       (\<lambda>((b, l'), s').
     case b of
       Sleeping \<Rightarrow> Ret (t\<lparr>tcp_phase_of := TcpReceiving c l'\<rparr>, s')
     | Returned _ \<Rightarrow> Ret (t\<lparr>tcp_phase_of := TcpTop\<rparr>, s')))"

definition tcp_send_step ::
  "bool \<Rightarrow> string \<Rightarrow> u16 \<Rightarrow> bytes \<Rightarrow> tcp_thread \<Rightarrow> stack \<Rightarrow> (tcp_thread \<times> stack) exec option" where
  "tcp_send_step terminate target_ip target_port data t s =
     (case tcp_phase_of t of
        TcpTop \<Rightarrow>
          Some (if terminate then Ret (t\<lparr>tcp_phase_of := TcpDone\<rparr>, s)
                else if sock_opt t \<noteq> None then Ret (t\<lparr>tcp_phase_of := TcpOpened\<rparr>, s)
                else
                  and_then (ip_endpoint_new_from_str ''192.0.2.2'' 7) (\<lambda>loc.
                  and_then (ip_endpoint_new_from_str target_ip target_port) (\<lambda>rem.
                  tcp_open_phase loc (Some rem) True t s)))
      | TcpOpening i c \<Rightarrow> Some (tcp_opening_phase i c t s)
      | TcpOpened \<Rightarrow>
          if request_sent t then Some (Ret (t\<lparr>tcp_phase_of := TcpReceive\<rparr>, s))
          else
            (case sock_opt t of
               None \<Rightarrow> Some (Fault UnwrapFailed)
             | Some i \<Rightarrow>
                 (case with_tcp (send_begin i) s of
                    Fault e \<Rightarrow> Some (Fault e)
                  | Ret (c, s1) \<Rightarrow>
                      map_option (\<lambda>r. and_then r (\<lambda>((st, sent), s2). Ret (after_send c t st sent, s2)))
                        (with_tcp_send (send_pass c i (request_bytes data) 0) s1)))
      | TcpSending c sent \<Rightarrow>
          (case sock_opt t of
             None \<Rightarrow> Some (Fault UnwrapFailed)
           | Some i \<Rightarrow>
               map_option (\<lambda>r. and_then r (\<lambda>((st, sent'), s2). Ret (after_send c t st sent', s2)))
                 (with_tcp_send (send_resume c i (request_bytes data) sent) s))
      | TcpReceive \<Rightarrow> Some (tcp_receive_phase t s)
      | TcpReceiving c l \<Rightarrow> Some (tcp_receiving_phase c l t s)
      | TcpDone \<Rightarrow> Some (Ret (t, s)))"

definition tcp_receive_step :: "bool \<Rightarrow> tcp_thread \<Rightarrow> stack \<Rightarrow> (tcp_thread \<times> stack) exec" where
  "tcp_receive_step terminate t s =
     (case tcp_phase_of t of
        TcpTop \<Rightarrow>
          if terminate then Ret (t\<lparr>tcp_phase_of := TcpDone\<rparr>, s)
          else if sock_opt t \<noteq> None then Ret (t\<lparr>tcp_phase_of := TcpOpened\<rparr>, s)
          else and_then (ip_endpoint_new_from_str ''0.0.0.0'' 7) (\<lambda>loc. tcp_open_phase loc None False t s)
      | TcpOpening i c \<Rightarrow> tcp_opening_phase i c t s
      | TcpOpened \<Rightarrow>
          Ret (t\<lparr>tcp_phase_of := (if sock_opt t = None then TcpDone else TcpReceive)\<rparr>, s)
      | TcpSending c sent \<Rightarrow> Ret (t, s)
      | TcpReceive \<Rightarrow> tcp_receive_phase t s
      | TcpReceiving c l \<Rightarrow> tcp_receiving_phase c l t s
      | TcpDone \<Rightarrow> Ret (t, s))"

section \<open>The UDP commands\<close>

datatype udp_phase = UdpTop | UdpReady | UdpWaiting nat | UdpDone

record udp_thread =
  udp_phase_of :: udp_phase
  soc_opt :: "nat option"
  sent_count :: nat

definition udp_thread_new :: udp_thread where
  "udp_thread_new = \<lparr>udp_phase_of = UdpTop, soc_opt = None, sent_count = 0\<rparr>"

definition set_udp :: "udp_pcbs \<Rightarrow> stack \<Rightarrow> stack" where
  "set_udp pcbs s = s\<lparr>st_pcbs := (st_pcbs s)\<lparr>udp_blocks := pcbs\<rparr>\<rparr>"

definition udp_top_phase :: "bool \<Rightarrow> udp_thread \<Rightarrow> stack \<Rightarrow> (udp_thread \<times> stack) exec" where
  "udp_top_phase terminate t s =
     (if terminate then Ret (t\<lparr>udp_phase_of := UdpDone\<rparr>, s)
      else if soc_opt t \<noteq> None then Ret (t\<lparr>udp_phase_of := UdpReady\<rparr>, s)
      else
        and_then (udp_open (udp_blocks (st_pcbs s))) (\<lambda>(soc, pcbs).
        and_then (ip_endpoint_new_from_str ''0.0.0.0'' 7) (\<lambda>loc.
        and_then (udp_bind pcbs soc loc) (\<lambda>pcbs'.
        Ret (t\<lparr>udp_phase_of := UdpReady, soc_opt := Some soc\<rparr>, set_udp pcbs' s)))))"

definition udp_listen_phase :: "udp_thread \<Rightarrow> stack \<Rightarrow> (udp_thread \<times> stack) exec" where
  "udp_listen_phase t s =
     and_then (unwrap_option (soc_opt t)) (\<lambda>i.
     and_then (udp_receive_begin i (udp_blocks (st_pcbs s)) (st_world s)) (\<lambda>(c, pcbs, w).
     Ret (t\<lparr>udp_phase_of := UdpWaiting c\<rparr>, set_udp pcbs s\<lparr>st_world := w\<rparr>)))"

definition udp_waiting_phase :: "nat \<Rightarrow> udp_thread \<Rightarrow> stack \<Rightarrow> (udp_thread \<times> stack) exec" where
  "udp_waiting_phase c t s =
     and_then (unwrap_option (soc_opt t)) (\<lambda>i.
     and_then (udp_receive_resume c i (udp_blocks (st_pcbs s)) (st_world s)) (\<lambda>(b, pcbs, w).
     let s' = set_udp pcbs s\<lparr>st_world := w\<rparr>
     in case b of
          Sleeping \<Rightarrow> Ret (t, s')
        | Returned _ \<Rightarrow> Ret (t\<lparr>udp_phase_of := UdpTop\<rparr>, s')))"

definition udp_send_step ::
  "bool \<Rightarrow> string \<Rightarrow> u16 \<Rightarrow> bytes \<Rightarrow> udp_thread \<Rightarrow> stack \<Rightarrow> (udp_thread \<times> stack) exec" where
  "udp_send_step terminate target_ip target_port data t s =
     (case udp_phase_of t of
        UdpTop \<Rightarrow> udp_top_phase terminate t s
      | UdpReady \<Rightarrow>
          if sent_count t < 2 then
            and_then (ip_endpoint_new_from_str target_ip target_port) (\<lambda>remote.
            and_then (unwrap_option (soc_opt t)) (\<lambda>i.
            and_then (with_ethernet (\<lambda>n. and_then
                (udp_send_to i (request_bytes data) remote (udp_blocks (st_pcbs s)) n) (\<lambda>n'. Ret ((), n'))) s)
              (\<lambda>(_, s'). Ret (t\<lparr>udp_phase_of := UdpTop, sent_count := sent_count t + 1\<rparr>, s'))))
          else udp_listen_phase t s
      | UdpWaiting c \<Rightarrow> udp_waiting_phase c t s
      | UdpDone \<Rightarrow> Ret (t, s))"

definition udp_receive_step :: "bool \<Rightarrow> udp_thread \<Rightarrow> stack \<Rightarrow> (udp_thread \<times> stack) exec" where
  "udp_receive_step terminate t s =
     (case udp_phase_of t of
        UdpTop \<Rightarrow> udp_top_phase terminate t s
      | UdpReady \<Rightarrow> udp_listen_phase t s
      | UdpWaiting c \<Rightarrow> udp_waiting_phase c t s
      | UdpDone \<Rightarrow> Ret (t, s))"


section \<open>The whole program\<close>

datatype command =
    TcpSendCommand string u16 bytes tcp_thread
  | TcpReceiveCommand tcp_thread
  | UdpSendCommand string u16 bytes udp_thread
  | UdpReceiveCommand udp_thread

text \<open>
  The command line after clap has parsed it: the structs \<open>Tcp\<close> and \<open>Udp\<close> hold an optional
  subcommand. A receive command does not use the local address and port it is given.
\<close>

datatype end_point_command = EndPointSend string u16 bytes | EndPointReceive string string

datatype commands = TcpCommand "end_point_command option" | UdpCommand "end_point_command option"

definition app_run :: "commands \<Rightarrow> command exec" where
  "app_run args =
     (case args of
        TcpCommand tcp \<Rightarrow>
          and_then (unwrap_option tcp) (\<lambda>tcp_command.
          case tcp_command of
            EndPointSend target_ip target_port data \<Rightarrow>
              Ret (TcpSendCommand target_ip target_port data tcp_thread_new)
          | EndPointReceive local_ip local_port \<Rightarrow> Ret (TcpReceiveCommand tcp_thread_new))
      | UdpCommand udp \<Rightarrow>
          and_then (unwrap_option udp) (\<lambda>udp_command.
          case udp_command of
            EndPointSend target_ip target_port data \<Rightarrow>
              Ret (UdpSendCommand target_ip target_port data udp_thread_new)
          | EndPointReceive local_ip local_port \<Rightarrow> Ret (UdpReceiveCommand udp_thread_new)))"

definition command_step :: "bool \<Rightarrow> command \<Rightarrow> stack \<Rightarrow> (command \<times> stack) exec option" where
  "command_step terminate cmd s =
     (case cmd of
        TcpSendCommand ip port data t \<Rightarrow>
          map_option (\<lambda>r. and_then r (\<lambda>(t', s'). Ret (TcpSendCommand ip port data t', s')))
            (tcp_send_step terminate ip port data t s)
      | TcpReceiveCommand t \<Rightarrow>
          Some (and_then (tcp_receive_step terminate t s) (\<lambda>(t', s'). Ret (TcpReceiveCommand t', s')))
      | UdpSendCommand ip port data t \<Rightarrow>
          Some (and_then (udp_send_step terminate ip port data t s) (\<lambda>(t', s'). Ret (UdpSendCommand ip port data t', s')))
      | UdpReceiveCommand t \<Rightarrow>
          Some (and_then (udp_receive_step terminate t s) (\<lambda>(t', s'). Ret (UdpReceiveCommand t', s'))))"

definition holds_locks :: "command \<Rightarrow> bool" where
  "holds_locks cmd =
     (case cmd of
        TcpSendCommand ip port data t \<Rightarrow>
          (case tcp_phase_of t of TcpSending c sent \<Rightarrow> True | _ \<Rightarrow> False)
      | _ \<Rightarrow> False)"

text \<open>The thread of the command has ended; its receiver of the termination message is dropped.\<close>

definition command_ended :: "command \<Rightarrow> bool" where
  "command_ended cmd =
     (case cmd of
        TcpSendCommand ip port data t \<Rightarrow> tcp_phase_of t = TcpDone
      | TcpReceiveCommand t \<Rightarrow> tcp_phase_of t = TcpDone
      | UdpSendCommand ip port data t \<Rightarrow> udp_phase_of t = UdpDone
      | UdpReceiveCommand t \<Rightarrow> udp_phase_of t = UdpDone)"

text \<open>
  \<open>app_sender.send(()).unwrap()\<close> of \<open>main\<close> panics when the command has ended already. The
  retransmission thread never ends by itself, so the second send succeeds.
\<close>

definition app_sender_send :: "command \<Rightarrow> unit exec" where
  "app_sender_send cmd = unwrap_result (if command_ended cmd then Err else Ok ())"

record system =
  sys_app :: net_app
  sys_command :: command
  sys_stopping :: bool
  sys_closed :: bool

text \<open>
  The steps of the three threads. When the signal loop has left, \<open>main\<close> asks both threads to end
  (\<open>sys_stopping\<close>) and then closes the sockets (\<open>sys_closed\<close>), which needs the lock of the blocks only; the
  retransmission thread and the command may still make steps before and after that. A panic of a
  step ends the run: there is no step for it.
\<close>

inductive sys_step :: "int list \<Rightarrow> system \<Rightarrow> system \<Rightarrow> bool" for term_signals where
  step_signal: "\<not> sys_stopping s \<Longrightarrow> \<not> holds_locks (sys_command s) \<Longrightarrow>
    handle_signal term_signals sig (sys_app s) = Ret (Continue, app') \<Longrightarrow>
    sys_step term_signals s (s\<lparr>sys_app := app'\<rparr>)"
| step_terminate: "\<not> sys_stopping s \<Longrightarrow> handle_signal term_signals sig (sys_app s) = Ret (Break, app') \<Longrightarrow>
    app_sender_send (sys_command s) = Ret () \<Longrightarrow>
    sys_step term_signals s (s\<lparr>sys_app := app', sys_stopping := True\<rparr>)"
| step_close: "sys_stopping s \<Longrightarrow> \<not> sys_closed s \<Longrightarrow> app_close_sockets (sys_app s) = Ret app' \<Longrightarrow>
    sys_step term_signals s (s\<lparr>sys_app := app', sys_closed := True\<rparr>)"
| step_tick: "\<not> holds_locks (sys_command s) \<Longrightarrow> transmit_tick (app_stack (sys_app s)) = Ret st' \<Longrightarrow>
    sys_step term_signals s (s\<lparr>sys_app := (sys_app s)\<lparr>app_stack := st'\<rparr>\<rparr>)"
| step_command: "command_step (sys_stopping s) (sys_command s) (app_stack (sys_app s)) = Some (Ret (cmd', st')) \<Longrightarrow>
    sys_step term_signals s (s\<lparr>sys_command := cmd', sys_app := (sys_app s)\<lparr>app_stack := st'\<rparr>\<rparr>)"

inductive_cases sys_stepE: "sys_step term_signals s s'"

definition sys_init :: "net_app \<Rightarrow> command \<Rightarrow> system" where
  "sys_init app cmd = \<lparr>sys_app = app, sys_command = cmd, sys_stopping = False, sys_closed = False\<rparr>"

text \<open>\<open>main\<close> up to the signal loop.\<close>

definition main_start :: "tap_os \<Rightarrow> world \<Rightarrow> commands \<Rightarrow> system exec" where
  "main_start os w args =
     and_then (app_new os w) (\<lambda>app.
     and_then (app_run args) (\<lambda>cmd.
     Ret (sys_init app cmd)))"

section \<open>The invariants in every reachable state\<close>

lemma blocking_not_Sleeping [simp]: "b \<noteq> Sleeping \<longleftrightarrow> (\<exists>r. b = Returned r)"
  by (cases b) auto

abbreviation app_blocks :: "net_app \<Rightarrow> control_blocks" where
  "app_blocks app \<equiv> st_pcbs (app_stack app)"

lemma with_ethernet_pcbs: "with_ethernet f s = Ret (x, s') \<Longrightarrow> st_pcbs s' = st_pcbs s"
  by (auto simp: with_ethernet_def exec_simps)

lemma with_tcp_wf:
  assumes "blocks_wf (st_pcbs s)" "with_tcp f s = Ret (x, s')"
    and "\<And>m x m'. tcp_wf (fst m) \<Longrightarrow> f m = Ret (x, m') \<Longrightarrow> tcp_wf (fst m')"
  shows "blocks_wf (st_pcbs s')"
proof -
  let ?g = "\<lambda>n. and_then (f (tcp_blocks (st_pcbs s), n)) (\<lambda>(x, pcbs, n'). Ret ((x, pcbs), n'))"
  from assms(2) obtain pcbs s1 where e: "with_ethernet ?g s = Ret ((x, pcbs), s1)"
    and s': "s' = s1\<lparr>st_pcbs := (st_pcbs s1)\<lparr>tcp_blocks := pcbs\<rparr>\<rparr>"
    by (auto simp: with_tcp_def exec_simps)
  from e obtain n n' where "f (tcp_blocks (st_pcbs s), n) = Ret (x, pcbs, n')"
    by (auto simp: with_ethernet_def exec_simps)
  from assms(3) [OF _ this] assms(1) have "tcp_wf pcbs" by (simp add: blocks_wf_def)
  with assms(1) with_ethernet_pcbs [OF e] show ?thesis by (simp add: s' blocks_wf_def)
qed

lemma with_pcbs_wf:
  assumes "blocks_wf (st_pcbs s)" "with_pcbs f s = Ret (x, s')"
    and "\<And>m x m'. tcp_wf (fst m) \<Longrightarrow> f m = Ret (x, m') \<Longrightarrow> tcp_wf (fst m')"
  shows "blocks_wf (st_pcbs s')"
  using assms(1,2) assms(3) [of "(tcp_blocks (st_pcbs s), st_world s)"]
  by (fastforce simp: with_pcbs_def exec_simps blocks_wf_def)

lemma transmit_tick_wf:
  assumes "blocks_wf (st_pcbs s)" "transmit_tick s = Ret s'"
  shows "blocks_wf (st_pcbs s')"
proof -
  from assms(2) obtain x where
    "with_tcp (\<lambda>m. and_then (retransmit (fst m) (snd m)) (\<lambda>m'. Ret ((), m'))) s = Ret (x, s')"
    by (auto simp: transmit_tick_def exec_simps)
  with assms(1) show ?thesis
    by (rule with_tcp_wf) (auto simp: exec_simps dest: retransmit_wf)
qed

lemma tcp_open_phase_wf:
  assumes "blocks_wf (st_pcbs s)" "tcp_open_phase loc rem active t s = Ret (t', s')"
  shows "blocks_wf (st_pcbs s')"
proof -
  from assms(2) obtain x where
    "with_tcp (\<lambda>m. and_then (rfc793_open_begin loc rem active m) (\<lambda>(i, c, m'). Ret ((i, c), m'))) s = Ret (x, s')"
    by (auto simp: tcp_open_phase_def exec_simps)
  with assms(1) show ?thesis
    by (rule with_tcp_wf) (auto simp: exec_simps dest: rfc793_open_begin_wf)
qed

lemma tcp_opening_phase_wf:
  assumes "blocks_wf (st_pcbs s)" "tcp_opening_phase i c t s = Ret (t', s')"
  shows "blocks_wf (st_pcbs s')"
proof -
  from assms(2) obtain x where "with_pcbs (rfc793_open_resume c i) s = Ret (x, s')"
    by (auto simp: tcp_opening_phase_def exec_simps split: blocking.split_asm)
  with assms(1) show ?thesis by (rule with_pcbs_wf) (rule rfc793_open_resume_wf)
qed

lemma tcp_receive_phase_wf:
  assumes "blocks_wf (st_pcbs s)" "tcp_receive_phase t s = Ret (t', s')"
  shows "blocks_wf (st_pcbs s')"
proof -
  from assms(2) obtain i x where
    "with_pcbs (\<lambda>m. and_then (receive_begin i m) (\<lambda>(c, l, m'). Ret ((c, l), m'))) s = Ret (x, s')"
    by (auto simp: tcp_receive_phase_def exec_simps)
  with assms(1) show ?thesis by (rule with_pcbs_wf) (auto simp: exec_simps dest: receive_begin_wf [rotated])
qed

lemma tcp_receiving_phase_wf:
  assumes "blocks_wf (st_pcbs s)" "tcp_receiving_phase c l t s = Ret (t', s')"
  shows "blocks_wf (st_pcbs s')"
proof -
  from assms(2) obtain i x where
    "with_pcbs (\<lambda>m. and_then (receive_resume c i 2048 l m) (\<lambda>(b, l', m'). Ret ((b, l'), m'))) s = Ret (x, s')"
    by (auto simp: tcp_receiving_phase_def exec_simps split: blocking.split_asm)
  with assms(1) show ?thesis by (rule with_pcbs_wf) (auto simp: exec_simps dest: receive_resume_wf [rotated])
qed

lemma with_tcp_send_wf:
  assumes "blocks_wf (st_pcbs s)" "with_tcp_send f s = Some (Ret (x, s'))"
    and "\<And>m st sent m'. tcp_wf (fst m) \<Longrightarrow> f m = Some (Ret (st, sent, m')) \<Longrightarrow> tcp_wf (fst m')"
  shows "blocks_wf (st_pcbs s')"
proof -
  from assms(2) obtain d r where
    f: "f (tcp_blocks (st_pcbs s), net_of d (st_contexts s) (st_world s)) = Some r"
    and w: "with_tcp (\<lambda>m. and_then r (\<lambda>(st, sent, m'). Ret ((st, sent), m'))) s = Ret (x, s')"
    by (auto simp: with_tcp_send_def split: option.splits)
  show ?thesis
  proof (rule with_tcp_wf [OF assms(1) w])
    fix m :: tcp_machine and x m'
    assume "and_then r (\<lambda>(st, sent, m'). Ret ((st, sent), m')) = Ret (x, m')"
    then obtain st sent where "r = Ret (st, sent, m')" by (auto simp: exec_simps)
    with assms(3) [of "(tcp_blocks (st_pcbs s), net_of d (st_contexts s) (st_world s))"] f assms(1)
    show "tcp_wf (fst m')" by (simp add: blocks_wf_def)
  qed
qed

lemmas tcp_phase_wf = tcp_open_phase_wf tcp_opening_phase_wf tcp_receive_phase_wf tcp_receiving_phase_wf

lemma send_begin_phase_wf:
  "blocks_wf (st_pcbs s) \<Longrightarrow> with_tcp (send_begin i) s = Ret (c, s') \<Longrightarrow> blocks_wf (st_pcbs s')"
  by (erule (1) with_tcp_wf) (rule send_begin_wf)

lemma send_pass_phase_wf:
  "blocks_wf (st_pcbs s) \<Longrightarrow> with_tcp_send (send_pass c i data sent) s = Some (Ret (x, s')) \<Longrightarrow> blocks_wf (st_pcbs s')"
  by (erule (1) with_tcp_send_wf) (rule send_pass_wf)

lemma send_resume_phase_wf:
  "blocks_wf (st_pcbs s) \<Longrightarrow> with_tcp_send (send_resume c i data sent) s = Some (Ret (x, s')) \<Longrightarrow> blocks_wf (st_pcbs s')"
  by (erule (1) with_tcp_send_wf) (rule send_resume_wf)

lemma tcp_send_step_wf:
  assumes wf: "blocks_wf (st_pcbs s)" and step: "tcp_send_step term ip port data t s = Some (Ret (t', s'))"
  shows "blocks_wf (st_pcbs s')"
proof (cases "tcp_phase_of t")
  case TcpTop
  with step wf show ?thesis
    by (auto simp: tcp_send_step_def exec_simps dest: tcp_open_phase_wf split: if_splits)
next
  case TcpOpened
  show ?thesis
  proof (cases "request_sent t")
    case True
    with step TcpOpened wf show ?thesis by (simp add: tcp_send_step_def)
  next
    case False
    with step TcpOpened obtain i c s1 where "with_tcp (send_begin i) s = Ret (c, s1)"
      and "\<exists>x. with_tcp_send (send_pass c i (request_bytes data) 0) s1 = Some (Ret (x, s'))"
      by (auto simp: tcp_send_step_def exec_simps split: option.split_asm exec.split_asm)
    with wf show ?thesis by (blast dest: send_begin_phase_wf send_pass_phase_wf)
  qed
next
  case (TcpSending c sent)
  with step obtain i x where "with_tcp_send (send_resume c i (request_bytes data) sent) s = Some (Ret (x, s'))"
    by (auto simp: tcp_send_step_def exec_simps split: option.split_asm)
  with wf show ?thesis by (rule send_resume_phase_wf)
qed (use step wf in \<open>auto simp: tcp_send_step_def dest: tcp_phase_wf\<close>)

lemma tcp_receive_step_wf:
  assumes "blocks_wf (st_pcbs s)" "tcp_receive_step term t s = Ret (t', s')"
  shows "blocks_wf (st_pcbs s')"
  using assms
  by (cases "tcp_phase_of t") (auto simp: tcp_receive_step_def exec_simps dest: tcp_phase_wf split: if_splits)

lemma set_udp_wf: "blocks_wf (st_pcbs s) \<Longrightarrow> udp_wf pcbs \<Longrightarrow> blocks_wf (st_pcbs (set_udp pcbs s))"
  by (simp add: set_udp_def blocks_wf_def)

lemma udp_top_phase_wf:
  assumes "blocks_wf (st_pcbs s)" "udp_top_phase term t s = Ret (t', s')"
  shows "blocks_wf (st_pcbs s')"
proof (cases "term \<or> soc_opt t \<noteq> None")
  case True
  with assms show ?thesis by (auto simp: udp_top_phase_def split: if_splits)
next
  case False
  with assms(2) obtain i pcbs loc pcbs' where o: "udp_open (udp_blocks (st_pcbs s)) = Ret (i, pcbs)"
    and b: "udp_bind pcbs i loc = Ret pcbs'" and s': "s' = set_udp pcbs' s"
    by (auto simp: udp_top_phase_def exec_simps)
  have "udp_wf (udp_blocks (st_pcbs s))" using assms(1) by (simp add: blocks_wf_def)
  from udp_open_wf [OF this o] this have "udp_wf pcbs" "udp_state (pcbs ! i) = UdpOpen"
    by (auto simp: udp_wf_def)
  from udp_bind_wf [OF this b] have "udp_wf pcbs'" by blast
  with assms(1) show ?thesis unfolding s' by (rule set_udp_wf)
qed

lemma udp_listen_phase_wf:
  assumes "blocks_wf (st_pcbs s)" "udp_listen_phase t s = Ret (t', s')"
  shows "blocks_wf (st_pcbs s')"
proof -
  from assms(2) obtain i c pcbs w where r: "udp_receive_begin i (udp_blocks (st_pcbs s)) (st_world s) = Ret (c, pcbs, w)"
    and s': "st_pcbs s' = st_pcbs (set_udp pcbs s)"
    by (auto simp: udp_listen_phase_def exec_simps)
  have "udp_wf pcbs"
    using udp_receive_begin_keeps [OF _ r] assms(1) by (simp add: blocks_wf_def)
  with assms(1) show ?thesis by (simp add: s' set_udp_wf)
qed

lemma udp_waiting_phase_wf:
  assumes "blocks_wf (st_pcbs s)" "udp_waiting_phase c t s = Ret (t', s')"
  shows "blocks_wf (st_pcbs s')"
proof -
  from assms(2) obtain i b pcbs w where r: "udp_receive_resume c i (udp_blocks (st_pcbs s)) (st_world s) = Ret (b, pcbs, w)"
    and s': "st_pcbs s' = st_pcbs (set_udp pcbs s)"
    by (auto simp: udp_waiting_phase_def exec_simps Let_def split: blocking.split_asm)
  have "udp_wf pcbs"
    using udp_receive_resume_keeps [OF _ r] assms(1) by (simp add: blocks_wf_def)
  with assms(1) show ?thesis by (simp add: s' set_udp_wf)
qed

lemmas udp_phase_wf = udp_top_phase_wf udp_listen_phase_wf udp_waiting_phase_wf

lemma udp_send_step_wf:
  assumes "blocks_wf (st_pcbs s)" "udp_send_step term ip port data t s = Ret (t', s')"
  shows "blocks_wf (st_pcbs s')"
  using assms
  by (cases "udp_phase_of t")
    (auto simp: udp_send_step_def exec_simps dest: udp_phase_wf with_ethernet_pcbs split: if_splits)

lemma udp_receive_step_wf:
  assumes "blocks_wf (st_pcbs s)" "udp_receive_step term t s = Ret (t', s')"
  shows "blocks_wf (st_pcbs s')"
  using assms by (cases "udp_phase_of t") (auto simp: udp_receive_step_def dest: udp_phase_wf)

lemma command_step_wf:
  assumes "blocks_wf (st_pcbs s)" "command_step term cmd s = Some (Ret (cmd', s'))"
  shows "blocks_wf (st_pcbs s')"
  using assms
  by (cases cmd)
    (auto simp: command_step_def exec_simps
      dest: tcp_send_step_wf tcp_receive_step_wf udp_send_step_wf udp_receive_step_wf)

lemma handle_signal_wf:
  assumes "blocks_wf (app_blocks app)" "handle_signal ts sig app = Ret (c, app')"
  shows "blocks_wf (app_blocks app')"
  using assms
  by (auto simp: handle_signal_def app_handle_protocol_def app_handle_irq_def Let_def exec_simps
      dest: handle_data_wf(1) split: if_splits)

lemma app_close_sockets_wf:
  assumes "blocks_wf (app_blocks app)" "app_close_sockets app = Ret app'"
  shows "blocks_wf (app_blocks app')"
proof -
  obtain w1 where w1: "udp_close_sockets (udp_blocks (app_blocks app)) (st_world (app_stack app)) = Ret w1"
    using assms(2) by (auto simp: app_close_sockets_def exec_simps Let_def)
  obtain pcbs w2 where r: "tcp_close_sockets (tcp_blocks (app_blocks app)) w1 = (pcbs, w2)" by fastforce
  have "tcp_wf pcbs" using assms(1) by (intro tcp_close_sockets_wf [OF _ r]) (simp add: blocks_wf_def)
  with assms w1 r show ?thesis by (auto simp: app_close_sockets_def blocks_wf_def Let_def)
qed

lemma sys_step_wf:
  assumes "sys_step ts s s'" "blocks_wf (app_blocks (sys_app s))"
  shows "blocks_wf (app_blocks (sys_app s'))"
  using assms
proof (induction rule: sys_step.induct)
  case (step_signal s sig app')
  then show ?case using handle_signal_wf [of "sys_app s" ts sig Continue app'] by simp
next
  case (step_terminate s sig app')
  then show ?case using handle_signal_wf [of "sys_app s" ts sig Break app'] by simp
next
  case (step_close s app')
  then show ?case using app_close_sockets_wf [of "sys_app s" app'] by simp
next
  case (step_tick s st')
  then show ?case using transmit_tick_wf [of "app_stack (sys_app s)" st'] by simp
next
  case (step_command s cmd' st')
  then show ?case using command_step_wf [of "app_stack (sys_app s)" "sys_stopping s" "sys_command s" cmd' st'] by simp
qed

lemma app_new_blocks: "app_new os w = Ret app \<Longrightarrow> app_blocks app = control_blocks_new"
  by (auto simp: app_new_def exec_simps Let_def)

lemma sys_reachable_wf:
  assumes "(sys_step ts)\<^sup>*\<^sup>* (sys_init app cmd) s" "app_new os w = Ret app"
  shows "blocks_wf (app_blocks (sys_app s))"
  using assms(1)
proof (induction rule: rtranclp_induct)
  case base
  show ?case using app_new_blocks [OF assms(2)] by (simp add: sys_init_def blocks_wf_new)
next
  case (step s t)
  then show ?case using sys_step_wf by blast
qed

lemma main_reachable_wf:
  assumes "main_start os w args = Ret s0" "(sys_step ts)\<^sup>*\<^sup>* s0 s"
  shows "blocks_wf (app_blocks (sys_app s))"
  using assms sys_reachable_wf by (auto simp: main_start_def exec_simps)


section \<open>The configuration\<close>

lemma ip_addr_constants [simp]:
  "ip_addr_to_bytes ''127.0.0.1'' = Ret (Some 0x0100007F)"
  "ip_addr_to_bytes ''255.255.255.0'' = Ret (Some 0x00FFFFFF)"
  "ip_addr_to_bytes ''192.0.2.1'' = Ret (Some 0x010200C0)"
  "ip_addr_to_bytes ''192.0.2.2'' = Ret (Some 0x020200C0)"
  "ip_addr_to_bytes ''0.0.0.0'' = Ret (Some 0)"
  by (simp_all add: ip_addr_to_bytes_def parse_u8_def digit_value_def Let_def of_char_def split_on.simps ip_addr_parts.simps)


text \<open>What \<open>app_new\<close> builds when every system call succeeds and the kernel reports the hardware address \<open>hw\<close>.\<close>

definition tap_os_ok :: "tap_os \<Rightarrow> (nat \<Rightarrow> bytes option) \<Rightarrow> bytes \<Rightarrow> bool" where
  "tap_os_ok os file hw \<longleftrightarrow>
     os = \<lparr>os_file = Some file, os_ifreq = True, os_set_iff = True, os_set_own = True, os_set_flags = True,
           os_set_sig = True, os_socket = True, os_hw_addr = Some hw\<rparr> \<and> length hw = 14"

definition lo_interface :: ip_interface where
  "lo_interface = \<lparr>family = IP_Family, unicast = 0x0100007F, netmask = 0x00FFFFFF, broadcast = 0xFF00007F\<rparr>"

definition eth_interface :: ip_interface where
  "eth_interface = \<lparr>family = IP_Family, unicast = 0x020200C0, netmask = 0x00FFFFFF, broadcast = 0xFF0200C0\<rparr>"

definition gw_route :: ip_route where
  "gw_route = \<lparr>rt_network = 0, rt_netmask = 0, rt_next_hop = 0x010200C0, rt_interface = eth_interface\<rparr>"

definition config_routes :: ip_routes where
  "config_routes = list_push (list_push list_new (interface_route lo_interface)) gw_route"

definition config_contexts :: protocol_contexts where
  "config_contexts = \<lparr>ctx_arp_table = arp_table_new, ctx_ip_routes = config_routes, ctx_ip_id = 128\<rparr>"

definition lo_device :: net_device where
  "lo_device = (loopback_init 0)\<lparr>dev_flags := 0x0011, interfaces := list_push list_new lo_interface\<rparr>"

definition eth_device :: "(nat \<Rightarrow> bytes option) \<Rightarrow> bytes \<Rightarrow> net_device" where
  "eth_device file hw =
     (ethernet_init 1 Tap)\<lparr>dev_flags := 0x0121, dev_address := hw, interfaces := list_push list_new eth_interface,
       driver_data := Some \<lparr>file_read = file, file_reads = 0, file_writes = [], drv_irq = ETH_TAP_IRQ\<rparr>\<rparr>"

definition config_app :: "(nat \<Rightarrow> bytes option) \<Rightarrow> bytes \<Rightarrow> world \<Rightarrow> net_app" where
  "config_app file hw w =
     \<lparr>app_stack = \<lparr>st_world = w, st_devices = list_push (list_push list_new lo_device) (eth_device file hw),
                   st_contexts = config_contexts, st_pcbs = control_blocks_new\<rparr>,
      app_protocols = list_push (list_push list_new (net_protocol_new Arp_Type)) (net_protocol_new IP_Type)\<rparr>"

lemma config_interfaces:
  "ip_interface_new ''127.0.0.1'' ''255.255.255.0'' = Ret lo_interface"
  "ip_interface_new ''192.0.2.2'' ''255.255.255.0'' = Ret eth_interface"
  by (simp_all add: ip_interface_new_def lo_interface_def eth_interface_def)

lemmas flag_consts = DEVICE_FLAG_UP_def DEVICE_FLAG_LOOPBACK_def DEVICE_FLAG_BROADCAST_def DEVICE_FLAG_NEED_ARP_def

lemma app_new_config:
  assumes "tap_os_ok os file hw"
  shows "app_new os w = Ret (config_app file hw w)"
proof -
  have lo: "open_with_interface os (loopback_init 0) LOOPBACK_IP LOOPBACK_NETMASK = Ret (lo_device, lo_interface)"
    by (simp add: open_with_interface_def device_open_def loopback_open_def loopback_init_def net_device_new_def
        LOOPBACK_IP_def LOOPBACK_NETMASK_def config_interfaces register_interface_def lo_device_def
        device_consts flag_consts)
  have eth: "open_with_interface os (ethernet_init 1 Tap) ETH_TAP_IP ETH_TAP_NETMASK =
      Ret (eth_device file hw, eth_interface)"
    using assms
    by (simp add: open_with_interface_def device_open_def ethernet_open_def ethernet_init_def net_device_new_def
        tap_open_def set_tap_address_def slice_to_def tap_os_ok_def ETH_TAP_IP_def ETH_TAP_NETMASK_def
        config_interfaces register_interface_def eth_device_def device_consts ETH_ADDR_ANY_def flag_consts)
  show ?thesis
    by (simp add: app_new_def lo eth gateway_route_def DEFAULT_GATEWAY_def config_app_def config_contexts_def
        config_routes_def gw_route_def net_devices_register_def net_devices_new_def ip_routes_register_def
        ip_routes_new_def net_protocols_register_def net_protocols_new_def ip_id_new_def IP_ADDR_ANY_def Let_def)
qed

text \<open>Routing in this configuration: 127.0.0.0/24 to the loopback interface, everything else to the gateway.\<close>

lemma config_route:
  "lookup_ip_route config_routes dst =
     Some (if dst AND 0x00FFFFFF = 0x0000007F then interface_route lo_interface else gw_route)"
proof -
  have "list_iter config_routes = [interface_route lo_interface, gw_route]"
    by (simp add: config_routes_def rust_list.iter_push rust_list.iter_new)
  then show ?thesis
    by (auto simp: lookup_ip_route_def lookup_step_def route_matches_def interface_route_def lo_interface_def
        gw_route_def byte_order_defs byte_swap_u32_def)
qed


lemma eth_device_facts [simp]:
  assumes "length hw = 14"
  shows "tap_ready (eth_device file hw)" "get_interface (eth_device file hw) IP_Family = Some eth_interface"
    "dev_mac (eth_device file hw) = take 6 hw" "mtu (eth_device file hw) = 1500"
    "0 < dev_flags (eth_device file hw) AND DEVICE_FLAG_NEED_ARP"
  using assms
  by (simp_all add: tap_ready_def is_open_def eth_device_def ethernet_init_def net_device_new_def dev_mac_def
      get_interface_def rust_list.iter_push rust_list.iter_new eth_interface_def device_consts flag_consts)

section \<open>A sender that waits for the window\<close>

lemma world_net_of [simp]:
  "world_of (net_of d ctx w) = w" "device (net_of d ctx w) = d" "contexts (net_of d ctx w) = ctx"
  "chans (net_of d ctx w) = chans w"
  by (simp_all add: world_of_def net_of_def)

lemma seq_set_same:
  "find (\<lambda>d. device_type d = Ethernet) es = Some d \<Longrightarrow>
   seq_iter_mut (\<lambda>e (u :: unit). if device_type e = Ethernet then Ret (d, (), Break) else Ret (e, (), Continue)) es ()
     = Ret (es, ())"
  by (induction es) (auto split: if_splits)

lemma set_ethernet_same: "get_mut_by_type ds Ethernet = Some d \<Longrightarrow> set_ethernet d ds = Ret ds"
  by (simp add: get_mut_by_type_def set_ethernet_def for_iter_mut_same [OF seq_set_same])

text \<open>
  The window opens when \<open>segment_arrives\<close> processes an acknowledgement. That needs the
  locks the sender holds: from here on only a termination signal changes the state.
\<close>

definition waits_for_window :: "system \<Rightarrow> bool" where
  "waits_for_window s \<longleftrightarrow>
     (\<exists>ip port data t c sent i d. sys_command s = TcpSendCommand ip port data t \<and> tcp_phase_of t = TcpSending c sent \<and>
        sock_opt t = Some i \<and> get_mut_by_type (st_devices (app_stack (sys_app s))) Ethernet = Some d \<and>
        chan_recv c (st_world (app_stack (sys_app s))) = (Blocked, st_world (app_stack (sys_app s))))"

lemma chan_recv_net_of:
  "chan_recv c w = (Blocked, w) \<Longrightarrow> chan_recv c (net_of d ctx w) = (Blocked, net_of d ctx w)"
  by (auto simp: chan_recv_def split: if_splits list.splits)

lemma command_waits:
  assumes "tcp_phase_of t = TcpSending c sent" "sock_opt t = Some i"
    and "get_mut_by_type (st_devices st) Ethernet = Some d"
    and "chan_recv c (st_world st) = (Blocked, st_world st)"
  shows "command_step stop (TcpSendCommand ip port data t) st = Some (Ret (TcpSendCommand ip port data t, st))"
proof -
  let ?n = "net_of d (st_contexts st) (st_world st)"
  have r: "send_resume c i (request_bytes data) sent (tcp_blocks (st_pcbs st), ?n) =
      Some (Ret (AwaitWindow, sent, tcp_blocks (st_pcbs st), ?n))"
    using chan_recv_net_of [OF assms(4)] by (simp add: send_resume_def)
  have "with_tcp_send (send_resume c i (request_bytes data) sent) st = Some (Ret ((AwaitWindow, sent), st))"
    using assms(3) r
    by (simp add: with_tcp_send_def with_tcp_def with_ethernet_def set_ethernet_same)
  then have "tcp_send_step stop ip port data t st = Some (Ret (t, st))"
    using assms(1,2) by (simp add: tcp_send_step_def after_send_def)
  then show ?thesis by (simp add: command_step_def)
qed

lemma waits_step:
  assumes "sys_step ts s s'" "waits_for_window s"
  shows "s' = s \<or> sys_stopping s'"
proof -
  have locked: "holds_locks (sys_command s)" using assms(2) by (auto simp: waits_for_window_def holds_locks_def)
  from assms(1) show ?thesis
  proof cases
    case (step_command cmd' st')
    with assms(2) command_waits show ?thesis by (auto simp: waits_for_window_def)
  qed (use locked in simp_all)
qed

lemma waits_forever:
  assumes "(sys_step ts)\<^sup>*\<^sup>* s s'" "waits_for_window s"
  shows "s' = s \<or> sys_stopping s'"
  using assms(1)
proof (induction rule: rtranclp_induct)
  case (step t u)
  show ?case
  proof (cases "sys_stopping t")
    case True
    from step(2) True show ?thesis by cases auto
  next
    case False
    with step.IH have "t = s" by simp
    with step(2) assms(2) show ?thesis using waits_step by blast
  qed
qed simp

end
