(* ===== verification/Tcp_Exchange.thy ===== *)
theory Tcp_Exchange
  imports Tcp_User
begin

text \<open>
  TCP segments on the wire: what \<open>output_segment\<close> sends is what \<open>tcp_input\<close> of the receiver
  passes to \<open>segment_arrives\<close>, as long as the frame is not padded. On decoded segments: the handlers of
  both ends of a three-way handshake end ESTABLISHED with matching sequence numbers; data in
  order is stored, acknowledged and read back in order.
\<close>

section \<open>Segments on the wire\<close>

lemma tcp_header_of_simps:
  "tcp_src_port (tcp_header_of seq ack flags window loc rem) = ep_port loc"
  "tcp_dst_port (tcp_header_of seq ack flags window loc rem) = ep_port rem"
  "tcp_seq_num (tcp_header_of seq ack flags window loc rem) = le_to_be_u32 seq"
  "tcp_ack_num (tcp_header_of seq ack flags window loc rem) = le_to_be_u32 ack"
  "tcp_offset (tcp_header_of seq ack flags window loc rem) = 0x50"
  "tcp_flags (tcp_header_of seq ack flags window loc rem) = flags"
  "tcp_window (tcp_header_of seq ack flags window loc rem) = le_to_be_u16 window"
  "tcp_urg_ptr (tcp_header_of seq ack flags window loc rem) = 0"
  by (simp_all add: tcp_header_of_def)

definition segment_of :: "u32 \<Rightarrow> u32 \<Rightarrow> u8 \<Rightarrow> u16 \<Rightarrow> bytes \<Rightarrow> tcp_segment_info" where
  "segment_of seq ack flags window data =
     \<lparr>seg_seq = seq, seg_ack = ack, seg_len = of_nat (segment_length (length data) flags), seg_window = window,
      seg_urg = 0\<rparr>"

lemma tcp_segment_read:
  "bytes_to_struct TCP_HDR_SIZE tcp_header_read (tcp_segment seq ack flags window data loc rem c) =
     Ret ((tcp_header_of seq ack flags window loc rem)\<lparr>tcp_sum := le_to_be_u16 c\<rparr>)"
  unfolding tcp_segment_def by (rule tcp_hdr.bytes_to_struct_layout) (simp add: tcp_header_wf_def)

definition unicast_pair :: "ip_address \<Rightarrow> ip_address \<Rightarrow> ip_interface \<Rightarrow> bool" where
  "unicast_pair src dst iface \<longleftrightarrow>
     src \<noteq> IP_ADDR_ANY \<and> src \<noteq> broadcast iface \<and> dst \<noteq> IP_ADDR_ANY \<and> dst \<noteq> broadcast iface"

lemma tcp_input_segment:
  assumes "length data \<le> 65515" "unicast_pair (ep_address loc) (ep_address rem) iface"
    and "pseudo_sum (ep_address loc) (ep_address rem) Tcp (le_to_be_u16 (of_nat (20 + length data))) = Ret s"
    and "cksum16 (tcp_segment seq ack flags window data loc rem c) (20 + length data) s = Ret 0"
  shows "tcp_input (tcp_segment seq ack flags window data loc rem c) (20 + length data)
      (ep_address loc) (ep_address rem) iface m =
    and_then (segment_arrives (segment_of seq ack flags window data) flags data (length data) rem loc m)
      (\<lambda>m'. Ret (Ok (), m'))"
proof -
  have zero: "be_to_le_u16 0 = 0" by (simp add: byte_order_defs byte_swap_u16_def)
  have ep: "\<lparr>ep_address = ep_address e, ep_port = ep_port e\<rparr> = e" for e :: ip_endpoint by simp
  have sl: "slice_from (tcp_segment seq ack flags window data loc rem c) TCP_HDR_SIZE = Ret data"
    by (simp add: slice_from_def TCP_HDR_SIZE_def)
  show ?thesis
    using assms tcp_segment_read [of seq ack flags window data loc rem c] sl
    by (simp add: tcp_input_def unicast_pair_def tcp_header_of_simps ep TCP_HDR_SIZE_def usize_sub_def zero
        segment_of_def)
qed

text \<open>The sum of a segment with trailing zeros and a longer length never verifies.\<close>

lemma ones_fold_mod: "ones_fold n mod 65535 = n mod 65535"
proof (cases n)
  case (Suc k)
  then have "ones_fold n mod 65535 = ((k mod 65535) + 1) mod 65535" by (simp add: ones_fold_def)
  also have "\<dots> = n mod 65535" using Suc by (simp add: mod_Suc_eq)
  finally show ?thesis .
qed (simp add: ones_fold_def)

lemma cksum16_zero_mod:
  assumes "len = length data" "unat s + word_sum data < 4294967296" "cksum16 data len s = Ret 0"
  shows "(unat s + word_sum data) mod 65535 = 0"
proof -
  let ?n = "unat s + word_sum data"
  define k where "k = 65535 - ones_fold ?n"
  have "of_nat k = (0 :: u16)" using cksum16_reference [of len data s] assms by (simp add: k_def)
  moreover have "unat (of_nat k :: u16) = k" by (rule unat_of_nat_u16) (simp add: k_def)
  ultimately have "65535 - ones_fold ?n = 0" by (simp flip: k_def)
  then have "ones_fold ?n = 65535" using ones_fold_le [of ?n] by simp
  then show ?thesis using ones_fold_mod [of ?n] by simp
qed


lemma pseudo_sum_value:
  assumes "pseudo_sum src dst proto (le_to_be_u16 (of_nat l)) = Ret s" "l < 65536"
  shows "unat s = ones_fold (word_sum (u32_to_bytes src @ u32_to_bytes dst @ [0, ip_protocol_as_u8 proto]) + l)"
proof -
  let ?h = "u32_to_bytes src @ u32_to_bytes dst @ [0, ip_protocol_as_u8 proto]"
  let ?b = "?h @ rev (u16_to_bytes (of_nat l))"
  have b: "to_u8_slice pseudo_header_layout \<lparr>ps_src = src, ps_dst = dst, ps_zero = 0,
      ps_protocol = ip_protocol_as_u8 proto, ps_len = le_to_be_u16 (of_nat l)\<rparr> = ?b"
    by (simp add: to_u8_slice_def pseudo_header_layout_def byte_simps)
  have ws: "word_sum ?b = word_sum ?h + l"
    using word_sum_append [of ?h "rev (u16_to_bytes (of_nat l))"] word_sum_be16 [of "of_nat l"] assms(2)
    by (simp add: u32_to_bytes_def)
  have len: "length ?b = 12" by simp
  have "word_sum ?b < 4294967296" using word_sum_bound [of ?b] len by simp
  then have c: "cksum16 ?b 12 0 = Ret (of_nat (65535 - ones_fold (word_sum ?b)))"
    using cksum16_reference [of 12 ?b 0] len by simp
  have "s = ucast (NOT (of_nat (65535 - ones_fold (word_sum ?b)) :: u16))"
    using assms(1) c unfolding pseudo_sum_def b Let_def len by simp
  moreover have "NOT (of_nat (65535 - ones_fold (word_sum ?b)) :: u16) = of_nat (ones_fold (word_sum ?b))"
    using not_word_of_nat [of "of_nat (65535 - ones_fold (word_sum ?b))" "65535 - ones_fold (word_sum ?b)"]
      ones_fold_le [of "word_sum ?b"] unat_of_nat_u16 [of "65535 - ones_fold (word_sum ?b)"] by simp
  ultimately have "unat s = ones_fold (word_sum ?b)"
    using ones_fold_le [of "word_sum ?b"] by simp
  then show ?thesis by (simp only: ws)
qed


lemma word_sum_zeros [simp]: "word_sum (replicate k 0) = 0"
  by (induction k rule: induct_nat_012) simp_all

text \<open>
  A segment in a frame that Ethernet had to pad: the stack hands the padding to TCP as
  part of the segment, with the padded length in the pseudo header.
\<close>

lemma tcp_input_padded:
  assumes "length data \<le> 65000" "even (length data)" "0 < k" "k \<le> 46"
    and "pseudo_sum (ep_address loc) (ep_address rem) Tcp (le_to_be_u16 (of_nat (20 + length data))) = Ret s"
    and "cksum16 (tcp_segment seq ack flags window data loc rem c) (20 + length data) s = Ret 0"
  shows "tcp_input (tcp_segment seq ack flags window data loc rem c @ replicate k 0) (20 + length data + k)
      (ep_address loc) (ep_address rem) iface m = Ret (Err, m)"
proof -
  let ?seg = "tcp_segment seq ack flags window data loc rem c"
  let ?l = "20 + length data"
  let ?h = "word_sum (u32_to_bytes (ep_address loc) @ u32_to_bytes (ep_address rem) @ [0, ip_protocol_as_u8 Tcp])"
  obtain s' where s': "pseudo_sum (ep_address loc) (ep_address rem) Tcp (le_to_be_u16 (of_nat (?l + k))) = Ret s'"
    "unat s' \<le> 65535" by (rule pseudo_sum_Ret)
  have us: "unat s = ones_fold (?h + ?l)" by (rule pseudo_sum_value [OF assms(5)]) (use assms(1) in simp)
  have us': "unat s' = ones_fold (?h + (?l + k))" by (rule pseudo_sum_value [OF s'(1)]) (use assms(1,4) in simp)
  have ws: "word_sum (?seg @ replicate k 0) = word_sum ?seg"
    using word_sum_append [of ?seg "replicate k 0"] assms(2) by simp
  have b: "word_sum ?seg \<le> 65535 * 65535" using word_sum_bound [of ?seg] assms(1) by (auto intro: order_trans)
  have "unat s \<le> 65535" unfolding us by (rule ones_fold_le)
  then have zero: "(unat s + word_sum ?seg) mod 65535 = 0"
    using b by (intro cksum16_zero_mod [OF _ _ assms(6)]) simp_all
  have bound: "unat s' + word_sum (?seg @ replicate k 0) < 4294967296" using s'(2) b ws by simp
  then obtain c' where c': "cksum16 (?seg @ replicate k 0) (?l + k) s' = Ret c'"
    using cksum16_reference [of "?l + k" "?seg @ replicate k 0" s'] by simp
  have "c' \<noteq> 0"
  proof
    assume "c' = 0"
    with c' have "(unat s' + word_sum ?seg) mod 65535 = 0"
      using cksum16_zero_mod [OF _ bound, of "?l + k"] ws by simp
    moreover have "(unat s' + word_sum ?seg) mod 65535 = (?h + (?l + k) + word_sum ?seg) mod 65535"
      unfolding us' by (rule mod_add_cong) (rule ones_fold_mod, rule refl)
    moreover have "(unat s + word_sum ?seg) mod 65535 = (?h + ?l + word_sum ?seg) mod 65535"
      unfolding us by (rule mod_add_cong) (rule ones_fold_mod, rule refl)
    ultimately have dvd: "65535 dvd ?h + (?l + k) + word_sum ?seg" "65535 dvd ?h + ?l + word_sum ?seg"
      using zero unfolding dvd_eq_mod_eq_0 by argo+
    have "?h + (?l + k) + word_sum ?seg = k + (?h + ?l + word_sum ?seg)" by simp
    with dvd have "65535 dvd k" using dvd_add_left_iff by metis
    then have "k mod 65535 = 0" by simp
    with assms(3,4) show False by simp
  qed
  moreover have "bytes_to_struct TCP_HDR_SIZE tcp_header_read (?seg @ replicate k 0) =
      Ret ((tcp_header_of seq ack flags window loc rem)\<lparr>tcp_sum := le_to_be_u16 c\<rparr>)"
    unfolding tcp_segment_def append.assoc by (rule tcp_hdr.bytes_to_struct_layout) (simp add: tcp_header_wf_def)
  ultimately show ?thesis using s'(1) c' by (simp add: tcp_input_def TCP_HDR_SIZE_def)
qed


section \<open>Output to a neighbour that is reached\<close>

lemma reaches_mono:
  assumes "reaches n src dst hw" "device n' = device n" "contexts n' = contexts n" "clock n' = clock n"
    and "readings n \<le> readings n'"
  shows "reaches n' src dst hw"
  using assms by (auto simp: reaches_def needs_arp_def)

lemma reaches_sent:
  assumes "reaches n src dst hw"
  shows "reaches (ip_sent p src' dst' hw' data n) src dst hw"
  using assms by (auto simp: reaches_def ip_sent_def needs_arp_def)

lemma ip_sent_simps [simp]:
  "chans (ip_sent p src dst hw data n) = chans n" "rng (ip_sent p src dst hw data n) = rng n"
  "draws (ip_sent p src dst hw data n) = draws n"
  "ctx_ip_id (contexts (ip_sent p src dst hw data n)) = ctx_ip_id (contexts n) + 1"
  by (simp_all add: ip_sent_def)

lemma reaches_wake [simp]: "reaches (wake c b n) src dst hw = reaches n src dst hw"
  by (auto simp: reaches_def wake_def chan_send_def chan_update_def needs_arp_def split: option.splits)

lemma contexts_wake [simp]: "contexts (wake c b n) = contexts n" "device (wake c b n) = device n" for n :: net
  by (auto simp: wake_def chan_send_def chan_update_def split: option.splits)

text \<open>A segment without text: the block changes only by the queue entry of a SYN.\<close>

lemma tcp_output_reaches:
  assumes "reaches n (ep_address (tcb_local pcb)) (ep_address (tcb_remote pcb)) hw"
    and "ctx_ip_id (contexts n) \<noteq> 0xffff"
  shows "\<exists>q n1 c. tcp_output pcb flags [] n = Ret (0, pcb\<lparr>data_queue := data_queue pcb @ q\<rparr>,
      ip_sent Tcp (ep_address (tcb_local pcb)) (ep_address (tcb_remote pcb)) hw
        (tcp_segment (if tcp_flag_exists flags SYN then iss pcb else snd_next (send_context pcb))
          (rcv_next (recv_context pcb)) flags (rcv_window (recv_context pcb)) [] (tcb_local pcb) (tcb_remote pcb) c) n1) \<and>
    device n1 = device n \<and> contexts n1 = contexts n \<and> clock n1 = clock n \<and> chans n1 = chans n \<and>
    rng n1 = rng n \<and> draws n1 = draws n \<and> readings n \<le> readings n1"
proof -
  let ?seq = "if tcp_flag_exists flags SYN then iss pcb else snd_next (send_context pcb)"
  have out: "\<exists>c. output_segment ?seq (rcv_next (recv_context pcb)) flags (rcv_window (recv_context pcb)) []
      (tcb_local pcb) (tcb_remote pcb) n' = Ret (0, ip_sent Tcp (ep_address (tcb_local pcb)) (ep_address (tcb_remote pcb)) hw
        (tcp_segment ?seq (rcv_next (recv_context pcb)) flags (rcv_window (recv_context pcb)) [] (tcb_local pcb) (tcb_remote pcb) c) n')"
    if "n' = n \<or> n' = n\<lparr>readings := Suc (readings n)\<rparr>" for n'
  proof -
    have r: "reaches n' (ep_address (tcb_local pcb)) (ep_address (tcb_remote pcb)) hw" "ctx_ip_id (contexts n') \<noteq> 0xffff"
      using that assms reaches_mono [OF assms(1), of n'] by auto
    have l: "length ([] :: bytes) \<le> 1460" by simp
    obtain c where "output_segment ?seq (rcv_next (recv_context pcb)) flags (rcv_window (recv_context pcb)) []
      (tcb_local pcb) (tcb_remote pcb) n' = Ret (length ([] :: bytes), ip_sent Tcp (ep_address (tcb_local pcb)) (ep_address (tcb_remote pcb)) hw
        (tcp_segment ?seq (rcv_next (recv_context pcb)) flags (rcv_window (recv_context pcb)) [] (tcb_local pcb) (tcb_remote pcb) c) n')"
      by (rule output_segment_reaches [OF r l, of ?seq "rcv_next (recv_context pcb)" flags "rcv_window (recv_context pcb)"])
    then show ?thesis unfolding list.size(3) by (rule exI)
  qed
  show ?thesis
  proof (cases "tcp_flag_exists flags SYN \<or> tcp_flag_exists flags FIN")
    case True
    let ?n1 = "n\<lparr>readings := Suc (readings n)\<rparr>"
    let ?q = "[\<lparr>first_sent_at = clock n (readings n), last_sent_at = clock n (readings n),
      retry_interval = duration_from_micros TCP_DEFAULT_ITVL_MICROS, q_seq = ?seq, q_flags = flags, q_data = []\<rparr>]"
    from out [of ?n1] obtain c where c: "output_segment ?seq (rcv_next (recv_context pcb)) flags
      (rcv_window (recv_context pcb)) [] (tcb_local pcb) (tcb_remote pcb) ?n1 =
      Ret (0, ip_sent Tcp (ep_address (tcb_local pcb)) (ep_address (tcb_remote pcb)) hw
        (tcp_segment ?seq (rcv_next (recv_context pcb)) flags (rcv_window (recv_context pcb)) [] (tcb_local pcb) (tcb_remote pcb) c) ?n1)"
      by blast
    have "tcp_output pcb flags [] n = and_then (output_segment ?seq (rcv_next (recv_context pcb)) flags
      (rcv_window (recv_context pcb)) [] (tcb_local pcb) (tcb_remote pcb) ?n1)
      (\<lambda>(len, n2). Ret (len, pcb\<lparr>data_queue := data_queue pcb @ ?q\<rparr>, n2))"
      using True by (simp add: tcp_output_def add_data_queue_def system_time_now_def Let_def)
    then show ?thesis unfolding c
      by (intro exI [of _ ?q] exI [of _ ?n1] exI [of _ c]) simp
  next
    case False
    with out [of n] show ?thesis
      by (intro exI [of _ "[]"] exI [of _ n]) (auto simp: tcp_output_def)
  qed
qed

section \<open>The three-way handshake\<close>

lemma flag_exists_simps [simp]:
  "tcp_flag_exists flag_ack f \<longleftrightarrow> f = ACK" "tcp_flag_exists flag_rst f \<longleftrightarrow> f = RST"
  "tcp_flag_exists flag_syn f \<longleftrightarrow> f = SYN" "tcp_flag_exists flag_syn_ack f \<longleftrightarrow> f = SYN \<or> f = ACK"
  "tcp_flag_exists flag_rst_ack f \<longleftrightarrow> f = RST \<or> f = ACK"
  by (auto simp: flag_bytes)

lemma checked_add_1: "v < 0xffffffff \<Longrightarrow> checked_add v 1 = Ret (v + 1)" for v :: u32
  by (simp add: checked_add_def word_less_nat_alt)

text \<open>What a state sends: the last frame and everything else unchanged but counters.\<close>

definition tcp_frame_to ::
  "ip_endpoint \<Rightarrow> ip_endpoint \<Rightarrow> bytes \<Rightarrow> bytes \<Rightarrow> net \<Rightarrow> net \<Rightarrow> bool" where
  "tcp_frame_to loc rem hw seg n n' \<longleftrightarrow>
     (\<exists>n0. device n0 = device n \<and> contexts n0 = contexts n \<and> clock n0 = clock n \<and> chans n0 = chans n \<and> rng n0 = rng n \<and>
        readings n \<le> readings n0 \<and> n' = ip_sent Tcp (ep_address loc) (ep_address rem) hw seg n0)"

lemma tcp_frame_sent:
  assumes "tcp_frame_to loc rem hw seg n n'" "tap_ready (device n)"
  shows "tap_sent (device n') = tap_sent (device n) @
    [ip_frame Tcp (ep_address loc) (ep_address rem) hw seg n]"
  using assms by (auto simp: tcp_frame_to_def ip_sent_def ip_frame_def)

lemma tcp_frame_reaches:
  assumes "tcp_frame_to loc rem hw seg n n'" "reaches n src dst hw'"
  shows "reaches n' src dst hw'" "ctx_ip_id (contexts n') = ctx_ip_id (contexts n) + 1"
    "chans n' = chans n" "rng n' = rng n"
  using assms reaches_sent reaches_mono by (auto simp: tcp_frame_to_def)

lemma tcp_output_control:
  assumes "reaches n (ep_address (tcb_local pcb)) (ep_address (tcb_remote pcb)) hw"
    and "ctx_ip_id (contexts n) \<noteq> 0xffff"
  obtains q n' c where "tcp_output pcb flags [] n = Ret (0, pcb\<lparr>data_queue := data_queue pcb @ q\<rparr>, n')"
    "tcp_frame_to (tcb_local pcb) (tcb_remote pcb) hw
       (tcp_segment (if tcp_flag_exists flags SYN then iss pcb else snd_next (send_context pcb))
          (rcv_next (recv_context pcb)) flags (rcv_window (recv_context pcb)) [] (tcb_local pcb) (tcb_remote pcb) c) n n'"
proof -
  from tcp_output_reaches [OF assms, of flags] obtain q n1 c where
    o: "tcp_output pcb flags [] n = Ret (0, pcb\<lparr>data_queue := data_queue pcb @ q\<rparr>,
      ip_sent Tcp (ep_address (tcb_local pcb)) (ep_address (tcb_remote pcb)) hw
        (tcp_segment (if tcp_flag_exists flags SYN then iss pcb else snd_next (send_context pcb))
          (rcv_next (recv_context pcb)) flags (rcv_window (recv_context pcb)) [] (tcb_local pcb) (tcb_remote pcb) c) n1)"
    "device n1 = device n" "contexts n1 = contexts n" "clock n1 = clock n" "chans n1 = chans n" "rng n1 = rng n"
    "readings n \<le> readings n1"
    by blast
  show ?thesis
    by (rule that [OF o(1)]) (use o(2-) in \<open>auto simp: tcp_frame_to_def\<close>)
qed

text \<open>A SYN for a listener in RFC 793 mode.\<close>

lemma syn_received:
  assumes "tcp_select pcbs loc (Some rem) = Some i" "tcb_state (pcbs ! i) = Listen" "tcb_mode (pcbs ! i) \<noteq> Socket"
    and "reaches n (ep_address loc) (ep_address rem) hw" "ctx_ip_id (contexts n) \<noteq> 0xffff"
    and "seg_seq seg < 0xffffffff" "rng n (draws n) < 0xffffffff"
  obtains q n' c where
    "segment_arrives seg flag_syn [] 0 loc rem (pcbs, n) =
       Ret (pcbs[i := (pcbs ! i)\<lparr>tcb_local := loc, tcb_remote := rem,
         recv_context := (recv_context (pcbs ! i))\<lparr>rcv_window := 65535, rcv_next := seg_seq seg + 1\<rparr>,
         iss := rng n (draws n), data_queue := data_queue (pcbs ! i) @ q,
         send_context := (send_context (pcbs ! i))\<lparr>snd_next := rng n (draws n) + 1, snd_una := rng n (draws n)\<rparr>,
         tcb_state := SynReceived\<rparr>], n')"
    "tcp_frame_to loc rem hw
       (tcp_segment (rng n (draws n)) (seg_seq seg + 1) flag_syn_ack 65535 [] loc rem c) n n'"
proof -
  let ?isn = "rng n (draws n)" and ?n1 = "n\<lparr>draws := Suc (draws n)\<rparr>"
  let ?p = "(pcbs ! i)\<lparr>tcb_local := loc, tcb_remote := rem,
      recv_context := (recv_context (pcbs ! i))\<lparr>rcv_window := 65535, rcv_next := seg_seq seg + 1\<rparr>, iss := ?isn\<rparr>"
  have i: "i < length pcbs" using tcp_select_length [OF assms(1)] .
  have "reaches ?n1 (ep_address (tcb_local ?p)) (ep_address (tcb_remote ?p)) hw"
    using reaches_mono [OF assms(4), of ?n1] by simp
  moreover have "ctx_ip_id (contexts ?n1) \<noteq> 0xffff" using assms(5) by simp
  ultimately obtain q n' c where o: "tcp_output ?p flag_syn_ack [] ?n1 = Ret (0, ?p\<lparr>data_queue := data_queue ?p @ q\<rparr>, n')"
    "tcp_frame_to loc rem hw (tcp_segment ?isn (seg_seq seg + 1) flag_syn_ack 65535 [] loc rem c) ?n1 n'"
    by (rule tcp_output_control [where flags = flag_syn_ack]) simp
  show ?thesis
  proof (rule that)
    show "tcp_frame_to loc rem hw (tcp_segment ?isn (seg_seq seg + 1) flag_syn_ack 65535 [] loc rem c) n n'"
      using o(2) by (simp add: tcp_frame_to_def)
    show "segment_arrives seg flag_syn [] 0 loc rem (pcbs, n) =
       Ret (pcbs[i := (pcbs ! i)\<lparr>tcb_local := loc, tcb_remote := rem,
         recv_context := (recv_context (pcbs ! i))\<lparr>rcv_window := 65535, rcv_next := seg_seq seg + 1\<rparr>,
         iss := rng n (draws n), data_queue := data_queue (pcbs ! i) @ q,
         send_context := (send_context (pcbs ! i))\<lparr>snd_next := rng n (draws n) + 1, snd_una := rng n (draws n)\<rparr>,
         tcb_state := SynReceived\<rparr>], n')"
      using assms(1-3,6,7) i o(1)
      by (simp add: segment_arrives_def seg_listen_def listen_target_def pcb_by_id_def get_mut_by_id_def
          checked_add_1 gen_range_u32_def Let_def PCB_BUF_LEN_def)
  qed
qed

text \<open>A SYN-ACK that acknowledges the SYN of a block in SYN-SENT.\<close>

lemma syn_acknowledged:
  assumes "tcp_select pcbs loc (Some rem) = Some i" "tcb_state (pcbs ! i) = SynSent"
    and "tcb_local (pcbs ! i) = loc" "tcb_remote (pcbs ! i) = rem"
    and "snd_una (send_context (pcbs ! i)) = iss (pcbs ! i)" "snd_next (send_context (pcbs ! i)) = iss (pcbs ! i) + 1"
    and "iss (pcbs ! i) < 0xffffffff" "seg_ack seg = iss (pcbs ! i) + 1" "seg_seq seg < 0xffffffff"
    and "reaches n (ep_address loc) (ep_address rem) hw" "ctx_ip_id (contexts n) \<noteq> 0xffff"
  obtains p' n1 c where
    "segment_arrives seg flag_syn_ack [] 0 loc rem (pcbs, n) =
       Ret (pcbs[i := p'], wake (tcb_sender (pcbs ! i)) True n1)"
    "tcb_state p' = Established" "tcb_local p' = loc" "tcb_remote p' = rem"
    "snd_una (send_context p') = iss (pcbs ! i) + 1" "snd_next (send_context p') = iss (pcbs ! i) + 1"
    "snd_window (send_context p') = seg_window seg" "rcv_next (recv_context p') = seg_seq seg + 1"
    "rcv_window (recv_context p') = rcv_window (recv_context (pcbs ! i))" "buf p' = buf (pcbs ! i)"
    "tcb_sender p' = tcb_sender (pcbs ! i)"
    "tcp_frame_to loc rem hw (tcp_segment (iss (pcbs ! i) + 1) (seg_seq seg + 1) flag_ack
       (rcv_window (recv_context (pcbs ! i))) [] loc rem c) n n1"
proof -
  let ?p = "pcbs ! i"
  let ?u = "syn_update seg True (seg_seq seg + 1) ?p"
  let ?e = "?u\<lparr>tcb_state := Established\<rparr>"
  have i: "i < length pcbs" using tcp_select_length [OF assms(1)] .
  have gt: "iss ?p < iss ?p + 1"
    using assms(7) by (simp add: word_less_nat_alt unat_word_ariths)
  then have ge: "\<not> iss ?p + 1 \<le> iss ?p" "iss ?p \<le> iss ?p + 1" by (simp_all add: not_le)
  have u: "iss ?u = iss ?p" "snd_una (send_context ?u) = iss ?p + 1" "snd_next (send_context ?u) = iss ?p + 1"
    "tcb_local ?u = loc" "tcb_remote ?u = rem" "rcv_next (recv_context ?u) = seg_seq seg + 1"
    "rcv_window (recv_context ?u) = rcv_window (recv_context ?p)" "tcb_sender ?u = tcb_sender ?p" "buf ?u = buf ?p"
    using assms by (simp_all add: syn_update_def Let_def)
  have "reaches n (ep_address (tcb_local ?e)) (ep_address (tcb_remote ?e)) hw" using assms(10) u by simp
  from tcp_output_control [OF this assms(11), of flag_ack] u obtain q n1 c where
    o: "tcp_output ?e flag_ack [] n = Ret (0, ?e\<lparr>data_queue := data_queue ?e @ q\<rparr>, n1)"
    "tcp_frame_to loc rem hw (tcp_segment (iss ?p + 1) (seg_seq seg + 1) flag_ack
       (rcv_window (recv_context ?p)) [] loc rem c) n n1"
    by auto
  define p3 where "p3 = ?e\<lparr>data_queue := data_queue ?e @ q\<rparr>"
  let ?p4 = "p3\<lparr>send_context := (send_context p3)\<lparr>snd_window := seg_window seg,
    snd_wl1 := seg_seq seg, snd_wl2 := seg_ack seg\<rparr>\<rparr>"
  have "segment_arrives seg flag_syn_ack [] 0 loc rem (pcbs, n) =
      Ret (pcbs[i := ?p4], wake (tcb_sender (pcbs ! i)) True n1)"
    using assms(1,2,5-9) i gt ge u(1,2,8) o(1)
    by (simp add: segment_arrives_def seg_syn_sent_def pcb_by_id_def get_mut_by_id_def checked_add_1 Let_def
        p3_def)
  then show ?thesis by (rule that [OF _ _ _ _ _ _ _ _ _ _ _ o(2)]) (simp_all add: p3_def u)
qed

text \<open>The acknowledgement of the SYN-ACK.\<close>

lemma window_start:
  assumes "unat (rcv_next rc) + unat (rcv_window rc) < 4294967296" "0 < rcv_window rc"
  shows "seq_in_window rc (rcv_next rc) = Ret True"
proof -
  have "rcv_next rc < rcv_next rc + ucast (rcv_window rc)"
    using assms by (simp add: word_less_nat_alt unat_word_ariths)
  with assms(1) show ?thesis by (simp add: seq_in_window_def checked_add_def)
qed

lemma handshake_completed:
  assumes "tcp_select pcbs loc (Some rem) = Some i" "tcb_state (pcbs ! i) = SynReceived" "parent_id (pcbs ! i) = None"
    and "snd_una (send_context (pcbs ! i)) \<le> seg_ack seg" "seg_ack seg \<le> snd_next (send_context (pcbs ! i))"
    and "seg_seq seg = rcv_next (recv_context (pcbs ! i))" "seg_len seg = 0"
    and "unat (rcv_next (recv_context (pcbs ! i))) + unat (rcv_window (recv_context (pcbs ! i))) < 4294967296"
    and "0 < rcv_window (recv_context (pcbs ! i))"
  shows "segment_arrives seg flag_ack [] 0 loc rem (pcbs, n) =
    Ret (pcbs[i := (pcbs ! i)\<lparr>tcb_state := Established\<rparr>], wake (tcb_sender (pcbs ! i)) True n)"
proof -
  have i: "i < length pcbs" using tcp_select_length [OF assms(1)] .
  have "\<not> rcv_window (recv_context (pcbs ! i)) < 1" using assms(9) by (simp add: word_less_nat_alt)
  then have "seg_acceptable (recv_context (pcbs ! i)) seg = Ret True"
    using window_start [OF assms(8,9)] assms(6,7) by (simp add: seg_acceptable_def)
  then show ?thesis
    using assms(1-5) i
    by (simp add: segment_arrives_def flow_then_def seg_check_seq_def seg_check_rst_def seg_check_syn_def
        seg_check_ack_def seg_ack_syn_received_def seg_text_def seg_fin_def pcb_by_id_def get_mut_by_id_def Let_def)
qed

lemma first_index_first:
  "i < length xs \<Longrightarrow> P (xs ! i) \<Longrightarrow> \<forall>j < i. \<not> P (xs ! j) \<Longrightarrow> first_index P xs = Some i"
proof (induction xs arbitrary: i)
  case (Cons x xs)
  then show ?case
  proof (cases i)
    case (Suc k)
    with Cons.prems have "k < length xs" "P (xs ! k)" "\<forall>j < k. \<not> P (xs ! j)" "\<not> P x" by auto
    with Cons.IH Suc show ?thesis by simp
  qed simp
qed simp

lemma select_connected:
  assumes "tcp_select pcbs loc (Some rem) = Some i" "tcb_local p = loc" "tcb_remote p = rem"
  shows "tcp_select (pcbs[i := p]) loc (Some rem) = Some i"
proof -
  have i: "i < length pcbs" using tcp_select_length [OF assms(1)] .
  have "\<not> exact_match loc rem (pcbs ! j)" if "j < i" for j
    using assms(1) that i first_index_Some [of "exact_match loc rem" pcbs i]
      first_index_None [of "exact_match loc rem" pcbs]
    by (auto simp: tcp_select_spec split: option.splits)
  moreover have "exact_match loc rem p" using assms(2,3) by (simp add: exact_match_def local_match_def)
  ultimately have "first_index (exact_match loc rem) (pcbs[i := p]) = Some i"
    using i by (intro first_index_first) simp_all
  then show ?thesis by (simp add: tcp_select_spec)
qed

text \<open>Two blocks that agree on the connection.\<close>

definition synchronized :: "tcp_pcb \<Rightarrow> tcp_pcb \<Rightarrow> bool" where
  "synchronized c s \<longleftrightarrow> tcb_state c = Established \<and> tcb_state s = Established \<and>
     tcb_local c = tcb_remote s \<and> tcb_remote c = tcb_local s \<and>
     snd_next (send_context c) = rcv_next (recv_context s) \<and> snd_next (send_context s) = rcv_next (recv_context c) \<and>
     snd_una (send_context c) = snd_next (send_context c) \<and> snd_window (send_context c) = rcv_window (recv_context s)"

lemma three_way_handshake:
  fixes cs ss :: tcp_pcbs and nc ns :: net
  defines "isn \<equiv> rng ns (draws ns)"
  assumes "tcp_select cs loc (Some rem) = Some i" "tcb_state (cs ! i) = SynSent"
    and "tcb_local (cs ! i) = loc" "tcb_remote (cs ! i) = rem" "snd_una (send_context (cs ! i)) = iss (cs ! i)"
    and "snd_next (send_context (cs ! i)) = iss (cs ! i) + 1" "iss (cs ! i) < 0xffff0000"
    and "reaches nc (ep_address loc) (ep_address rem) hws" "ctx_ip_id (contexts nc) \<noteq> 0xffff"
    and "tcp_select ss rem (Some loc) = Some j" "tcb_state (ss ! j) = Listen" "tcb_mode (ss ! j) \<noteq> Socket"
    and "parent_id (ss ! j) = None" "reaches ns (ep_address rem) (ep_address loc) hwc"
    and "ctx_ip_id (contexts ns) \<noteq> 0xffff" "isn < 0xffffffff"
  obtains ss1 ns1 c1 cs1 nc1 c2 ss2 where
    "segment_arrives (segment_of (iss (cs ! i)) ack flag_syn win []) flag_syn [] 0 rem loc (ss, ns) = Ret (ss1, ns1)"
    "tcp_frame_to rem loc hwc (tcp_segment isn (iss (cs ! i) + 1) flag_syn_ack 65535 [] rem loc c1) ns ns1"
    "segment_arrives (segment_of isn (iss (cs ! i) + 1) flag_syn_ack 65535 []) flag_syn_ack [] 0 loc rem (cs, nc) =
       Ret (cs1, wake (tcb_sender (cs ! i)) True nc1)"
    "tcp_frame_to loc rem hws (tcp_segment (iss (cs ! i) + 1) (isn + 1) flag_ack
       (rcv_window (recv_context (cs ! i))) [] loc rem c2) nc nc1"
    "segment_arrives (segment_of (iss (cs ! i) + 1) (isn + 1) flag_ack (rcv_window (recv_context (cs ! i))) [])
       flag_ack [] 0 rem loc (ss1, ns1) = Ret (ss2, wake (tcb_sender (ss ! j)) True ns1)"
    "synchronized (cs1 ! i) (ss2 ! j)"
proof -
  let ?iss = "iss (cs ! i)"
  have iss: "?iss < 0xffffffff" "unat (?iss + 1) + 65535 < 4294967296"
    using assms(8) by (simp_all add: word_less_nat_alt unat_word_ariths)
  have i: "i < length cs" using tcp_select_length [OF assms(2)] .
  have j: "j < length ss" using tcp_select_length [OF assms(11)] .
  let ?syn = "segment_of ?iss ack flag_syn win []"
  have syn: "seg_seq ?syn = ?iss" by (simp add: segment_of_def)
  obtain q ns1 c1 where s1: "segment_arrives ?syn flag_syn [] 0 rem loc (ss, ns) =
      Ret (ss[j := (ss ! j)\<lparr>tcb_local := rem, tcb_remote := loc,
         recv_context := (recv_context (ss ! j))\<lparr>rcv_window := 65535, rcv_next := ?iss + 1\<rparr>,
         iss := isn, data_queue := data_queue (ss ! j) @ q,
         send_context := (send_context (ss ! j))\<lparr>snd_next := isn + 1, snd_una := isn\<rparr>,
         tcb_state := SynReceived\<rparr>], ns1)"
    "tcp_frame_to rem loc hwc (tcp_segment isn (?iss + 1) flag_syn_ack 65535 [] rem loc c1) ns ns1"
    by (rule syn_received [OF assms(11-13,15,16), of ?syn, folded isn_def, unfolded syn, OF iss(1) assms(17)])
  define ps where "ps = (ss ! j)\<lparr>tcb_local := rem, tcb_remote := loc,
         recv_context := (recv_context (ss ! j))\<lparr>rcv_window := 65535, rcv_next := ?iss + 1\<rparr>,
         iss := isn, data_queue := data_queue (ss ! j) @ q,
         send_context := (send_context (ss ! j))\<lparr>snd_next := isn + 1, snd_una := isn\<rparr>,
         tcb_state := SynReceived\<rparr>"
  let ?sa = "segment_of isn (?iss + 1) flag_syn_ack 65535 []"
  have sa: "seg_seq ?sa = isn" "seg_ack ?sa = ?iss + 1" "seg_window ?sa = 65535" by (simp_all add: segment_of_def)
  obtain pc nc1 c2 where s2: "segment_arrives ?sa flag_syn_ack [] 0 loc rem (cs, nc) =
       Ret (cs[i := pc], wake (tcb_sender (cs ! i)) True nc1)"
    "tcb_state pc = Established" "tcb_local pc = loc" "tcb_remote pc = rem"
    "snd_una (send_context pc) = ?iss + 1" "snd_next (send_context pc) = ?iss + 1"
    "snd_window (send_context pc) = 65535" "rcv_next (recv_context pc) = isn + 1"
    "tcp_frame_to loc rem hws (tcp_segment (?iss + 1) (isn + 1) flag_ack
       (rcv_window (recv_context (cs ! i))) [] loc rem c2) nc nc1"
    by (rule syn_acknowledged [OF assms(2-7) iss(1), of ?sa, unfolded sa, OF refl assms(17) assms(9,10)])
  let ?ack = "segment_of (?iss + 1) (isn + 1) flag_ack (rcv_window (recv_context (cs ! i))) []"
  have ackseg: "seg_seq ?ack = ?iss + 1" "seg_ack ?ack = isn + 1" "seg_len ?ack = 0"
    by (simp_all add: segment_of_def segment_length_def)
  have "isn \<le> isn + 1" using assms(17) by (simp add: word_le_nat_alt word_less_nat_alt unat_word_ariths)
  then have s3: "segment_arrives ?ack flag_ack [] 0 rem loc (ss[j := ps], ns1) =
      Ret (ss[j := ps, j := (ss[j := ps] ! j)\<lparr>tcb_state := Established\<rparr>], wake (tcb_sender (ss[j := ps] ! j)) True ns1)"
    using select_connected [OF assms(11), of ps] ackseg iss(2) assms(14) j
    by (intro handshake_completed) (simp_all add: ps_def)
  show ?thesis
  proof (rule that [OF s1(1) s1(2) s2(1) s2(9)])
    show "segment_arrives ?ack flag_ack [] 0 rem loc (ss[j := (ss ! j)\<lparr>tcb_local := rem, tcb_remote := loc,
         recv_context := (recv_context (ss ! j))\<lparr>rcv_window := 65535, rcv_next := ?iss + 1\<rparr>,
         iss := isn, data_queue := data_queue (ss ! j) @ q,
         send_context := (send_context (ss ! j))\<lparr>snd_next := isn + 1, snd_una := isn\<rparr>,
         tcb_state := SynReceived\<rparr>], ns1) =
      Ret (ss[j := ps\<lparr>tcb_state := Established\<rparr>], wake (tcb_sender (ss ! j)) True ns1)"
      using s3 j unfolding ps_def by simp
    show "synchronized (cs[i := pc] ! i) (ss[j := ps\<lparr>tcb_state := Established\<rparr>] ! j)"
      using s2 i j by (simp add: synchronized_def ps_def)
  qed
qed

section \<open>Data in order\<close>

lemma tcp_output_ack:
  assumes "reaches n (ep_address (tcb_local pcb)) (ep_address (tcb_remote pcb)) hw" "ctx_ip_id (contexts n) \<noteq> 0xffff"
  obtains n' c where "tcp_output pcb flag_ack [] n = Ret (0, pcb, n')"
    "tcp_frame_to (tcb_local pcb) (tcb_remote pcb) hw
       (tcp_segment (snd_next (send_context pcb)) (rcv_next (recv_context pcb)) flag_ack
          (rcv_window (recv_context pcb)) [] (tcb_local pcb) (tcb_remote pcb) c) n n'"
proof -
  obtain q n' c where o: "tcp_output pcb flag_ack [] n = Ret (0, pcb\<lparr>data_queue := data_queue pcb @ q\<rparr>, n')"
    "tcp_frame_to (tcb_local pcb) (tcb_remote pcb) hw
       (tcp_segment (if tcp_flag_exists flag_ack SYN then iss pcb else snd_next (send_context pcb))
          (rcv_next (recv_context pcb)) flag_ack (rcv_window (recv_context pcb)) [] (tcb_local pcb) (tcb_remote pcb) c) n n'"
    by (rule tcp_output_control [OF assms, of flag_ack])
  have "pcb\<lparr>data_queue := data_queue pcb @ q\<rparr> = pcb" by (rule tcp_output_plain_pcb [OF o(1)]) simp
  with o show ?thesis by (intro that [of n' c]) simp_all
qed

definition ack_applied :: "tcp_segment_info \<Rightarrow> tcp_pcb \<Rightarrow> tcp_pcb" where
  "ack_applied seg p = (if snd_una (send_context p) < seg_ack seg then ack_update seg p else p)"

lemma ack_applied_simps [simp]:
  "tcb_state (ack_applied seg p) = tcb_state p" "tcb_local (ack_applied seg p) = tcb_local p"
  "tcb_remote (ack_applied seg p) = tcb_remote p" "recv_context (ack_applied seg p) = recv_context p"
  "buf (ack_applied seg p) = buf p" "tcb_sender (ack_applied seg p) = tcb_sender p"
  "snd_next (send_context (ack_applied seg p)) = snd_next (send_context p)"
  by (simp_all add: ack_applied_def ack_update_def Let_def)

lemma data_in_order:
  assumes "tcp_select pcbs loc (Some rem) = Some i" "tcb_state (pcbs ! i) = Established"
    and "tcb_local (pcbs ! i) = loc" "tcb_remote (pcbs ! i) = rem"
    and flags: "tcp_flag_exists flags ACK" "\<not> tcp_flag_exists flags RST" "\<not> tcp_flag_exists flags SYN"
      "\<not> tcp_flag_exists flags FIN"
    and seg: "seg_seq seg = rcv_next (recv_context (pcbs ! i))" "seg_len seg = of_nat (length data)"
      "seg_ack seg \<le> snd_next (send_context (pcbs ! i))"
    and len: "0 < length data" "length data \<le> unat (rcv_window (recv_context (pcbs ! i)))"
      "unat (rcv_next (recv_context (pcbs ! i))) + unat (rcv_window (recv_context (pcbs ! i))) < 4294967296"
    and out: "reaches n (ep_address loc) (ep_address rem) hw" "ctx_ip_id (contexts n) \<noteq> 0xffff"
  obtains n1 c where
    "segment_arrives seg flags data (length data) loc rem (pcbs, n) =
       Ret (pcbs[i := (ack_applied seg (pcbs ! i))\<lparr>buf := buf (pcbs ! i) @ data,
         recv_context := (recv_context (pcbs ! i))\<lparr>
           rcv_next := rcv_next (recv_context (pcbs ! i)) + of_nat (length data),
           rcv_window := rcv_window (recv_context (pcbs ! i)) - of_nat (length data)\<rparr>\<rparr>],
         wake (tcb_sender (pcbs ! i)) True n1)"
    "tcp_frame_to loc rem hw (tcp_segment (snd_next (send_context (pcbs ! i)))
       (rcv_next (recv_context (pcbs ! i)) + of_nat (length data)) flag_ack
       (rcv_window (recv_context (pcbs ! i)) - of_nat (length data)) [] loc rem c) n n1"
proof -
  let ?p = "pcbs ! i" and ?k = "length data"
  let ?rc = "recv_context ?p"
  let ?a = "ack_applied seg ?p"
  define r where "r = ?a\<lparr>buf := buf ?p @ data, recv_context := ?rc\<lparr>rcv_next := rcv_next ?rc + of_nat ?k,
    rcv_window := rcv_window ?rc - of_nat ?k\<rparr>\<rparr>"
  have i: "i < length pcbs" using tcp_select_length [OF assms(1)] .
  have k: "?k < 65536" using len(2) unat_u16_lt [of "rcv_window ?rc"] by linarith
  have "0 < unat (rcv_window ?rc)" using len(1,2) by linarith
  then have win: "0 < rcv_window ?rc" by (simp add: word_less_nat_alt)
  then have "\<not> rcv_window ?rc < 1" by (simp add: word_less_nat_alt)
  then have ok: "seg_acceptable ?rc seg = Ret True"
    using window_start [OF len(3) win] seg(1) by (simp add: seg_acceptable_def)
  have ck: "ucast (of_nat ?k :: u16) = (of_nat ?k :: u32)"
    using k by (simp add: word_eq_iff_unsigned [where 'a = nat] unat_of_nat)
  have add: "checked_add (rcv_next ?rc) (of_nat ?k) = Ret (rcv_next ?rc + of_nat ?k)"
    using k len(2,3) by (simp add: checked_add_def unat_of_nat)
  have sub: "checked_sub (rcv_window ?rc) (of_nat ?k) = Ret (rcv_window ?rc - of_nat ?k)"
    using k len(2) by (simp add: checked_sub_def word_le_nat_alt)
  have "reaches n (ep_address (tcb_local r)) (ep_address (tcb_remote r)) hw" using out(1) assms(3,4) by (simp add: r_def)
  from tcp_output_ack [OF this out(2)] obtain n1 c where o: "tcp_output r flag_ack [] n = Ret (0, r, n1)"
    "tcp_frame_to loc rem hw (tcp_segment (snd_next (send_context ?p)) (rcv_next ?rc + of_nat ?k) flag_ack
       (rcv_window ?rc - of_nat ?k) [] loc rem c) n n1"
    using assms(3,4) by (auto simp: r_def)
  have "\<not> snd_next (send_context ?p) < seg_ack seg" using seg(3) by simp
  then have ack: "seg_check_ack i Established seg flags loc rem (pcbs, n) = Ret (Go, pcbs[i := ?a], n)"
    using flags(1) i seg(3)
    by (simp add: seg_check_ack_def seg_ack_synchronized_def pcb_by_id_def get_mut_by_id_def Let_def ack_applied_def)
  have tx: "seg_text i Established seg data ?k (pcbs[i := ?a], n) = Ret (pcbs[i := r], wake (tcb_sender ?p) True n1)"
    using i len(1) seg(1,2) ck add sub o(1)
    by (simp add: seg_text_def pcb_by_id_def get_mut_by_id_def Let_def r_def)
  have "segment_arrives seg flags data ?k loc rem (pcbs, n) = Ret (pcbs[i := r], wake (tcb_sender ?p) True n1)"
    using assms(1,2) i ok flags ack tx
    by (simp add: segment_arrives_def flow_then_def seg_check_seq_def seg_check_rst_def seg_check_syn_def seg_fin_def
        pcb_by_id_def get_mut_by_id_def Let_def)
  from this [unfolded r_def] o(2) show ?thesis by (rule that)
qed

lemma take_data_fifo:
  fixes k :: nat and r :: "nat option"
  assumes "i < length pcbs" "unat (rcv_window (recv_context (pcbs ! i))) + length (buf (pcbs ! i)) \<le> 65535"
  defines "m \<equiv> case r of None \<Rightarrow> min (length (buf (pcbs ! i))) k | Some x \<Rightarrow> min (length (buf (pcbs ! i))) (min k x)"
  shows "take_data i k r pcbs = Ret (take m (buf (pcbs ! i)),
    pcbs[i := (pcbs ! i)\<lparr>buf := drop m (buf (pcbs ! i)),
      recv_context := (recv_context (pcbs ! i))\<lparr>rcv_window := rcv_window (recv_context (pcbs ! i)) + of_nat m\<rparr>\<rparr>])"
    "unat (rcv_window (recv_context (pcbs ! i)) + of_nat m) + length (drop m (buf (pcbs ! i))) =
      unat (rcv_window (recv_context (pcbs ! i))) + length (buf (pcbs ! i))"
proof -
  let ?p = "pcbs ! i"
  have m: "m \<le> length (buf ?p)" by (simp add: m_def split: option.split)
  with assms(2) have lt: "unat (rcv_window (recv_context ?p)) + m < 65536" "m < 65536" by linarith+
  then show "take_data i k r pcbs = Ret (take m (buf ?p),
    pcbs[i := ?p\<lparr>buf := drop m (buf ?p),
      recv_context := (recv_context ?p)\<lparr>rcv_window := rcv_window (recv_context ?p) + of_nat m\<rparr>\<rparr>])"
    using assms(1) m
    by (simp add: take_data_def pcb_by_id_def get_mut_by_id_def slice_to_def slice_from_def checked_add_def
        Let_def flip: m_def)
  have "unat (rcv_window (recv_context ?p) + of_nat m) = unat (rcv_window (recv_context ?p)) + m"
    using lt by (simp add: unat_word_ariths)
  with m show "unat (rcv_window (recv_context ?p) + of_nat m) + length (drop m (buf ?p)) =
      unat (rcv_window (recv_context ?p)) + length (buf ?p)" by simp
qed

section \<open>Segments that end a connection or are dropped\<close>

lemma reset_received:
  assumes "tcp_select pcbs loc (Some rem) = Some i" "tcb_state (pcbs ! i) \<in> {SynReceived, Established, CloseWait}"
    and "tcp_flag_exists flags RST" "seg_acceptable (recv_context (pcbs ! i)) seg = Ret True"
  shows "segment_arrives seg flags data len loc rem (pcbs, n) =
    Ret (pcbs[i := (pcbs ! i)\<lparr>tcb_state := Free, data_queue := [], backlog := []\<rparr>], wake (tcb_sender (pcbs ! i)) False n)"
proof -
  have i: "i < length pcbs" using tcp_select_length [OF assms(1)] .
  with assms show ?thesis
    by (auto simp: segment_arrives_def flow_then_def seg_check_seq_def seg_check_rst_def seg_release_def release_def
        pcb_by_id_def get_mut_by_id_def Let_def)
qed

lemma unacceptable_dropped:
  assumes "tcp_select pcbs loc (Some rem) = Some i" "tcb_state (pcbs ! i) \<in> {SynReceived, Established, CloseWait}"
    and "\<not> tcp_flag_exists flags RST" "seg_acceptable (recv_context (pcbs ! i)) seg = Ret False"
  shows "segment_arrives seg flags data len loc rem (pcbs, n) = Ret (pcbs, n)"
proof -
  have i: "i < length pcbs" using tcp_select_length [OF assms(1)] .
  with assms show ?thesis
    by (auto simp: segment_arrives_def flow_then_def seg_check_seq_def pcb_by_id_def get_mut_by_id_def Let_def)
qed

text \<open>No block, or a closed one: a reset is sent unless the segment is itself a reset.\<close>

lemma closed_port:
  assumes "\<And>i. tcp_select pcbs loc (Some rem) = Some i \<Longrightarrow> tcb_state (pcbs ! i) = Closed"
  shows "segment_arrives seg flags data len loc rem (pcbs, n) = seg_closed seg flags loc rem (pcbs, n)"
  using assms by (auto simp: segment_arrives_def Let_def split: option.split)

lemma closed_port_reset:
  assumes "\<And>i. tcp_select pcbs loc (Some rem) = Some i \<Longrightarrow> tcb_state (pcbs ! i) = Closed"
    and "\<not> tcp_flag_exists flags RST" "reaches n (ep_address loc) (ep_address rem) hw" "ctx_ip_id (contexts n) \<noteq> 0xffff"
    and "tcp_flag_exists flags ACK \<or> unat (seg_seq seg) + unat (seg_len seg) < 4294967296"
  obtains c where "segment_arrives seg flags data len loc rem (pcbs, n) =
    Ret (pcbs, ip_sent Tcp (ep_address loc) (ep_address rem) hw
      (if tcp_flag_exists flags ACK then tcp_segment (seg_ack seg) 0 flag_rst 0 [] loc rem c
       else tcp_segment 0 (seg_seq seg + ucast (seg_len seg)) flag_rst_ack 0 [] loc rem c) n)"
proof -
  have l: "length ([] :: bytes) \<le> 1460" by simp
  note o = output_segment_reaches [OF assms(3,4) l]
  show ?thesis
  proof (cases "tcp_flag_exists flags ACK")
    case True
    obtain c where "output_segment (seg_ack seg) 0 flag_rst 0 [] loc rem n =
        Ret (length ([] :: bytes), ip_sent Tcp (ep_address loc) (ep_address rem) hw
          (tcp_segment (seg_ack seg) 0 flag_rst 0 [] loc rem c) n)" by (rule o)
    with True assms(2) show ?thesis
      by (intro that [of c]) (simp add: closed_port [OF assms(1)] seg_closed_def seg_reply_def)
  next
    case False
    then have a: "checked_add (seg_seq seg) (ucast (seg_len seg)) = Ret (seg_seq seg + ucast (seg_len seg))"
      using assms(5) by (simp add: checked_add_def)
    obtain c where "output_segment 0 (seg_seq seg + ucast (seg_len seg)) flag_rst_ack 0 [] loc rem n =
        Ret (length ([] :: bytes), ip_sent Tcp (ep_address loc) (ep_address rem) hw
          (tcp_segment 0 (seg_seq seg + ucast (seg_len seg)) flag_rst_ack 0 [] loc rem c) n)" by (rule o)
    with False a assms(2) show ?thesis
      by (intro that [of c]) (simp add: closed_port [OF assms(1)] seg_closed_def seg_reply_def)
  qed
qed

section \<open>From the sender's segment to the receiver's table\<close>

lemma segment_delivered:
  assumes "length data \<le> 1460" "reaches n (ep_address loc) (ep_address rem) hw" "ctx_ip_id (contexts n) \<noteq> 0xffff"
    and "unicast_pair (ep_address loc) (ep_address rem) iface"
  obtains c where
    "output_segment seq ack flags window data loc rem n =
       Ret (length data, ip_sent Tcp (ep_address loc) (ep_address rem) hw (tcp_segment seq ack flags window data loc rem c) n)"
    "\<And>m. tcp_input (tcp_segment seq ack flags window data loc rem c) (20 + length data)
         (ep_address loc) (ep_address rem) iface m =
       and_then (segment_arrives (segment_of seq ack flags window data) flags data (length data) rem loc m)
         (\<lambda>m'. Ret (Ok (), m'))"
proof -
  have len: "length data \<le> 65515" using assms(1) by simp
  obtain c s where c: "\<And>n. output_segment seq ack flags window data loc rem n =
       and_then (ip_output Tcp (tcp_segment seq ack flags window data loc rem c) (ep_address loc) (ep_address rem) n)
         (\<lambda>(r, n'). and_then (unwrap_result r) (\<lambda>_. Ret (length data, n')))"
    "pseudo_sum (ep_address loc) (ep_address rem) Tcp (le_to_be_u16 (of_nat (20 + length data))) = Ret s"
    "cksum16 (tcp_segment seq ack flags window data loc rem c) (20 + length data) s = Ret 0"
    by (rule output_segment_sum [OF len, of seq ack flags window loc rem]) blast
  show ?thesis
  proof (rule that)
    show "output_segment seq ack flags window data loc rem n =
       Ret (length data, ip_sent Tcp (ep_address loc) (ep_address rem) hw (tcp_segment seq ack flags window data loc rem c) n)"
      using ip_output_reaches [OF assms(2,3)] assms(1) by (simp add: c(1))
    show "tcp_input (tcp_segment seq ack flags window data loc rem c) (20 + length data)
         (ep_address loc) (ep_address rem) iface m =
       and_then (segment_arrives (segment_of seq ack flags window data) flags data (length data) rem loc m)
         (\<lambda>m'. Ret (Ok (), m'))" for m
      by (rule tcp_input_segment [OF len assms(4) c(2,3)])
  qed
qed

text \<open>
  The capacity of a pass is the window less the octets in flight, a checked subtraction. A
  block that accepted a connection has its SYN in flight and no window yet.
\<close>

lemma send_beyond_window:
  assumes "i < length (fst m)" "tcb_state (fst m ! i) \<in> {Established, CloseWait}" "40 \<le> mtu (device (snd m))"
    and "snd_una (send_context (fst m ! i)) \<le> snd_next (send_context (fst m ! i))"
    and "unat (snd_window (send_context (fst m ! i))) <
      unat (snd_next (send_context (fst m ! i)) - snd_una (send_context (fst m ! i)))"
    and "sent < length data"
  shows "send_pass c i data sent m = Some (Fault Overflow)"
proof -
  let ?sc = "send_context (fst m ! i)"
  have "send_capacity (snd_window ?sc) (snd_next ?sc) (snd_una ?sc) = Fault Overflow"
    using assms(4,5) by (simp add: send_capacity_def checked_sub_def word_le_nat_alt)
  then show ?thesis
    using assms(1-3,6)
    by (subst send_pass_def)
      (auto simp: pcb_by_id_def get_mut_by_id_def usize_sub_def IP_HEADER_MIN_SIZE_def TCP_HDR_SIZE_def Let_def
        send_segments.simps send_exit_def)
qed

end
