(* ===== verification/End_To_End.thy ===== *)
theory End_To_End
  imports App Tcp_Exchange
begin

text \<open>
  Frames between hosts. \<open>frame_processed\<close> composes the interrupt handler, the protocol
  queues and the protocol handlers: a frame that the TAP device reads is given to the
  handler of its type, on the state the interrupt left. On top of it: what a datagram, a
  segment, an echo request and an ARP request sent by one host do at another.
\<close>

section \<open>From the interrupt to the handler\<close>

lemma ethernet_read_keeps:
  assumes "ethernet_read_data d = Ret (x, d')"
  shows "\<exists>y. d' = d\<lparr>driver_data := y\<rparr>"
proof -
  have id: "\<exists>y. z = z\<lparr>driver_data := y\<rparr>" for z :: net_device by (rule exI [of _ "driver_data z"]) simp
  show ?thesis
    using assms
    by (auto simp: ethernet_read_data_def tap_read_data_def exec_simps Let_def
        split: driver_type.splits if_splits intro: id)
qed

text \<open>The device after a read from the TAP file.\<close>

definition tap_advance :: "net_device \<Rightarrow> net_device" where
  "tap_advance d = d\<lparr>driver_data := map_option (\<lambda>dd. dd\<lparr>file_reads := Suc (file_reads dd)\<rparr>) (driver_data d)\<rparr>"

lemma tap_advance_simps [simp]:
  "dev_mac (tap_advance d) = dev_mac d" "get_interface (tap_advance d) fam = get_interface d fam"
  "tap_ready (tap_advance d) = tap_ready d" "tap_sent (tap_advance d) = tap_sent d"
  "dev_flags (tap_advance d) = dev_flags d" "dev_broadcast (tap_advance d) = dev_broadcast d"
  by (auto simp: tap_advance_def dev_mac_def get_interface_def tap_ready_def is_open_def tap_sent_def split: option.split)

lemma ethernet_read_advance:
  assumes "driver_type d = Some Tap" "ethernet_read_data d = Ret (x, d')"
  shows "d' = tap_advance d"
  using assms by (auto simp: ethernet_read_data_def tap_read_data_def tap_advance_def exec_simps Let_def split: if_splits)

text \<open>A host as \<open>app_new\<close> builds it: the loopback and the TAP device, the ARP and the IP queue.\<close>

definition two_devices :: "net_app \<Rightarrow> net_device \<Rightarrow> net_device \<Rightarrow> bool" where
  "two_devices app lo eth \<longleftrightarrow>
     list_iter (st_devices (app_stack app)) = [lo, eth] \<and> irq (dev_irq_entry lo) \<noteq> IRQ_ETHERNET \<and>
     irq (dev_irq_entry eth) = IRQ_ETHERNET \<and> device_type eth = Ethernet"

definition idle_queues :: "net_app \<Rightarrow> bool" where
  "idle_queues app \<longleftrightarrow> list_iter (app_protocols app) = [net_protocol_new Arp_Type, net_protocol_new IP_Type]"

lemma map_exec_Ret: "map_exec f m = Ret y \<longleftrightarrow> (\<exists>x. m = Ret x \<and> f x = y)"
  by (cases m) auto

lemma map_exec_Fault: "map_exec f m = Fault e \<longleftrightarrow> m = Fault e"
  by (cases m) auto

lemma interrupt_enqueues:
  assumes "two_devices app lo eth" "idle_queues app"
    and "ethernet_read_data eth = Ret (Some (ty, data, len), eth')" "ty = Arp_Type \<or> ty = IP_Type"
  obtains app1 where "app_handle_irq IRQ_ETHERNET app = Ret app1" "two_devices app1 lo eth'"
    "list_iter (app_protocols app1) = enqueue_seq ty \<lparr>pd_irq = IRQ_ETHERNET, pd_data = Some data, pd_len = len\<rparr>
       [net_protocol_new Arp_Type, net_protocol_new IP_Type]"
    "st_world (app_stack app1) = raise_signal SIGUSR1 (st_world (app_stack app))"
    "st_contexts (app_stack app1) = st_contexts (app_stack app)" "st_pcbs (app_stack app1) = st_pcbs (app_stack app)"
proof -
  let ?s = "app_stack app"
  let ?f = "\<lambda>d (ps, w). if irq (dev_irq_entry d) = IRQ_ETHERNET
          then and_then (device_isr d IRQ_ETHERNET ps w) (\<lambda>(d', ps', w'). Ret (d', (ps', w'), Continue))
          else Ret (d, (ps, w), Continue)"
  have dev: "list_iter (st_devices ?s) = [lo, eth]" "irq (dev_irq_entry lo) \<noteq> IRQ_ETHERNET"
    "irq (dev_irq_entry eth) = IRQ_ETHERNET" "device_type eth = Ethernet"
    using assms(1) by (auto simp: two_devices_def)
  obtain y where eth': "eth' = eth\<lparr>driver_data := y\<rparr>" using ethernet_read_keeps [OF assms(3)] by blast
  obtain ps' where isr: "device_isr eth IRQ_ETHERNET (app_protocols app) (st_world ?s) =
      Ret (eth', ps', raise_signal SIGUSR1 (st_world ?s))"
    "list_iter ps' = enqueue_seq ty \<lparr>pd_irq = IRQ_ETHERNET, pd_data = Some data, pd_len = len\<rparr> (list_iter (app_protocols app))"
    by (rule device_isr_ethernet [OF dev(4) assms(3), of IRQ_ETHERNET "app_protocols app" "st_world ?s"])
  have "seq_iter_mut ?f [lo, eth] (app_protocols app, st_world ?s) = Ret ([lo, eth'], ps', raise_signal SIGUSR1 (st_world ?s))"
    using dev isr(1) by simp
  then obtain ds' where ds': "for_iter_mut ?f (st_devices ?s) (app_protocols app, st_world ?s) =
      Ret (ds', ps', raise_signal SIGUSR1 (st_world ?s))" "list_iter ds' = [lo, eth']"
    using for_iter_mut_refines [of ?f "st_devices ?s" "(app_protocols app, st_world ?s)"] dev(1)
    by (auto simp: map_exec_Ret)
  let ?app1 = "app\<lparr>app_stack := ?s\<lparr>st_devices := ds', st_world := raise_signal SIGUSR1 (st_world ?s)\<rparr>, app_protocols := ps'\<rparr>"
  have "app_handle_irq IRQ_ETHERNET app = Ret ?app1"
    using ds'(1) by (simp add: app_handle_irq_def devices_handle_irq_def Let_def)
  then show ?thesis
    by (rule that) (use ds'(2) dev isr(2) assms(2) eth' in \<open>simp_all add: two_devices_def idle_queues_def\<close>)
qed

text \<open>The handler of one queued entry.\<close>

lemma handle_entry_eth:
  assumes "list_iter (st_devices s) = [lo, eth]" "irq (dev_irq_entry lo) \<noteq> i" "irq (dev_irq_entry eth) = i"
    and "protocol_input ty data len (st_pcbs s) (net_of eth (st_contexts s) (st_world s)) = Ret (cbs', n')"
  obtains s' where "handle_entry ty \<lparr>pd_irq = i, pd_data = Some data, pd_len = len\<rparr> s = Ret s'"
    "list_iter (st_devices s') = [lo, device n']" "st_contexts s' = contexts n'" "st_world s' = world_of n'" "st_pcbs s' = cbs'"
proof -
  let ?pd = "\<lparr>pd_irq = i, pd_data = Some data, pd_len = len\<rparr>"
  have "seq_iter_mut (deliver ty ?pd data) [lo, eth] (st_contexts s, st_pcbs s, st_world s) =
      Ret ([lo, device n'], contexts n', cbs', world_of n')"
    using assms(2-4) by (simp add: deliver_def)
  then obtain ds where "for_iter_mut (deliver ty ?pd data) (st_devices s) (st_contexts s, st_pcbs s, st_world s) =
      Ret (ds, contexts n', cbs', world_of n')" "list_iter ds = [lo, device n']"
    using for_iter_mut_refines [of "deliver ty ?pd data" "st_devices s" "(st_contexts s, st_pcbs s, st_world s)"] assms(1)
    by (auto simp: map_exec_Ret)
  then show ?thesis
    by (intro that [of "s\<lparr>st_devices := ds, st_contexts := contexts n', st_pcbs := cbs', st_world := world_of n'\<rparr>"])
      (simp_all add: handle_entry_def)
qed

lemma handle_entry_fault:
  assumes "list_iter (st_devices s) = [lo, eth]" "irq (dev_irq_entry lo) \<noteq> i" "irq (dev_irq_entry eth) = i"
    and "protocol_input ty data len (st_pcbs s) (net_of eth (st_contexts s) (st_world s)) = Fault e"
  shows "handle_entry ty \<lparr>pd_irq = i, pd_data = Some data, pd_len = len\<rparr> s = Fault e"
proof -
  let ?pd = "\<lparr>pd_irq = i, pd_data = Some data, pd_len = len\<rparr>"
  have "seq_iter_mut (deliver ty ?pd data) [lo, eth] (st_contexts s, st_pcbs s, st_world s) = Fault e"
    using assms(2-4) by (simp add: deliver_def)
  then have "for_iter_mut (deliver ty ?pd data) (st_devices s) (st_contexts s, st_pcbs s, st_world s) = Fault e"
    using for_iter_mut_refines [of "deliver ty ?pd data" "st_devices s" "(st_contexts s, st_pcbs s, st_world s)"] assms(1)
    by (simp add: map_exec_Fault)
  then show ?thesis by (simp add: handle_entry_def)
qed

lemma queue_of_one:
  assumes "ty = Arp_Type \<or> ty = IP_Type"
  shows "seq_iter_mut (\<lambda>p s. and_then (handle_input p s) (\<lambda>(p', s'). Ret (p', s', Continue)))
      (enqueue_seq ty e [net_protocol_new Arp_Type, net_protocol_new IP_Type]) s =
    and_then (handle_entry ty e s) (\<lambda>s'. Ret ([net_protocol_new Arp_Type, net_protocol_new IP_Type], s'))"
  using assms by (cases "handle_entry ty e s") (auto simp: handle_input_def net_protocol_new_def)

lemma frame_processed:
  assumes "two_devices app lo eth" "idle_queues app"
    and "ethernet_read_data eth = Ret (Some (ty, data, len), eth')" "ty = Arp_Type \<or> ty = IP_Type"
    and "protocol_input ty data len (app_blocks app)
      (net_of eth' (st_contexts (app_stack app)) (raise_signal SIGUSR1 (st_world (app_stack app)))) = Ret (cbs', n')"
  obtains app1 app2 where "app_handle_irq IRQ_ETHERNET app = Ret app1" "app_handle_protocol app1 = Ret app2"
    "list_iter (st_devices (app_stack app2)) = [lo, device n']" "idle_queues app2"
    "st_contexts (app_stack app2) = contexts n'" "st_world (app_stack app2) = world_of n'" "app_blocks app2 = cbs'"
proof -
  let ?e = "\<lparr>pd_irq = IRQ_ETHERNET, pd_data = Some data, pd_len = len\<rparr>"
  let ?g = "\<lambda>p s. and_then (handle_input p s) (\<lambda>(p', s'). Ret (p', s', Continue))"
  obtain app1 where a: "app_handle_irq IRQ_ETHERNET app = Ret app1" "two_devices app1 lo eth'"
    "list_iter (app_protocols app1) = enqueue_seq ty ?e [net_protocol_new Arp_Type, net_protocol_new IP_Type]"
    "st_world (app_stack app1) = raise_signal SIGUSR1 (st_world (app_stack app))"
    "st_contexts (app_stack app1) = st_contexts (app_stack app)" "app_blocks app1 = app_blocks app"
    by (rule interrupt_enqueues [OF assms(1-4)])
  from a(2) have dev: "list_iter (st_devices (app_stack app1)) = [lo, eth']" "irq (dev_irq_entry lo) \<noteq> IRQ_ETHERNET"
    "irq (dev_irq_entry eth') = IRQ_ETHERNET" by (simp_all add: two_devices_def)
  obtain s' where s': "handle_entry ty ?e (app_stack app1) = Ret s'"
    "list_iter (st_devices s') = [lo, device n']" "st_contexts s' = contexts n'" "st_world s' = world_of n'" "st_pcbs s' = cbs'"
    by (rule handle_entry_eth [OF dev, of ty data len cbs' n']) (use assms(5) a(4-6) in simp)
  have "seq_iter_mut ?g (list_iter (app_protocols app1)) (app_stack app1) =
      Ret ([net_protocol_new Arp_Type, net_protocol_new IP_Type], s')"
    using queue_of_one [OF assms(4), of ?e "app_stack app1"] a(3) s'(1) by simp
  then obtain ps where ps: "for_iter_mut ?g (app_protocols app1) (app_stack app1) = Ret (ps, s')"
    "list_iter ps = [net_protocol_new Arp_Type, net_protocol_new IP_Type]"
    using for_iter_mut_refines [of ?g "app_protocols app1" "app_stack app1"] by (auto simp: map_exec_Ret)
  then have "app_handle_protocol app1 = Ret (app1\<lparr>app_stack := s', app_protocols := ps\<rparr>)"
    by (simp add: app_handle_protocol_def handle_data_def)
  then show ?thesis
    by (rule that [OF a(1)]) (use s' ps(2) in \<open>simp_all add: idle_queues_def\<close>)
qed

lemma frame_faults:
  assumes "two_devices app lo eth" "idle_queues app"
    and "ethernet_read_data eth = Ret (Some (ty, data, len), eth')" "ty = Arp_Type \<or> ty = IP_Type"
    and "protocol_input ty data len (app_blocks app)
      (net_of eth' (st_contexts (app_stack app)) (raise_signal SIGUSR1 (st_world (app_stack app)))) = Fault e"
  obtains app1 where "app_handle_irq IRQ_ETHERNET app = Ret app1" "app_handle_protocol app1 = Fault e"
proof -
  let ?e = "\<lparr>pd_irq = IRQ_ETHERNET, pd_data = Some data, pd_len = len\<rparr>"
  let ?g = "\<lambda>p s. and_then (handle_input p s) (\<lambda>(p', s'). Ret (p', s', Continue))"
  obtain app1 where a: "app_handle_irq IRQ_ETHERNET app = Ret app1" "two_devices app1 lo eth'"
    "list_iter (app_protocols app1) = enqueue_seq ty ?e [net_protocol_new Arp_Type, net_protocol_new IP_Type]"
    "st_world (app_stack app1) = raise_signal SIGUSR1 (st_world (app_stack app))"
    "st_contexts (app_stack app1) = st_contexts (app_stack app)" "app_blocks app1 = app_blocks app"
    by (rule interrupt_enqueues [OF assms(1-4)])
  from a(2) have dev: "list_iter (st_devices (app_stack app1)) = [lo, eth']" "irq (dev_irq_entry lo) \<noteq> IRQ_ETHERNET"
    "irq (dev_irq_entry eth') = IRQ_ETHERNET" by (simp_all add: two_devices_def)
  have "handle_entry ty ?e (app_stack app1) = Fault e"
    by (rule handle_entry_fault [OF dev]) (use assms(5) a(4-6) in simp)
  then have "seq_iter_mut ?g (list_iter (app_protocols app1)) (app_stack app1) = Fault e"
    using queue_of_one [OF assms(4), of ?e "app_stack app1"] a(3) by simp
  then have "for_iter_mut ?g (app_protocols app1) (app_stack app1) = Fault e"
    using for_iter_mut_refines [of ?g "app_protocols app1" "app_stack app1"] by (simp add: map_exec_Fault)
  then have "app_handle_protocol app1 = Fault e" by (simp add: app_handle_protocol_def handle_data_def)
  then show ?thesis by (rule that [OF a(1)])
qed

section \<open>IP packets in frames\<close>

text \<open>The device of the receiver is about to read the frame.\<close>

definition interrupted :: "net_app \<Rightarrow> net_device \<Rightarrow> net" where
  "interrupted app eth = net_of (tap_advance eth) (st_contexts (app_stack app)) (raise_signal SIGUSR1 (st_world (app_stack app)))"

lemma interrupted_simps [simp]:
  "device (interrupted app eth) = tap_advance eth" "contexts (interrupted app eth) = st_contexts (app_stack app)"
  "chans (interrupted app eth) = chans (st_world (app_stack app))" "clock (interrupted app eth) = clock (st_world (app_stack app))"
  "readings (interrupted app eth) = readings (st_world (app_stack app))"
  by (simp_all add: interrupted_def net_of_def raise_signal_def)

lemmas eth_processed = frame_processed [where eth' = "tap_advance eth" for eth, folded interrupted_def]
lemmas eth_faults = frame_faults [where eth' = "tap_advance eth" for eth, folded interrupted_def]

definition about_to_read :: "net_device \<Rightarrow> bytes \<Rightarrow> bool" where
  "about_to_read d fr \<longleftrightarrow> driver_type d = Some Tap \<and>
     (\<exists>dd. driver_data d = Some dd \<and> file_read dd (file_reads dd) = Some fr)"

lemma read_ip_frame:
  assumes "about_to_read d (ip_frame p src dst hw data n)" "dev_mac d = hw" "length hw = 6"
    and "tap_ready (device n)" "length data \<le> 1480" "get_interface d IP_Family = Some iface" "unicast iface = dst"
  obtains pkt len where "ethernet_read_data d = Ret (Some (IP_Type, pkt, len), tap_advance d)"
    "\<And>cbs n2. device n2 = tap_advance d \<Longrightarrow> protocol_input IP_Type pkt len cbs n2 =
       and_then (ip_dispatch p (data @ replicate (26 - length data) 0) (max 26 (length data)) src dst iface cbs n2)
         (\<lambda>(r, cbs', n'). and_then (unwrap_result r) (\<lambda>_. Ret (cbs', n')))"
proof -
  let ?i = "ctx_ip_id (contexts n) + 1"
  let ?pkt = "ip_packet p src dst ?i data"
  have len: "length ?pkt = 20 + length data" using assms(5) by (intro length_ip_packet) simp
  obtain dd where dd: "driver_type d = Some Tap" "driver_data d = Some dd"
    "file_read dd (file_reads dd) = Some (eth_frame hw (dev_mac (device n)) IP_Type ?pkt)"
    using assms(1) by (auto simp: about_to_read_def ip_frame_def)
  obtain d' where d': "ethernet_read_data d =
      Ret (Some (IP_Type, ?pkt @ replicate (46 - length ?pkt) 0, max 46 (length ?pkt)), d')"
    using ethernet_read_frame [OF dd(1-3) assms(3)] assms(2,4,5) len by auto
  then have d'_eq: "d' = tap_advance d" using ethernet_read_advance [OF dd(1)] by blast
  have gi: "get_interface (tap_advance d) IP_Family = Some iface" using assms(6) by simp
  have pad: "46 - length ?pkt = 26 - length data" "max 46 (length ?pkt) = 20 + length data + (26 - length data)"
    "max 26 (length data) = length data + (26 - length data)"
    using len by simp_all
  have "protocol_input IP_Type (?pkt @ replicate (26 - length data) 0) (20 + length data + (26 - length data)) cbs n2 =
       and_then (ip_dispatch p (data @ replicate (26 - length data) 0) (max 26 (length data)) src dst iface cbs n2)
         (\<lambda>(r, cbs', n'). and_then (unwrap_result r) (\<lambda>_. Ret (cbs', n')))" if "device n2 = tap_advance d" for cbs n2
    using ip_input_packet [of data n2 iface dst p src ?i "replicate (26 - length data) 0" cbs] assms(5,7) gi that pad(3)
    by (simp add: protocol_input_def)
  then show ?thesis using d' unfolding d'_eq by (intro that) (simp_all only: pad(1,2))
qed

section \<open>A datagram from socket to socket\<close>

lemma chans_update_net [simp]:
  "c < length (chans w) \<Longrightarrow> chans (chan_update c f w) = (chans w)[c := f (chans w ! c)]"
  by (simp add: chan_update_def)

lemma chans_raise [simp]: "chans (raise_signal sig w) = chans w"
  by (simp add: raise_signal_def)

lemma chans_world_of [simp]: "chans (world_of n) = chans n"
  by (simp add: world_of_def)

lemma endpoint_eta: "\<lparr>ep_address = ep_address e, ep_port = ep_port e\<rparr> = e" for e :: ip_endpoint
  by simp

lemma udp_output_reaches:
  assumes "reaches n (ep_address src) (ep_address dst) hw" "ctx_ip_id (contexts n) \<noteq> 0xffff" "length data \<le> 1472"
  obtains c s where
    "udp_output src dst data n = Ret (ip_sent Udp (ep_address src) (ep_address dst) hw (udp_datagram src dst data c) n)"
    "pseudo_sum (ep_address src) (ep_address dst) Udp (le_to_be_u16 (of_nat (8 + length data))) = Ret s"
    "cksum16 (udp_datagram src dst data c) (8 + length data) s = Ret 0"
proof -
  have l: "length data \<le> 65507" using assms(3) by simp
  obtain c s where c: "udp_output src dst data n =
       and_then (ip_output Udp (udp_datagram src dst data c) (ep_address src) (ep_address dst) n)
         (\<lambda>(r, n'). and_then (unwrap_result r) (\<lambda>_. Ret n'))"
    "pseudo_sum (ep_address src) (ep_address dst) Udp (le_to_be_u16 (of_nat (8 + length data))) = Ret s"
    "cksum16 (udp_datagram src dst data c) (8 + length data) s = Ret 0"
    by (rule udp_output_datagram [OF l, of src dst n])
  show ?thesis
    by (rule that [OF _ c(2,3)]) (use c(1) ip_output_reaches [OF assms(1,2)] assms(3) in simp)
qed

lemma tap_sent_ip: "tap_ready (device n) \<Longrightarrow>
  tap_sent (device (ip_sent p src dst hw data n)) = tap_sent (device n) @ [ip_frame p src dst hw data n]"
  by (simp add: ip_sent_def)

lemma reaches_ready: "reaches n src dst hw \<Longrightarrow> tap_ready (device n) \<and> length hw = 6"
  by (auto simp: reaches_def)

text \<open>
  The receiver: its TAP device has the hardware address and its interface the address
  the sender used, and its queues are empty.
\<close>

definition receiver :: "net_app \<Rightarrow> net_device \<Rightarrow> bytes \<Rightarrow> ip_address \<Rightarrow> bool" where
  "receiver app eth hw ip \<longleftrightarrow> (\<exists>lo iface. two_devices app lo eth \<and> idle_queues app \<and> dev_mac eth = hw \<and>
     get_interface eth IP_Family = Some iface \<and> unicast iface = ip)"

lemma udp_end_to_end:
  assumes "reaches n (ep_address src) (ep_address dst) hw" "ctx_ip_id (contexts n) \<noteq> 0xffff"
    and "18 \<le> length data" "length data \<le> 1472"
  obtains n' fr where "udp_output src dst data n = Ret n'" "tap_sent (device n') = tap_sent (device n) @ [fr]"
    "\<And>app eth i ch. receiver app eth hw (ep_address dst) \<Longrightarrow> about_to_read eth fr \<Longrightarrow>
       udp_get_by_host (udp_blocks (app_blocks app)) (ep_address dst) (ep_port dst) = Some i \<Longrightarrow>
       udp_sender (udp_blocks (app_blocks app) ! i) = Some ch \<Longrightarrow> ch < length (chans (st_world (app_stack app))) \<Longrightarrow>
       ch_receiver (chans (st_world (app_stack app)) ! ch) \<Longrightarrow>
       \<exists>app1 app2. app_handle_irq IRQ_ETHERNET app = Ret app1 \<and> app_handle_protocol app1 = Ret app2 \<and>
         app_blocks app2 = (app_blocks app)\<lparr>udp_blocks := (udp_blocks (app_blocks app))[i :=
           (udp_blocks (app_blocks app) ! i)\<lparr>data_entries := data_entries (udp_blocks (app_blocks app) ! i) @
             [\<lparr>ude_remote = src, ude_len = length data, ude_data = data\<rparr>]\<rparr>]\<rparr> \<and>
         ch_queue (chans (st_world (app_stack app2)) ! ch) = ch_queue (chans (st_world (app_stack app)) ! ch) @ [True]"
proof -
  have ready: "tap_ready (device n)" "length hw = 6" using reaches_ready [OF assms(1)] by auto
  obtain c s where c: "udp_output src dst data n =
      Ret (ip_sent Udp (ep_address src) (ep_address dst) hw (udp_datagram src dst data c) n)"
    "pseudo_sum (ep_address src) (ep_address dst) Udp (le_to_be_u16 (of_nat (8 + length data))) = Ret s"
    "cksum16 (udp_datagram src dst data c) (8 + length data) s = Ret 0"
    by (rule udp_output_reaches [OF assms(1,2,4)])
  let ?dg = "udp_datagram src dst data c"
  have dlen: "length ?dg \<le> 1480" "26 \<le> length ?dg" using assms(3,4) by simp_all
  show ?thesis
  proof (rule that [OF c(1) tap_sent_ip [OF ready(1)]])
    fix app eth i ch
    assume r: "receiver app eth hw (ep_address dst)"
      and rd: "about_to_read eth (ip_frame Udp (ep_address src) (ep_address dst) hw ?dg n)"
      and u: "udp_get_by_host (udp_blocks (app_blocks app)) (ep_address dst) (ep_port dst) = Some i"
        "udp_sender (udp_blocks (app_blocks app) ! i) = Some ch"
        "ch < length (chans (st_world (app_stack app)))" "ch_receiver (chans (st_world (app_stack app)) ! ch)"
    let ?pcbs = "udp_blocks (app_blocks app)"
    from r obtain lo iface where r: "two_devices app lo eth" "idle_queues app" "dev_mac eth = hw"
      "get_interface eth IP_Family = Some iface" "unicast iface = ep_address dst" by (auto simp: receiver_def)
    obtain pkt len where pkt: "ethernet_read_data eth = Ret (Some (IP_Type, pkt, len), tap_advance eth)"
      "\<And>cbs n2. device n2 = tap_advance eth \<Longrightarrow> protocol_input IP_Type pkt len cbs n2 =
         and_then (ip_dispatch Udp (?dg @ replicate (26 - length ?dg) 0) (max 26 (length ?dg))
           (ep_address src) (ep_address dst) iface cbs n2)
           (\<lambda>(r, cbs', n'). and_then (unwrap_result r) (\<lambda>_. Ret (cbs', n')))"
      by (rule read_ip_frame [OF rd r(3) ready(2,1) dlen(1) r(4,5)]) blast
    let ?n2 = "interrupted app eth"
    let ?e = "\<lparr>ude_remote = src, ude_len = length data, ude_data = data\<rparr>"
    let ?pcbs' = "?pcbs[i := (?pcbs ! i)\<lparr>data_entries := data_entries (?pcbs ! i) @ [?e]\<rparr>]"
    let ?n3 = "chan_update ch (\<lambda>x. x\<lparr>ch_queue := ch_queue x @ [True]\<rparr>) ?n2"
    have i: "i < length ?pcbs" using u(1) by (auto simp: udp_get_by_host_def dest: first_index_Some)
    have l: "length data \<le> 65507" using assms(4) by simp
    have "udp_input ?dg (8 + length data) (ep_address src) (ep_address dst) ?pcbs ?n2 = Ret (Ok (), ?pcbs', ?n3)"
      using udp_input_datagram [OF l c(2,3) u(1) i u(2), of ?n2] u(3,4) endpoint_eta [of src] by simp
    then have "protocol_input IP_Type pkt len (app_blocks app) ?n2 = Ret ((app_blocks app)\<lparr>udp_blocks := ?pcbs'\<rparr>, ?n3)"
      using pkt(2) [of ?n2] dlen(2) assms(3) by (simp add: ip_dispatch_def max_def)
    then obtain app1 app2 where "app_handle_irq IRQ_ETHERNET app = Ret app1" "app_handle_protocol app1 = Ret app2"
      "st_world (app_stack app2) = world_of ?n3" "app_blocks app2 = (app_blocks app)\<lparr>udp_blocks := ?pcbs'\<rparr>"
      using eth_processed [OF r(1,2) pkt(1)] by blast
    then show "\<exists>app1 app2. app_handle_irq IRQ_ETHERNET app = Ret app1 \<and> app_handle_protocol app1 = Ret app2 \<and>
         app_blocks app2 = (app_blocks app)\<lparr>udp_blocks := ?pcbs'\<rparr> \<and>
         ch_queue (chans (st_world (app_stack app2)) ! ch) = ch_queue (chans (st_world (app_stack app)) ! ch) @ [True]"
      using u(3) by auto
  qed
qed

text \<open>
  A datagram with less than 18 bytes of data travels in a padded frame. The receiver takes
  the padded length for the length of the datagram and panics on the difference.
\<close>

lemma udp_short_panics:
  assumes "reaches n (ep_address src) (ep_address dst) hw" "ctx_ip_id (contexts n) \<noteq> 0xffff" "length data < 18"
  obtains n' fr where "udp_output src dst data n = Ret n'" "tap_sent (device n') = tap_sent (device n) @ [fr]"
    "\<And>app eth. receiver app eth hw (ep_address dst) \<Longrightarrow> about_to_read eth fr \<Longrightarrow>
       \<exists>app1. app_handle_irq IRQ_ETHERNET app = Ret app1 \<and> app_handle_protocol app1 = Fault Panicked"
proof -
  have ready: "tap_ready (device n)" "length hw = 6" using reaches_ready [OF assms(1)] by auto
  have dl: "length data \<le> 1472" using assms(3) by simp
  obtain c s where c: "udp_output src dst data n =
      Ret (ip_sent Udp (ep_address src) (ep_address dst) hw (udp_datagram src dst data c) n)"
    by (rule udp_output_reaches [OF assms(1,2) dl])
  let ?dg = "udp_datagram src dst data c"
  let ?pad = "replicate (26 - length ?dg) 0"
  have dlen: "length ?dg \<le> 1480" using assms(3) by simp
  have "udp_header_wf ((udp_header_of src dst data)\<lparr>udp_checksum := le_to_be_u16 c\<rparr>)" by (simp add: udp_header_wf_def)
  then have hdr: "udp_header_read (?dg @ ?pad) = (udp_header_of src dst data)\<lparr>udp_checksum := le_to_be_u16 c\<rparr>"
    using udp_hdr.read_layout [of "(udp_header_of src dst data)\<lparr>udp_checksum := le_to_be_u16 c\<rparr>" "data @ ?pad"]
    by (simp add: udp_datagram_def to_u8_slice_def)
  have "(of_nat (8 + length data) :: u16) \<noteq> of_nat 26"
  proof
    assume "(of_nat (8 + length data) :: u16) = of_nat 26"
    then have "unat (of_nat (8 + length data) :: u16) = unat (of_nat 26 :: u16)" by (rule arg_cong)
    then show False using assms(3) by (simp del: of_nat_add)
  qed
  then have ne: "be_to_le_u16 (udp_len (udp_header_read (?dg @ ?pad))) \<noteq> of_nat 26"
    unfolding hdr by (simp add: udp_header_of_def)
  show ?thesis
  proof (rule that [OF c(1) tap_sent_ip [OF ready(1)]])
    fix app eth
    assume r: "receiver app eth hw (ep_address dst)"
      and rd: "about_to_read eth (ip_frame Udp (ep_address src) (ep_address dst) hw ?dg n)"
    from r obtain lo iface where r: "two_devices app lo eth" "idle_queues app" "dev_mac eth = hw"
      "get_interface eth IP_Family = Some iface" "unicast iface = ep_address dst" by (auto simp: receiver_def)
    obtain pkt len where pkt: "ethernet_read_data eth = Ret (Some (IP_Type, pkt, len), tap_advance eth)"
      "\<And>cbs n2. device n2 = tap_advance eth \<Longrightarrow> protocol_input IP_Type pkt len cbs n2 =
         and_then (ip_dispatch Udp (?dg @ ?pad) (max 26 (length ?dg)) (ep_address src) (ep_address dst) iface cbs n2)
           (\<lambda>(r, cbs', n'). and_then (unwrap_result r) (\<lambda>_. Ret (cbs', n')))"
      by (rule read_ip_frame [OF rd r(3) ready(2,1) dlen r(4,5)]) blast
    let ?n2 = "interrupted app eth"
    have "max 26 (length ?dg) = 26" using assms(3) by simp
    moreover have "udp_input (?dg @ ?pad) 26 (ep_address src) (ep_address dst) (udp_blocks (app_blocks app)) ?n2 = Fault Panicked"
      by (rule udp_input_length_mismatch [OF _ ne]) simp
    ultimately have "protocol_input IP_Type pkt len (app_blocks app) ?n2 = Fault Panicked"
      using pkt(2) [of ?n2 "app_blocks app"] by (simp add: ip_dispatch_def)
    then show "\<exists>app1. app_handle_irq IRQ_ETHERNET app = Ret app1 \<and> app_handle_protocol app1 = Fault Panicked"
      using eth_faults [OF r(1,2) pkt(1)] by blast
  qed
qed

section \<open>A segment from host to host\<close>

lemma tcp_end_to_end:
  assumes "reaches n (ep_address loc) (ep_address rem) hw" "ctx_ip_id (contexts n) \<noteq> 0xffff"
    and "6 \<le> length data" "length data \<le> 1460"
  obtains n' fr where "output_segment seq ack flags window data loc rem n = Ret (length data, n')"
    "tap_sent (device n') = tap_sent (device n) @ [fr]"
    "\<And>app eth iface pcbs' n3. receiver app eth hw (ep_address rem) \<Longrightarrow> about_to_read eth fr \<Longrightarrow>
       get_interface eth IP_Family = Some iface \<Longrightarrow> unicast_pair (ep_address loc) (ep_address rem) iface \<Longrightarrow>
       segment_arrives (segment_of seq ack flags window data) flags data (length data) rem loc
         (tcp_blocks (app_blocks app), interrupted app eth) = Ret (pcbs', n3) \<Longrightarrow>
       \<exists>app1 app2. app_handle_irq IRQ_ETHERNET app = Ret app1 \<and> app_handle_protocol app1 = Ret app2 \<and>
         app_blocks app2 = (app_blocks app)\<lparr>tcp_blocks := pcbs'\<rparr> \<and> st_contexts (app_stack app2) = contexts n3 \<and>
         st_world (app_stack app2) = world_of n3"
proof -
  have ready: "tap_ready (device n)" "length hw = 6" using reaches_ready [OF assms(1)] by auto
  have len: "length data \<le> 65515" using assms(4) by simp
  obtain c s where c: "\<And>n. output_segment seq ack flags window data loc rem n =
       and_then (ip_output Tcp (tcp_segment seq ack flags window data loc rem c) (ep_address loc) (ep_address rem) n)
         (\<lambda>(r, n'). and_then (unwrap_result r) (\<lambda>_. Ret (length data, n')))"
    "pseudo_sum (ep_address loc) (ep_address rem) Tcp (le_to_be_u16 (of_nat (20 + length data))) = Ret s"
    "cksum16 (tcp_segment seq ack flags window data loc rem c) (20 + length data) s = Ret 0"
    by (rule output_segment_sum [OF len, of seq ack flags window loc rem]) blast
  let ?sg = "tcp_segment seq ack flags window data loc rem c"
  have o: "output_segment seq ack flags window data loc rem n =
      Ret (length data, ip_sent Tcp (ep_address loc) (ep_address rem) hw ?sg n)"
    using ip_output_reaches [OF assms(1,2)] assms(4) by (simp add: c(1))
  have dlen: "length ?sg \<le> 1480" "26 \<le> length ?sg" using assms(3,4) by simp_all
  show ?thesis
  proof (rule that [OF o tap_sent_ip [OF ready(1)]])
    fix app eth iface pcbs' n3
    assume r: "receiver app eth hw (ep_address rem)" "get_interface eth IP_Family = Some iface"
        "unicast_pair (ep_address loc) (ep_address rem) iface"
      and rd: "about_to_read eth (ip_frame Tcp (ep_address loc) (ep_address rem) hw ?sg n)"
      and sa: "segment_arrives (segment_of seq ack flags window data) flags data (length data) rem loc
         (tcp_blocks (app_blocks app), interrupted app eth) = Ret (pcbs', n3)"
    from r(1,2) obtain lo where d: "two_devices app lo eth" "idle_queues app" "dev_mac eth = hw"
      "unicast iface = ep_address rem" by (auto simp: receiver_def)
    obtain pkt len where pkt: "ethernet_read_data eth = Ret (Some (IP_Type, pkt, len), tap_advance eth)"
      "\<And>cbs n2. device n2 = tap_advance eth \<Longrightarrow> protocol_input IP_Type pkt len cbs n2 =
         and_then (ip_dispatch Tcp (?sg @ replicate (26 - length ?sg) 0) (max 26 (length ?sg))
           (ep_address loc) (ep_address rem) iface cbs n2)
           (\<lambda>(r, cbs', n'). and_then (unwrap_result r) (\<lambda>_. Ret (cbs', n')))"
      by (rule read_ip_frame [OF rd d(3) ready(2,1) dlen(1) r(2) d(4)]) blast
    let ?n2 = "interrupted app eth"
    have "tcp_input ?sg (20 + length data) (ep_address loc) (ep_address rem) iface (tcp_blocks (app_blocks app), ?n2) =
        Ret (Ok (), pcbs', n3)"
      using tcp_input_segment [OF len r(3) c(2,3), of "(tcp_blocks (app_blocks app), ?n2)"] sa by simp
    then have "protocol_input IP_Type pkt len (app_blocks app) ?n2 = Ret ((app_blocks app)\<lparr>tcp_blocks := pcbs'\<rparr>, n3)"
      using pkt(2) [of ?n2 "app_blocks app"] dlen(2) assms(3) by (simp add: ip_dispatch_def max_def)
    then show "\<exists>app1 app2. app_handle_irq IRQ_ETHERNET app = Ret app1 \<and> app_handle_protocol app1 = Ret app2 \<and>
         app_blocks app2 = (app_blocks app)\<lparr>tcp_blocks := pcbs'\<rparr> \<and> st_contexts (app_stack app2) = contexts n3 \<and>
         st_world (app_stack app2) = world_of n3"
      using eth_processed [OF d(1,2) pkt(1)] by blast
  qed
qed

text \<open>
  A control segment (SYN, SYN-ACK, ACK, RST) has no data and travels in a padded frame; the
  receiver includes the padding in the checksum, rejects the segment and panics on the rejection.
\<close>

lemma tcp_short_panics:
  assumes "reaches n (ep_address loc) (ep_address rem) hw" "ctx_ip_id (contexts n) \<noteq> 0xffff"
    and "length data < 6" "even (length data)"
  obtains n' fr where "output_segment seq ack flags window data loc rem n = Ret (length data, n')"
    "tap_sent (device n') = tap_sent (device n) @ [fr]"
    "\<And>app eth. receiver app eth hw (ep_address rem) \<Longrightarrow> about_to_read eth fr \<Longrightarrow>
       \<exists>app1. app_handle_irq IRQ_ETHERNET app = Ret app1 \<and> app_handle_protocol app1 = Fault UnwrapFailed"
proof -
  have ready: "tap_ready (device n)" "length hw = 6" using reaches_ready [OF assms(1)] by auto
  have len: "length data \<le> 65515" "length data \<le> 65000" using assms(3) by simp_all
  obtain c s where c: "\<And>n. output_segment seq ack flags window data loc rem n =
       and_then (ip_output Tcp (tcp_segment seq ack flags window data loc rem c) (ep_address loc) (ep_address rem) n)
         (\<lambda>(r, n'). and_then (unwrap_result r) (\<lambda>_. Ret (length data, n')))"
    "pseudo_sum (ep_address loc) (ep_address rem) Tcp (le_to_be_u16 (of_nat (20 + length data))) = Ret s"
    "cksum16 (tcp_segment seq ack flags window data loc rem c) (20 + length data) s = Ret 0"
    by (rule output_segment_sum [OF len(1), of seq ack flags window loc rem]) blast
  let ?sg = "tcp_segment seq ack flags window data loc rem c"
  let ?k = "26 - length ?sg"
  have o: "output_segment seq ack flags window data loc rem n =
      Ret (length data, ip_sent Tcp (ep_address loc) (ep_address rem) hw ?sg n)"
    using ip_output_reaches [OF assms(1,2)] assms(3) by (simp add: c(1))
  have dlen: "length ?sg \<le> 1480" "0 < ?k" "?k \<le> 46" "max 26 (length ?sg) = 20 + length data + ?k"
    using assms(3) by simp_all
  show ?thesis
  proof (rule that [OF o tap_sent_ip [OF ready(1)]])
    fix app eth
    assume r: "receiver app eth hw (ep_address rem)"
      and rd: "about_to_read eth (ip_frame Tcp (ep_address loc) (ep_address rem) hw ?sg n)"
    from r obtain lo iface where d: "two_devices app lo eth" "idle_queues app" "dev_mac eth = hw"
      "get_interface eth IP_Family = Some iface" "unicast iface = ep_address rem" by (auto simp: receiver_def)
    obtain pkt len where pkt: "ethernet_read_data eth = Ret (Some (IP_Type, pkt, len), tap_advance eth)"
      "\<And>cbs n2. device n2 = tap_advance eth \<Longrightarrow> protocol_input IP_Type pkt len cbs n2 =
         and_then (ip_dispatch Tcp (?sg @ replicate ?k 0) (max 26 (length ?sg)) (ep_address loc) (ep_address rem) iface cbs n2)
           (\<lambda>(r, cbs', n'). and_then (unwrap_result r) (\<lambda>_. Ret (cbs', n')))"
      by (rule read_ip_frame [OF rd d(3) ready(2,1) dlen(1) d(4,5)]) blast
    let ?n2 = "interrupted app eth"
    have "protocol_input IP_Type pkt len (app_blocks app) ?n2 = Fault UnwrapFailed"
      using pkt(2) [of ?n2 "app_blocks app"] tcp_input_padded [OF len(2) assms(4) dlen(2,3) c(2,3)]
      unfolding dlen(4) by (simp add: ip_dispatch_def)
    then show "\<exists>app1. app_handle_irq IRQ_ETHERNET app = Ret app1 \<and> app_handle_protocol app1 = Fault UnwrapFailed"
      using eth_faults [OF d(1,2) pkt(1)] by blast
  qed
qed

section \<open>Echo\<close>

lemma icmp_end_to_end:
  assumes "receiver app eth hw dst" "about_to_read eth (ip_frame Icmp src dst hw req n)" "tap_ready (device n)"
    and "26 \<le> length req" "length req \<le> 1480" "req ! 0 = ICMP_TYPE_ECHO" "cksum16 req (length req) 0 = Ret 0"
    and "reaches (interrupted app eth) dst src hw'" "ctx_ip_id (st_contexts (app_stack app)) \<noteq> 0xffff"
  obtains app1 app2 c lo eth2 where "app_handle_irq IRQ_ETHERNET app = Ret app1" "app_handle_protocol app1 = Ret app2"
    "app_blocks app2 = app_blocks app" "list_iter (st_devices (app_stack app2)) = [lo, eth2]"
    "tap_sent eth2 = tap_sent eth @ [ip_frame Icmp dst src hw' (echo_reply req c) (interrupted app eth)]"
    "cksum16 (echo_reply req c) (length req) 0 = Ret 0"
proof -
  from assms(1) obtain lo iface where d: "two_devices app lo eth" "idle_queues app" "dev_mac eth = hw"
    "get_interface eth IP_Family = Some iface" "unicast iface = dst" by (auto simp: receiver_def)
  let ?n2 = "interrupted app eth"
  have ready: "tap_ready (device ?n2)" using reaches_ready [OF assms(8)] by blast
  then have hw: "length hw = 6" using d(3) length_dev_mac [of eth] by simp
  obtain pkt len where pkt: "ethernet_read_data eth = Ret (Some (IP_Type, pkt, len), tap_advance eth)"
    "\<And>cbs n2. device n2 = tap_advance eth \<Longrightarrow> protocol_input IP_Type pkt len cbs n2 =
       and_then (ip_dispatch Icmp (req @ replicate (26 - length req) 0) (max 26 (length req)) src dst iface cbs n2)
         (\<lambda>(r, cbs', n'). and_then (unwrap_result r) (\<lambda>_. Ret (cbs', n')))"
    by (rule read_ip_frame [OF assms(2) d(3) hw assms(3,5) d(4,5)]) blast
  have l: "8 \<le> length req" "length req \<le> 65535" using assms(4,5) by simp_all
  obtain c where c: "cksum16 (echo_reply req c) (length req) 0 = Ret 0"
    "icmp_input req (length req) src (unicast iface) iface ?n2 =
       and_then (ip_output Icmp (echo_reply req c) (unicast iface) src ?n2) (\<lambda>(r, n').
       and_then (unwrap_result r) (\<lambda>_. Ret (Ok (), n')))"
    by (rule icmp_input_echo [OF l assms(6,7), of src iface ?n2])
  let ?n3 = "ip_sent Icmp dst src hw' (echo_reply req c) ?n2"
  have id: "ctx_ip_id (contexts ?n2) \<noteq> 0xffff" using assms(9) by simp
  have rl: "length (echo_reply req c) \<le> 1480" using length_echo_reply [of req c] l assms(5) by simp
  have "icmp_input req (length req) src dst iface ?n2 = Ret (Ok (), ?n3)"
    using c(2) ip_output_reaches [OF assms(8) id rl, of Icmp] d(5) by simp
  then have "protocol_input IP_Type pkt len (app_blocks app) ?n2 = Ret (app_blocks app, ?n3)"
    using pkt(2) [of ?n2 "app_blocks app"] assms(4) by (simp add: ip_dispatch_def max_def)
  then obtain app1 app2 where "app_handle_irq IRQ_ETHERNET app = Ret app1" "app_handle_protocol app1 = Ret app2"
    "app_blocks app2 = app_blocks app" "list_iter (st_devices (app_stack app2)) = [lo, device ?n3]"
    using eth_processed [OF d(1,2) pkt(1)] by blast
  then show ?thesis
    by (rule that) (use tap_sent_ip [OF ready] c(1) in simp_all)
qed

section \<open>Address resolution\<close>

lemma arp_request_answered:
  assumes "receiver app eth hw ip" "about_to_read eth (arp_request_frame d sip ip)"
    and "tap_ready d" "take 6 (dev_broadcast d) = ETH_ADDR_BROADCAST" "tap_ready eth"
  obtains app1 app2 lo where "app_handle_irq IRQ_ETHERNET app = Ret app1" "app_handle_protocol app1 = Ret app2"
    "app_blocks app2 = app_blocks app"
    "ctx_arp_table (st_contexts (app_stack app2)) = arp_learn (ctx_arp_table (st_contexts (app_stack app))) sip (dev_mac d)
       (clock (st_world (app_stack app)) (readings (st_world (app_stack app))))"
    "list_iter (st_devices (app_stack app2)) = [lo, tap_write (arp_reply_frame eth ip (dev_mac d) sip) (tap_advance eth)]"
proof -
  from assms(1) obtain lo iface where h: "two_devices app lo eth" "idle_queues app" "dev_mac eth = hw"
    "get_interface eth IP_Family = Some iface" "unicast iface = ip" by (auto simp: receiver_def)
  let ?n2 = "interrupted app eth"
  let ?m = "to_u8_slice arp_message_layout (arp_request_message (dev_mac d) sip ip)"
  obtain dd where dd: "driver_type eth = Some Tap" "driver_data eth = Some dd"
    "file_read dd (file_reads dd) = Some (eth_frame ETH_ADDR_BROADCAST (dev_mac d) Arp_Type ?m)"
    using assms(2,4) by (auto simp: about_to_read_def arp_request_frame_def)
  have "length ETH_ADDR_BROADCAST = 6" by (simp add: ETH_ADDR_BROADCAST_def)
  then obtain d' where "ethernet_read_data eth =
      Ret (Some (Arp_Type, ?m @ replicate (46 - length ?m) 0, max 46 (length ?m)), d')"
    using ethernet_read_frame [OF dd] assms(3) by auto
  then have rd: "ethernet_read_data eth =
      Ret (Some (Arp_Type, ?m @ replicate (46 - length ?m) 0, max 46 (length ?m)), tap_advance eth)"
    using ethernet_read_advance [OF dd(1)] by blast
  let ?n3 = "net_send (arp_reply_frame (device ?n2) (unicast iface) (dev_mac d) sip) (net_learn sip (dev_mac d) ?n2)"
  have "arp_input (?m @ replicate (46 - length ?m) 0) (max 46 (length ?m)) ?n2 = Ret (Ok (), ?n3)"
    by (rule arp_input_request) (use assms(3,5) h in simp_all)
  then have "protocol_input Arp_Type (?m @ replicate (46 - length ?m) 0) (max 46 (length ?m)) (app_blocks app) ?n2 =
      Ret (app_blocks app, ?n3)" by (simp add: protocol_input_def)
  then obtain app1 app2 where "app_handle_irq IRQ_ETHERNET app = Ret app1" "app_handle_protocol app1 = Ret app2"
    "app_blocks app2 = app_blocks app" "st_contexts (app_stack app2) = contexts ?n3"
    "list_iter (st_devices (app_stack app2)) = [lo, device ?n3]"
    using eth_processed [OF h(1,2) rd] by blast
  moreover have "arp_reply_frame (tap_advance eth) ip (dev_mac d) sip = arp_reply_frame eth ip (dev_mac d) sip"
    by (simp add: arp_reply_frame_def)
  ultimately show ?thesis using h(5) by (intro that [of app1 app2 lo]) simp_all
qed

lemma arp_reply_learned:
  assumes "receiver app eth hw ip" "about_to_read eth (arp_reply_frame d sip hw ip)" "tap_ready d" "tap_ready eth"
  obtains app1 app2 lo where "app_handle_irq IRQ_ETHERNET app = Ret app1" "app_handle_protocol app1 = Ret app2"
    "app_blocks app2 = app_blocks app"
    "ctx_arp_table (st_contexts (app_stack app2)) = arp_learn (ctx_arp_table (st_contexts (app_stack app))) sip (dev_mac d)
       (clock (st_world (app_stack app)) (readings (st_world (app_stack app))))"
    "ctx_ip_routes (st_contexts (app_stack app2)) = ctx_ip_routes (st_contexts (app_stack app))"
    "list_iter (st_devices (app_stack app2)) = [lo, tap_advance eth]"
proof -
  from assms(1) obtain lo iface where h: "two_devices app lo eth" "idle_queues app" "dev_mac eth = hw"
    "get_interface eth IP_Family = Some iface" "unicast iface = ip" by (auto simp: receiver_def)
  have hw: "length hw = 6" using assms(4) h(3) length_dev_mac [of eth] by simp
  let ?n2 = "interrupted app eth"
  let ?m = "to_u8_slice arp_message_layout (arp_reply_message (dev_mac d) sip hw ip)"
  obtain dd where dd: "driver_type eth = Some Tap" "driver_data eth = Some dd"
    "file_read dd (file_reads dd) = Some (eth_frame hw (dev_mac d) Arp_Type ?m)"
    using assms(2) by (auto simp: about_to_read_def arp_reply_frame_def)
  obtain d' where "ethernet_read_data eth =
      Ret (Some (Arp_Type, ?m @ replicate (46 - length ?m) 0, max 46 (length ?m)), d')"
    using ethernet_read_frame [OF dd hw] assms(3) h(3) hw by auto
  then have rd: "ethernet_read_data eth =
      Ret (Some (Arp_Type, ?m @ replicate (46 - length ?m) 0, max 46 (length ?m)), tap_advance eth)"
    using ethernet_read_advance [OF dd(1)] by blast
  let ?n3 = "net_learn sip (dev_mac d) ?n2"
  have "arp_input (?m @ replicate (46 - length ?m) 0) (max 46 (length ?m)) ?n2 = Ret (Ok (), ?n3)"
    by (rule arp_input_reply [where iface = iface]) (use assms(3) h hw in simp_all)
  then have "protocol_input Arp_Type (?m @ replicate (46 - length ?m) 0) (max 46 (length ?m)) (app_blocks app) ?n2 =
      Ret (app_blocks app, ?n3)" by (simp add: protocol_input_def)
  then obtain app1 app2 where "app_handle_irq IRQ_ETHERNET app = Ret app1" "app_handle_protocol app1 = Ret app2"
    "app_blocks app2 = app_blocks app" "st_contexts (app_stack app2) = contexts ?n3"
    "list_iter (st_devices (app_stack app2)) = [lo, device ?n3]"
    using eth_processed [OF h(1,2) rd] by blast
  then show ?thesis by (intro that [of app1 app2 lo]) simp_all
qed

lemma reply_resolves:
  assumes "receiver a eth (dev_mac d) src" "tap_ready eth" "tap_ready ethb"
    and "about_to_read eth (arp_reply_frame ethb (next_hop_of route dst) (dev_mac d) src)"
    and "lookup_ip_route (ctx_ip_routes (st_contexts (app_stack a))) dst = Some route"
    and "unicast (rt_interface route) = src" "\<not> is_broadcast dst route" "0 < dev_flags eth AND DEVICE_FLAG_NEED_ARP"
    and "t = clock (st_world (app_stack a)) (readings (st_world (app_stack a)))"
  shows "\<exists>a1 a2 lo eth'. app_handle_irq IRQ_ETHERNET a = Ret a1 \<and> app_handle_protocol a1 = Ret a2 \<and>
    list_iter (st_devices (app_stack a2)) = [lo, eth'] \<and>
    (\<forall>w. (\<forall>k \<ge> readings w. t \<le> clock w k \<and> arp_fresh t (clock w k)) \<longrightarrow>
       reaches (net_of eth' (st_contexts (app_stack a2)) w) src dst (dev_mac ethb))"
proof -
  let ?hop = "next_hop_of route dst"
  obtain a1 a2 lo where a2: "app_handle_irq IRQ_ETHERNET a = Ret a1" "app_handle_protocol a1 = Ret a2"
    "ctx_arp_table (st_contexts (app_stack a2)) = arp_learn (ctx_arp_table (st_contexts (app_stack a))) ?hop (dev_mac ethb) t"
    "ctx_ip_routes (st_contexts (app_stack a2)) = ctx_ip_routes (st_contexts (app_stack a))"
    "list_iter (st_devices (app_stack a2)) = [lo, tap_advance eth]"
    using arp_reply_learned [OF assms(1,4,3,2)] assms(9) by metis
  have "reaches (net_of (tap_advance eth) (st_contexts (app_stack a2)) w) src dst (dev_mac ethb)"
    if "\<forall>k \<ge> readings w. t \<le> clock w k \<and> arp_fresh t (clock w k)" for w
    unfolding reaches_def
    by (intro exI [of _ route]
        exI [of _ "\<lparr>arp_state = Resolved, proto_address = ?hop, hw_address = dev_mac ethb, timestamp = t\<rparr>"])
      (use that assms(2,5-8) a2(3,4) length_dev_mac [OF assms(3)] in \<open>simp add: needs_arp_def arp_learn_def net_of_def\<close>)
  with a2(1,2,5) show ?thesis by blast
qed

text \<open>
  The first packet to an unresolved next hop, the request it causes, the answer of the next hop,
  and the state after the answer: the next hop is reached.
\<close>

lemma arp_resolution:
  assumes "lookup_ip_route (ctx_ip_routes (contexts n)) dst = Some route" "unicast (rt_interface route) = src"
    and "\<not> is_broadcast dst route" "needs_arp n" "tap_ready (device n)"
    and "take 6 (dev_broadcast (device n)) = ETH_ADDR_BROADCAST" "ctx_ip_id (contexts n) \<noteq> 0xffff"
    and "length data \<le> 65515" "ctx_arp_table (contexts n) (next_hop_of route dst) = None"
  obtains n1 fr1 where "ip_output p data src dst n = Ret (Ok (), n1)" "tap_sent (device n1) = tap_sent (device n) @ [fr1]"
    "\<And>b ethb hwb. receiver b ethb hwb (next_hop_of route dst) \<Longrightarrow> tap_ready ethb \<Longrightarrow> about_to_read ethb fr1 \<Longrightarrow>
       \<exists>b1 b2 lo ethb' fr2. app_handle_irq IRQ_ETHERNET b = Ret b1 \<and> app_handle_protocol b1 = Ret b2 \<and>
         list_iter (st_devices (app_stack b2)) = [lo, ethb'] \<and> tap_sent ethb' = tap_sent ethb @ [fr2] \<and>
         (\<forall>a eth t. receiver a eth (dev_mac (device n)) src \<longrightarrow> tap_ready eth \<longrightarrow> dev_flags eth = dev_flags (device n) \<longrightarrow>
            about_to_read eth fr2 \<longrightarrow> st_contexts (app_stack a) = contexts n1 \<longrightarrow>
            t = clock (st_world (app_stack a)) (readings (st_world (app_stack a))) \<longrightarrow>
            (\<exists>a1 a2 lo eth'. app_handle_irq IRQ_ETHERNET a = Ret a1 \<and> app_handle_protocol a1 = Ret a2 \<and>
               list_iter (st_devices (app_stack a2)) = [lo, eth'] \<and>
               (\<forall>w. (\<forall>k \<ge> readings w. t \<le> clock w k \<and> arp_fresh t (clock w k)) \<longrightarrow>
                  reaches (net_of eth' (st_contexts (app_stack a2)) w) src dst hwb)))"
proof -
  let ?d = "device n" and ?hop = "next_hop_of route dst"
  let ?fr1 = "arp_request_frame ?d src ?hop"
  let ?resolved = "\<lambda>a t hwb. \<exists>a1 a2 lo eth'. app_handle_irq IRQ_ETHERNET a = Ret a1 \<and> app_handle_protocol a1 = Ret a2 \<and>
      list_iter (st_devices (app_stack a2)) = [lo, eth'] \<and>
      (\<forall>w. (\<forall>k \<ge> readings w. t \<le> clock w k \<and> arp_fresh t (clock w k)) \<longrightarrow>
         reaches (net_of eth' (st_contexts (app_stack a2)) w) src dst hwb)"
  let ?answered = "\<lambda>b ethb hwb. \<exists>b1 b2 lo ethb' fr2. app_handle_irq IRQ_ETHERNET b = Ret b1 \<and> app_handle_protocol b1 = Ret b2 \<and>
      list_iter (st_devices (app_stack b2)) = [lo, ethb'] \<and> tap_sent ethb' = tap_sent ethb @ [fr2] \<and>
      (\<forall>a eth t. receiver a eth (dev_mac ?d) src \<longrightarrow> tap_ready eth \<longrightarrow> dev_flags eth = dev_flags ?d \<longrightarrow>
         about_to_read eth fr2 \<longrightarrow> st_contexts (app_stack a) = contexts (net_send ?fr1 (net_count n)) \<longrightarrow>
         t = clock (st_world (app_stack a)) (readings (st_world (app_stack a))) \<longrightarrow> ?resolved a t hwb)"
  have o: "ip_output p data src dst n = Ret (Ok (), net_send ?fr1 (net_count n))"
    using ip_output_unresolved [OF assms(1) _ assms(7,4,3,5,8,9), of src p] assms(2) by (simp add: src_allowed_def)
  show ?thesis
  proof (rule that [OF o, of ?fr1])
    show "tap_sent (device (net_send ?fr1 (net_count n))) = tap_sent ?d @ [?fr1]" using assms(5) by simp
    fix b ethb hwb
    assume b: "receiver b ethb hwb ?hop" "tap_ready ethb" "about_to_read ethb ?fr1"
    let ?fr2 = "arp_reply_frame ethb ?hop (dev_mac ?d) src"
    have hwb: "dev_mac ethb = hwb" using b(1) by (auto simp: receiver_def)
    obtain b1 b2 lo where b2: "app_handle_irq IRQ_ETHERNET b = Ret b1" "app_handle_protocol b1 = Ret b2"
      "list_iter (st_devices (app_stack b2)) = [lo, tap_write ?fr2 (tap_advance ethb)]"
      by (rule arp_request_answered [OF b(1,3) assms(5,6) b(2)])
    note reply = reply_resolves [where d = "device n", OF _ _ b(2) _ _ assms(2,3)]
    have "\<forall>a eth t. receiver a eth (dev_mac ?d) src \<longrightarrow> tap_ready eth \<longrightarrow> dev_flags eth = dev_flags ?d \<longrightarrow>
        about_to_read eth ?fr2 \<longrightarrow> st_contexts (app_stack a) = contexts (net_send ?fr1 (net_count n)) \<longrightarrow>
        t = clock (st_world (app_stack a)) (readings (st_world (app_stack a))) \<longrightarrow> ?resolved a t hwb"
      using reply assms(1,4) by (simp add: hwb needs_arp_def net_count_def)
    moreover have "tap_sent (tap_write ?fr2 (tap_advance ethb)) = tap_sent ethb @ [?fr2]" using b(2) by simp
    ultimately show "?answered b ethb hwb"
      using b2 by blast
  qed
qed

end
