(* ===== verification/Shutdown.thy ===== *)
theory Shutdown
  imports App
begin

text \<open>
  The end of the program (\<^verbatim>\<open>src/src/main.rs\<close> after the signal loop): \<open>main\<close> asks the threads to end, closes the
  sockets and waits for the threads. Shown here: a TCP command that waits for data is told by
  \<open>close_sockets\<close> and ends with its next two steps, whatever the retransmission
  thread does in between; a UDP command that has passed the check for termination but does not wait yet
  is not told and waits forever.
\<close>

section \<open>Ticks without work\<close>

definition nothing_to_retransmit :: "tcp_pcb \<Rightarrow> bool" where
  "nothing_to_retransmit p \<longleftrightarrow> tcb_state p \<noteq> TimeWait \<and> data_queue p = []"

lemma retransmit_idle: "\<forall>p \<in> set pcbs. nothing_to_retransmit p \<Longrightarrow> retransmit pcbs n = Ret (pcbs, n)"
  by (induction pcbs) (simp_all add: nothing_to_retransmit_def retransmit_pcb_def retransmit_queue.simps)

lemma with_tcp_same:
  assumes "get_mut_by_type (st_devices s) Ethernet = Some d"
    and "f (tcp_blocks (st_pcbs s), net_of d (st_contexts s) (st_world s)) =
      Ret (x, pcbs, net_of d (st_contexts s) w)"
  shows "with_tcp f s = Ret (x, s\<lparr>st_world := w, st_pcbs := (st_pcbs s)\<lparr>tcp_blocks := pcbs\<rparr>\<rparr>)"
  using assms by (simp add: with_tcp_def with_ethernet_def set_ethernet_same)

lemma tick_idle:
  assumes "get_mut_by_type (st_devices s) Ethernet = Some d" "\<forall>p \<in> set (tcp_blocks (st_pcbs s)). nothing_to_retransmit p"
  shows "transmit_tick s = Ret s"
  using assms(1) with_tcp_same [OF assms(1), of "\<lambda>m. and_then (retransmit (fst m) (snd m)) (\<lambda>m'. Ret ((), m'))"]
  by (simp add: transmit_tick_def retransmit_idle [OF assms(2)])

section \<open>Closing the sockets\<close>

text \<open>\<open>close_sockets\<close> only adds the message \<open>false\<close> to channels.\<close>

definition told_to_stop :: "nat \<Rightarrow> 'z world_scheme \<Rightarrow> 'z world_scheme \<Rightarrow> bool" where
  "told_to_stop c w w' \<longleftrightarrow> length (chans w') = length (chans w) \<and> ch_receiver (chans w' ! c) = ch_receiver (chans w ! c) \<and>
     (\<exists>k. ch_queue (chans w' ! c) = ch_queue (chans w ! c) @ replicate k False)"

lemma told_trans: "told_to_stop c w w1 \<Longrightarrow> told_to_stop c w1 w2 \<Longrightarrow> told_to_stop c w w2"
  by (auto simp: told_to_stop_def simp flip: replicate_add)

lemma told_wake: "told_to_stop c w (wake s False w)"
  by (auto simp: told_to_stop_def wake_def chan_send_def chan_update_def nth_list_update split: option.split
      intro: exI [of _ 0] exI [of _ "1 :: nat"])

lemma told_close_sockets: "told_to_stop c w (snd (tcp_close_sockets pcbs w))"
proof (induction pcbs arbitrary: w)
  case Nil
  show ?case by (auto simp: told_to_stop_def)
next
  case (Cons p ps)
  then show ?case using told_trans [OF told_wake Cons, of w "tcb_sender p"] by (simp add: release_def split_beta)
qed

lemma close_sockets_wakes:
  assumes "p \<in> set pcbs" "tcb_sender p = Some c" "c < length (chans w)" "ch_receiver (chans w ! c)"
    and "ch_queue (chans w ! c) = []"
  shows "\<exists>k. ch_queue (chans (snd (tcp_close_sockets pcbs w)) ! c) = False # replicate k False"
  using assms
proof (induction pcbs arbitrary: w)
  case (Cons q ps)
  show ?case
  proof (cases "ch_queue (chans (wake (tcb_sender q) False w) ! c) = []")
    case True
    with Cons.prems(2-5) have "tcb_sender q \<noteq> Some c"
      by (auto simp: wake_def chan_send_def chan_update_def)
    with Cons.prems(1,2) have "p \<in> set ps" by auto
    with Cons.IH [OF this Cons.prems(2), of "wake (tcb_sender q) False w"] True Cons.prems(3,4) told_wake [of c w "tcb_sender q"]
    show ?thesis by (simp add: release_def split_beta told_to_stop_def)
  next
    case False
    with told_wake [of c w "tcb_sender q"] Cons.prems(5) obtain k
      where "ch_queue (chans (wake (tcb_sender q) False w) ! c) = replicate (Suc k) False"
      by (auto simp: told_to_stop_def neq0_conv gr0_conv_Suc)
    with told_close_sockets [of c "wake (tcb_sender q) False w" ps] obtain j
      where "ch_queue (chans (snd (tcp_close_sockets ps (wake (tcb_sender q) False w))) ! c) =
        False # replicate (k + j) False"
      by (auto simp: told_to_stop_def replicate_add)
    then show ?thesis by (auto simp: release_def split_beta)
  qed
qed simp

lemma udp_close_nothing: "\<forall>p \<in> set pcbs. udp_sender p = None \<Longrightarrow> udp_close_sockets pcbs w = Ret w"
  by (induction pcbs) (simp_all add: udp_notify_def)

lemma close_sockets_idle:
  assumes "tcp_close_sockets pcbs w = (pcbs', w')"
  shows "\<forall>p \<in> set pcbs'. nothing_to_retransmit p"
  unfolding tcp_close_sockets_all [OF assms] by (simp add: nothing_to_retransmit_def)

section \<open>A receiver that waits ends\<close>

fun command_tcp_thread :: "command \<Rightarrow> tcp_thread option" where
  "command_tcp_thread (TcpSendCommand ip port data t) = Some t"
| "command_tcp_thread (TcpReceiveCommand t) = Some t"
| "command_tcp_thread (UdpSendCommand ip port data t) = None"
| "command_tcp_thread (UdpReceiveCommand t) = None"

fun with_tcp_thread :: "command \<Rightarrow> tcp_thread \<Rightarrow> command" where
  "with_tcp_thread (TcpSendCommand ip port data _) t = TcpSendCommand ip port data t"
| "with_tcp_thread (TcpReceiveCommand _) t = TcpReceiveCommand t"
| "with_tcp_thread cmd t = cmd"

lemma with_tcp_thread_of [simp]: "command_tcp_thread cmd = Some t \<Longrightarrow> command_tcp_thread (with_tcp_thread cmd t') = Some t'"
  by (cases cmd) auto

fun steps_left :: "tcp_phase \<Rightarrow> nat" where
  "steps_left (TcpReceiving c l) = 2"
| "steps_left TcpDone = 0"
| "steps_left phase = 1"

definition stopping :: "stack \<Rightarrow> tcp_thread \<Rightarrow> bool" where
  "stopping st t \<longleftrightarrow> (\<exists>d. get_mut_by_type (st_devices st) Ethernet = Some d) \<and>
     (\<forall>p \<in> set (tcp_blocks (st_pcbs st)). nothing_to_retransmit p) \<and> sock_opt t \<noteq> None \<and>
     (case tcp_phase_of t of
        TcpReceiving c l \<Rightarrow> receive_branch l = AwaitData \<and> c < length (chans (st_world st)) \<and>
          (\<exists>q. ch_queue (chans (st_world st) ! c) = False # q)
      | TcpTop \<Rightarrow> True
      | TcpDone \<Rightarrow> True
      | _ \<Rightarrow> False)"

lemma receiving_told:
  assumes "stopping st t" "tcp_phase_of t = TcpReceiving c l"
  shows "\<exists>w. tcp_receiving_phase c l t st = Ret (t\<lparr>tcp_phase_of := TcpTop\<rparr>, st\<lparr>st_world := w\<rparr>)"
proof -
  obtain i q where i: "sock_opt t = Some i" and l: "receive_branch l = AwaitData"
    and c: "c < length (chans (st_world st))" "ch_queue (chans (st_world st) ! c) = False # q"
    using assms by (auto simp: stopping_def)
  have "fst (chan_recv c (st_world st)) = Message False" using c by (simp add: chan_recv_def)
  then have "receive_resume c i 2048 l (tcp_blocks (st_pcbs st), st_world st) =
      Ret (Returned None, l, tcp_blocks (st_pcbs st), drop_receiver c (snd (chan_recv c (st_world st))))"
    using l by (simp add: receive_resume_def split_beta)
  with i show ?thesis by (auto simp: tcp_receiving_phase_def with_pcbs_def)
qed

lemma stopping_command:
  assumes "stopping st t" "command_tcp_thread cmd = Some t"
  shows "\<exists>t' st'. command_step True cmd st = Some (Ret (with_tcp_thread cmd t', st')) \<and> stopping st' t' \<and>
    steps_left (tcp_phase_of t') = steps_left (tcp_phase_of t) - 1"
proof (cases "tcp_phase_of t")
  case (TcpReceiving c l)
  from receiving_told [OF assms(1) this] obtain w
    where "tcp_receiving_phase c l t st = Ret (t\<lparr>tcp_phase_of := TcpTop\<rparr>, st\<lparr>st_world := w\<rparr>)" by blast
  with TcpReceiving assms show ?thesis
    by (cases cmd) (auto simp: command_step_def tcp_send_step_def tcp_receive_step_def stopping_def)
qed (use assms in \<open>cases cmd; auto simp: command_step_def tcp_send_step_def tcp_receive_step_def stopping_def\<close>)+

definition sys_ending :: "system \<Rightarrow> bool" where
  "sys_ending s \<longleftrightarrow> sys_stopping s \<and> sys_closed s \<and> (\<exists>t. command_tcp_thread (sys_command s) = Some t \<and> stopping (app_stack (sys_app s)) t)"

lemma ending_step:
  assumes "sys_step ts s s'" "sys_ending s"
  shows "sys_ending s'"
  using assms(1)
proof cases
  case (step_tick st')
  with assms(2) tick_idle show ?thesis by (fastforce simp: sys_ending_def stopping_def)
next
  case (step_command cmd' st')
  from assms(2) obtain t where t: "sys_stopping s \<and> sys_closed s" "command_tcp_thread (sys_command s) = Some t" "stopping (app_stack (sys_app s)) t"
    by (auto simp: sys_ending_def)
  from stopping_command [OF t(3,2)] step_command t(1,2) show ?thesis by (auto simp: sys_ending_def)
qed (use assms(2) in \<open>simp_all add: sys_ending_def\<close>)

lemma ending_reachable: "(sys_step ts)\<^sup>*\<^sup>* s s' \<Longrightarrow> sys_ending s \<Longrightarrow> sys_ending s'"
  by (induction rule: rtranclp_induct) (auto intro: ending_step)

text \<open>The command waits for data, and \<open>close_sockets\<close> will find its channel.\<close>

definition awaits_data :: "system \<Rightarrow> nat \<Rightarrow> bool" where
  "awaits_data s i \<longleftrightarrow> (\<exists>t c l d. command_tcp_thread (sys_command s) = Some t \<and> tcp_phase_of t = TcpReceiving c l \<and>
     sock_opt t = Some i \<and> receive_branch l = AwaitData \<and>
     get_mut_by_type (st_devices (app_stack (sys_app s))) Ethernet = Some d \<and>
     (let pcbs = tcp_blocks (app_blocks (sys_app s)); w = st_world (app_stack (sys_app s))
      in i < length pcbs \<and> tcb_sender (pcbs ! i) = Some c \<and> c < length (chans w) \<and>
         ch_receiver (chans w ! c) \<and> ch_queue (chans w ! c) = []))"

lemma close_sockets_ending:
  assumes "awaits_data s i" "\<forall>p \<in> set (udp_blocks (app_blocks (sys_app s))). udp_sender p = None"
  shows "\<exists>app'. app_close_sockets (sys_app s) = Ret app' \<and> sys_ending (s\<lparr>sys_stopping := True, sys_app := app', sys_closed := True\<rparr>)"
proof -
  obtain t c l d where t: "command_tcp_thread (sys_command s) = Some t" "tcp_phase_of t = TcpReceiving c l"
      "sock_opt t = Some i" "receive_branch l = AwaitData"
      "get_mut_by_type (st_devices (app_stack (sys_app s))) Ethernet = Some d"
    and p: "tcp_blocks (app_blocks (sys_app s)) ! i \<in> set (tcp_blocks (app_blocks (sys_app s)))"
      "tcb_sender (tcp_blocks (app_blocks (sys_app s)) ! i) = Some c"
    and c: "c < length (chans (st_world (app_stack (sys_app s))))"
      "ch_receiver (chans (st_world (app_stack (sys_app s))) ! c)" "ch_queue (chans (st_world (app_stack (sys_app s))) ! c) = []"
    using assms(1) by (auto simp: awaits_data_def Let_def)
  obtain pcbs w where r: "tcp_close_sockets (tcp_blocks (app_blocks (sys_app s))) (st_world (app_stack (sys_app s))) = (pcbs, w)"
    by fastforce
  have "c < length (chans w)" using told_close_sockets [of c "st_world (app_stack (sys_app s))"] c(1) r
    by (metis told_to_stop_def snd_conv)
  moreover have "\<exists>k. ch_queue (chans w ! c) = False # replicate k False"
    using close_sockets_wakes [OF p c] r by simp
  ultimately show ?thesis
    using t r close_sockets_idle [OF r]
    by (auto simp: app_close_sockets_def udp_close_nothing [OF assms(2)] sys_ending_def stopping_def Let_def)
qed

lemma awaits_not_ended: "awaits_data s i \<Longrightarrow> app_sender_send (sys_command s) = Ret ()"
  by (cases "sys_command s") (auto simp: awaits_data_def app_sender_send_def command_ended_def)

lemma ending_goes_on:
  assumes "sys_ending s" "(sys_step ts)\<^sup>*\<^sup>* s s'"
  shows "\<exists>t t' st'. command_tcp_thread (sys_command s') = Some t \<and>
    command_step True (sys_command s') (app_stack (sys_app s')) = Some (Ret (with_tcp_thread (sys_command s') t', st')) \<and>
    steps_left (tcp_phase_of t') = steps_left (tcp_phase_of t) - 1"
  using ending_reachable [OF assms(2,1)] stopping_command by (fastforce simp: sys_ending_def)

section \<open>A termination that is not seen\<close>

text \<open>
  Between the check for termination at the top of the loop and the moment the new channel is stored in the socket,
  \<open>close_sockets\<close> has nobody to tell.
\<close>

definition sleeps_on :: "nat \<Rightarrow> system \<Rightarrow> bool" where
  "sleeps_on c s \<longleftrightarrow> sys_stopping s \<and> sys_closed s \<and>
     (\<exists>t i. sys_command s = UdpReceiveCommand t \<and> udp_phase_of t = UdpWaiting c \<and> soc_opt t = Some i) \<and>
     (\<exists>d. get_mut_by_type (st_devices (app_stack (sys_app s))) Ethernet = Some d) \<and>
     (\<forall>p \<in> set (tcp_blocks (app_blocks (sys_app s))). nothing_to_retransmit p) \<and>
     chan_recv c (st_world (app_stack (sys_app s))) = (Blocked, st_world (app_stack (sys_app s)))"

lemma sleeps_step:
  assumes "sys_step ts s s'" "sleeps_on c s"
  shows "s' = s"
  using assms(1)
proof cases
  case (step_tick st')
  with assms(2) tick_idle show ?thesis by (fastforce simp: sleeps_on_def)
next
  case (step_command cmd' st')
  with assms(2) show ?thesis
    by (auto simp: sleeps_on_def command_step_def udp_receive_step_def udp_waiting_phase_def udp_receive_resume_def set_udp_def)
qed (use assms(2) in \<open>simp_all add: sleeps_on_def\<close>)

lemma sleeps_forever: "(sys_step ts)\<^sup>*\<^sup>* s s' \<Longrightarrow> sleeps_on c s \<Longrightarrow> s' = s"
  by (induction rule: rtranclp_induct) (auto dest: sleeps_step)

lemma config_ethernet_device: "get_mut_by_type (st_devices (app_stack (config_app file hw w))) Ethernet = Some (eth_device file hw)"
  by (simp add: config_app_def get_mut_by_type_def rust_list.iter_push rust_list.iter_new lo_device_def loopback_init_def
      eth_device_def ethernet_init_def net_device_new_def)

lemma close_fresh: "tcp_close_sockets (replicate k tcp_pcb_new) w = (replicate k tcp_pcb_new, w)"
  by (induction k) (simp_all add: release_def wake_def tcp_pcb_new_def)

lemma udp_pcbs_new_Cons: "udp_pcbs_new = udp_pcb_new # replicate 15 udp_pcb_new"
  by (simp add: udp_pcbs_new_def UDP_PCB_COUNT_def flip: replicate_Suc)

text \<open>The first step of \<open>udp receive\<close> opens and binds the socket, the second one stores the channel.\<close>

definition bound_pcb7 :: udp_pcb where
  "bound_pcb7 = udp_pcb_new\<lparr>udp_state := UdpOpen, udp_local := \<lparr>ep_address = 0, ep_port = 0x700\<rparr>\<rparr>"

definition ready_thread :: udp_thread where
  "ready_thread = udp_thread_new\<lparr>udp_phase_of := UdpReady, soc_opt := Some 0\<rparr>"

definition bound_stack :: "udp_pcb \<Rightarrow> stack \<Rightarrow> stack" where
  "bound_stack p st = set_udp (p # replicate 15 udp_pcb_new) st"

lemma config_stack:
  "udp_blocks (st_pcbs (app_stack (config_app file hw w))) = udp_pcb_new # replicate 15 udp_pcb_new"
  "tcp_blocks (st_pcbs (app_stack (config_app file hw w))) = replicate 16 tcp_pcb_new"
  "st_world (app_stack (config_app file hw w)) = w"
  by (simp_all add: config_app_def control_blocks_new_def udp_pcbs_new_Cons tcp_pcbs_new_def TCP_PCB_COUNT_def)

lemma udp_first_step:
  "command_step False (UdpReceiveCommand udp_thread_new) (app_stack (config_app file hw w)) =
     Some (Ret (UdpReceiveCommand ready_thread, bound_stack bound_pcb7 (app_stack (config_app file hw w))))"
proof -
  let ?loc = "\<lparr>ep_address = 0, ep_port = 0x700\<rparr>"
  let ?o = "udp_pcb_new\<lparr>udp_state := UdpOpen\<rparr> # replicate 15 udp_pcb_new"
  have loc: "ip_endpoint_new_from_str ''0.0.0.0'' 7 = Ret ?loc"
    by (simp add: ip_endpoint_new_from_str_def byte_order_defs byte_swap_u16_def)
  have "udp_open (udp_pcb_new # replicate 15 udp_pcb_new) = Ret (0, ?o)"
    by (simp add: udp_open_def udp_pcb_new_def)
  moreover have "udp_get_by_host ?o 0 0x700 = None"
    by (auto simp: udp_get_by_host_def first_index_None udp_host_match_def udp_pcb_new_def endpoint_any_def)
  then have "udp_bind ?o 0 ?loc = Ret (bound_pcb7 # replicate 15 udp_pcb_new)"
    by (simp add: udp_bind_def bound_pcb7_def)
  ultimately show ?thesis
    by (simp add: command_step_def udp_receive_step_def udp_thread_new_def udp_top_phase_def config_stack loc ready_thread_def
        bound_stack_def)
qed

lemma udp_close_unheard:
  fixes app :: net_app
  assumes "app = config_app file hw w"
  shows "app_close_sockets (app\<lparr>app_stack := bound_stack bound_pcb7 (app_stack app)\<rparr>) =
    Ret (app\<lparr>app_stack := bound_stack bound_pcb7 (app_stack app)\<rparr>)"
proof -
  have "udp_close_sockets (bound_pcb7 # replicate 15 udp_pcb_new) w = Ret w"
    by (rule udp_close_nothing) (simp add: bound_pcb7_def udp_pcb_new_def)
  then show ?thesis
    by (simp add: assms app_close_sockets_def bound_stack_def set_udp_def config_app_def control_blocks_new_def tcp_pcbs_new_def
        close_fresh)
qed

lemma lost_termination:
  assumes "tap_os_ok os file hw" "sig \<in> set ts" "sig \<noteq> SIGHUP" "sig \<noteq> SIGUSR1"
    and "main_start os w (UdpCommand (Some (EndPointReceive ip port))) = Ret s0"
  shows "\<exists>s c. (sys_step ts)\<^sup>*\<^sup>* s0 s \<and> sleeps_on c s"
proof -
  let ?app = "config_app file hw w" and ?c = "length (chans w)"
  let ?st1 = "bound_stack bound_pcb7 (app_stack ?app)"
  let ?s1 = "sys_init (?app\<lparr>app_stack := ?st1\<rparr>) (UdpReceiveCommand ready_thread)"
  let ?cmd = "UdpReceiveCommand (ready_thread\<lparr>udp_phase_of := UdpWaiting ?c\<rparr>)"
  let ?st2 = "bound_stack (bound_pcb7\<lparr>udp_sender := Some ?c\<rparr>) (app_stack ?app)\<lparr>st_world := snd (mpsc_channel w)\<rparr>"
  let ?s3 = "\<lparr>sys_app = ?app\<lparr>app_stack := ?st2\<rparr>, sys_command = ?cmd, sys_stopping = True, sys_closed = True\<rparr>"
  have s0: "s0 = sys_init ?app (UdpReceiveCommand udp_thread_new)"
    using assms(5) app_new_config [OF assms(1)] by (simp add: main_start_def app_run_def)
  have a1: "sys_step ts s0 ?s1"
    using step_command [of s0 "UdpReceiveCommand ready_thread" ?st1 ts] udp_first_step by (simp add: s0 sys_init_def)
  let ?s2 = "?s1\<lparr>sys_stopping := True\<rparr>"
  have a2: "sys_step ts ?s1 ?s2"
    using step_terminate [of ?s1 ts sig "?app\<lparr>app_stack := ?st1\<rparr>"] assms(2-4)
    by (simp add: sys_init_def handle_signal_def app_sender_send_def command_ended_def ready_thread_def)
  have a2': "sys_step ts ?s2 (?s2\<lparr>sys_closed := True\<rparr>)"
    using step_close [of ?s2 "?app\<lparr>app_stack := ?st1\<rparr>" ts] udp_close_unheard by (simp add: sys_init_def)
  have "command_step True (UdpReceiveCommand ready_thread) ?st1 = Some (Ret (?cmd, ?st2))"
    by (simp add: command_step_def udp_receive_step_def ready_thread_def udp_thread_new_def udp_listen_phase_def bound_stack_def
        set_udp_def config_stack udp_receive_begin_def udp_get_by_id_def mpsc_channel_def drop_sender_def bound_pcb7_def udp_pcb_new_def)
  then have a3: "sys_step ts (?s2\<lparr>sys_closed := True\<rparr>) ?s3"
    using step_command [of "?s2\<lparr>sys_closed := True\<rparr>" ?cmd ?st2 ts] by (simp add: sys_init_def)
  have "sleeps_on ?c ?s3"
    using config_ethernet_device
    by (simp add: sleeps_on_def bound_stack_def set_udp_def config_stack chan_recv_def mpsc_channel_def nothing_to_retransmit_def
        tcp_pcb_new_def ready_thread_def)
  with a1 a2 a2' a3 show ?thesis by (meson converse_rtranclp_into_rtranclp rtranclp.rtrancl_refl)
qed

end
