(* ===== verification/Scenario.thy ===== *)
theory Scenario
  imports End_To_End Shutdown
begin

text \<open>
  Concrete states of the configured host, on which the properties of the root theory are
  instantiated: the host 192.0.2.2 with an empty ARP cache (\<open>cold_net\<close>), with the gateway
  192.0.2.1 resolved (\<open>host_net\<close>), its peer, the gateway, with an established connection and a
  datagram socket bound to port 10007 with a receiver waiting on it, and the frames they exchange.
\<close>

definition quiet_world :: world where
  "quiet_world = \<lparr>clock = (\<lambda>_. 0), readings = 0, rng = (\<lambda>_. 1000), draws = 0, raised = [], chans = []\<rparr>"

definition no_input :: "nat \<Rightarrow> bytes option" where
  "no_input = (\<lambda>_. None)"

definition host_ip :: ip_address where "host_ip = 0x020200C0"
definition gw_ip :: ip_address where "gw_ip = 0x010200C0"

definition host_mac :: bytes where "host_mac = [2, 0, 0, 0, 0, 2]"
definition gw_mac :: bytes where "gw_mac = [2, 0, 0, 0, 0, 1]"
definition host_hw :: bytes where "host_hw = host_mac @ replicate 8 0"

definition host_os :: tap_os where
  "host_os = \<lparr>os_file = Some no_input, os_ifreq = True, os_set_iff = True, os_set_own = True, os_set_flags = True,
     os_set_sig = True, os_socket = True, os_hw_addr = Some host_hw\<rparr>"

definition gw_entry :: arp_table_entry where
  "gw_entry = \<lparr>arp_state = Resolved, proto_address = gw_ip, hw_address = gw_mac, timestamp = 0\<rparr>"

definition cold_net :: net where
  "cold_net = net_of (eth_device no_input host_hw) config_contexts quiet_world"

definition warm_contexts :: protocol_contexts where
  "warm_contexts = config_contexts\<lparr>ctx_arp_table := arp_table_new(gw_ip \<mapsto> gw_entry)\<rparr>"

definition host_net :: net where
  "host_net = net_of (eth_device no_input host_hw) warm_contexts quiet_world"

definition worn_net :: net where
  "worn_net = host_net\<lparr>contexts := warm_contexts\<lparr>ctx_ip_id := 0xffff\<rparr>\<rparr>"

section \<open>Facts about these states\<close>

lemmas host_defs = host_ip_def gw_ip_def host_mac_def gw_mac_def host_hw_def

lemma length_host_hw [simp]: "length host_hw = 14"
  by (simp add: host_defs)

lemma host_os_ok: "tap_os_ok host_os no_input host_hw"
  by (simp add: tap_os_ok_def host_os_def)

lemma device_nets [simp]:
  "device cold_net = eth_device no_input host_hw" "device host_net = eth_device no_input host_hw"
  "device worn_net = eth_device no_input host_hw"
  by (simp_all add: cold_net_def host_net_def worn_net_def)

lemma contexts_nets [simp]:
  "ctx_ip_routes (contexts cold_net) = config_routes" "ctx_ip_routes (contexts host_net) = config_routes"
  "ctx_ip_routes (contexts worn_net) = config_routes"
  "ctx_arp_table (contexts cold_net) = arp_table_new"
  "ctx_arp_table (contexts host_net) = arp_table_new(gw_ip \<mapsto> gw_entry)"
  "ctx_ip_id (contexts cold_net) = 128" "ctx_ip_id (contexts host_net) = 128" "ctx_ip_id (contexts worn_net) = 0xffff"
  by (simp_all add: cold_net_def host_net_def worn_net_def warm_contexts_def config_contexts_def)

lemma clock_nets [simp]: "clock host_net = (\<lambda>_. 0)" "clock cold_net = (\<lambda>_. 0)"
  by (simp_all add: cold_net_def host_net_def net_of_def quiet_world_def)

lemma needs_arp_nets [simp]: "needs_arp cold_net" "needs_arp host_net"
  by (simp_all add: needs_arp_def)

lemma config_route_gw [simp]: "lookup_ip_route config_routes gw_ip = Some gw_route"
  by (simp add: config_route gw_ip_def)

lemma gw_route_facts [simp]:
  "next_hop_of gw_route dst = gw_ip" "src_allowed host_ip gw_route" "\<not> is_broadcast gw_ip gw_route"
  "unicast (rt_interface gw_route) = host_ip" "unicast eth_interface = host_ip"
  by (simp_all add: next_hop_of_def src_allowed_def is_broadcast_def gw_route_def eth_interface_def host_defs
      IP_ADDR_ANY_def IP_ADDR_BROADCAST_def)

lemma gw_entry_facts [simp]: "hw_address gw_entry = gw_mac" "timestamp gw_entry = 0" "length gw_mac = 6"
  by (simp_all add: gw_entry_def gw_mac_def)

lemma arp_fresh_now [simp]: "arp_fresh t t"
  by (simp add: arp_fresh_def as_secs_def)

lemma host_reaches_gw [simp]: "reaches host_net host_ip gw_ip gw_mac"
  unfolding reaches_def by (intro exI [of _ gw_route] exI [of _ gw_entry]) simp

section \<open>Steps and states used as instances\<close>

lemma tcp_pcbs_new_Cons: "tcp_pcbs_new = tcp_pcb_new # replicate 15 tcp_pcb_new"
  by (simp add: tcp_pcbs_new_def TCP_PCB_COUNT_def flip: replicate_Suc)

lemma config_ethernet:
  "get_mut_by_type (list_push (list_push list_new lo_device) (eth_device file hw)) Ethernet = Some (eth_device file hw)"
  by (simp add: get_mut_by_type_def rust_list.iter_push rust_list.iter_new lo_device_def loopback_init_def
      net_device_new_def eth_device_def ethernet_init_def)

lemma config_set_ethernet:
  "set_ethernet (eth_device file hw) (list_push (list_push list_new lo_device) (eth_device file hw)) =
     Ret (list_push (list_push list_new lo_device) (eth_device file hw))"
  by (rule set_ethernet_same [OF config_ethernet])

lemma listen_step:
  obtains cmd st where
    "command_step False (TcpReceiveCommand tcp_thread_new) (app_stack (config_app no_input host_hw quiet_world)) =
       Some (Ret (cmd, st))"
    "cmd \<noteq> TcpReceiveCommand tcp_thread_new" "tcb_state (tcp_blocks (st_pcbs st) ! 0) = Listen"
proof -
  have new: "new_entry tcp_pcbs_new = Some (0, (tcp_pcb_new\<lparr>tcb_state := Closed\<rparr>) # replicate 15 tcp_pcb_new)"
    by (simp add: new_entry_def tcp_pcbs_new_Cons) (simp add: tcp_pcb_new_def)
  have "\<exists>cmd st. command_step False (TcpReceiveCommand tcp_thread_new) (app_stack (config_app no_input host_hw quiet_world)) =
       Some (Ret (cmd, st)) \<and> cmd \<noteq> TcpReceiveCommand tcp_thread_new \<and> tcb_state (tcp_blocks (st_pcbs st) ! 0) = Listen"
    by (simp add: command_step_def tcp_receive_step_def tcp_thread_new_def tcp_open_phase_def with_tcp_def
        with_ethernet_def config_app_def config_ethernet config_set_ethernet control_blocks_new_def rfc793_open_begin_def new
        mpsc_channel_def ip_endpoint_new_from_str_def Let_def drop_sender_def) (simp add: tcp_pcb_new_def config_set_ethernet)
  then show ?thesis using that by blast
qed

definition open_channel :: channel where
  "open_channel = \<lparr>ch_queue = [], ch_receiver = True, ch_sender = True\<rparr>"

definition waiting_system :: system where
  "waiting_system = sys_init (config_app no_input host_hw (quiet_world\<lparr>chans := [open_channel]\<rparr>))
     (TcpSendCommand ''192.0.2.1'' 10007 [72, 105] \<lparr>tcp_phase_of = TcpSending 0 0, sock_opt = Some 0, request_sent = False\<rparr>)"

lemma waiting_blocked:
  "chan_recv 0 (quiet_world\<lparr>chans := [open_channel]\<rparr>) = (Blocked, quiet_world\<lparr>chans := [open_channel]\<rparr>)"
  by (simp add: chan_recv_def open_channel_def)

lemma waiting_system_waits: "waits_for_window waiting_system"
  by (simp add: waits_for_window_def waiting_system_def sys_init_def config_app_def config_ethernet waiting_blocked)

lemma waiting_system_step: "sys_step ts waiting_system waiting_system"
proof -
  let ?st = "app_stack (sys_app waiting_system)"
  have "command_step False (sys_command waiting_system) ?st = Some (Ret (sys_command waiting_system, ?st))"
    unfolding waiting_system_def sys_init_def system.simps
    by (rule command_waits [where c = 0 and sent = 0 and i = 0 and d = "eth_device no_input host_hw"])
      (simp_all add: config_app_def config_ethernet waiting_blocked)
  then show ?thesis
    using step_command [of waiting_system "sys_command waiting_system" ?st ts] by (simp add: waiting_system_def sys_init_def)
qed

section \<open>An established connection\<close>

definition host_ep :: ip_endpoint where "host_ep = ip_endpoint_new host_ip 7"
definition gw_ep :: ip_endpoint where "gw_ep = ip_endpoint_new gw_ip 10007"

definition syn_entry :: tcp_data_queue_entry where
  "syn_entry = \<lparr>first_sent_at = 0, last_sent_at = 0, retry_interval = duration_from_micros TCP_DEFAULT_ITVL_MICROS,
     q_seq = 1000, q_flags = flag_syn, q_data = []\<rparr>"

definition open_pcb :: tcp_pcb where
  "open_pcb = tcp_pcb_new\<lparr>tcb_state := Established, tcb_mode := Rfc793, tcb_local := host_ep, tcb_remote := gw_ep,
     send_context := \<lparr>snd_next = 1001, snd_una = 1001, snd_window = 65535, snd_urg = 0, snd_wl1 = 5000, snd_wl2 = 1001\<rparr>,
     iss := 1000, recv_context := \<lparr>rcv_next = 5001, rcv_window = 65535, rcv_urg = 0\<rparr>, irs := 5000\<rparr>"

definition open_pcbs :: tcp_pcbs where
  "open_pcbs = open_pcb # replicate 15 tcp_pcb_new"

definition queued_pcbs :: tcp_pcbs where
  "queued_pcbs = open_pcb\<lparr>data_queue := [syn_entry]\<rparr> # replicate 15 tcp_pcb_new"

lemma readings_nets [simp]: "readings host_net = 0" "readings cold_net = 0"
  by (simp_all add: host_net_def cold_net_def net_of_def quiet_world_def)

lemma ep_facts [simp]: "ep_address host_ep = host_ip" "ep_address gw_ep = gw_ip"
  by (simp_all add: host_ep_def gw_ep_def ip_endpoint_new_def)

lemma open_pcb_facts [simp]:
  "tcb_local open_pcb = host_ep" "tcb_remote open_pcb = gw_ep" "tcb_state open_pcb = Established"
  "tcb_state tcp_pcb_new = Free" "data_queue tcp_pcb_new = []"
  by (simp_all add: open_pcb_def tcp_pcb_new_def)

lemma queued_pcbs_wf: "tcp_wf queued_pcbs"
  by (simp add: queued_pcbs_def tcp_wf_def tcp_pcb_ok_def live_state_def TCP_PCB_COUNT_def tcp_pcb_new_def open_pcb_def)

lemma retransmit_free: "retransmit (replicate k tcp_pcb_new) n = Ret (replicate k tcp_pcb_new, n)"
  by (induction k) (simp_all add: retransmit_pcb_def)

lemma queued_retransmit: "\<exists>n'. retransmit queued_pcbs host_net = Ret (open_pcbs, n')"
proof -
  let ?n = "host_net\<lparr>readings := Suc (Suc 0)\<rparr>"
  have r: "reaches ?n (ep_address host_ep) (ep_address gw_ep) gw_mac"
    by (rule reaches_mono [of host_net]) simp_all
  have "ctx_ip_id (contexts ?n) \<noteq> 0xffff" "length ([] :: bytes) \<le> 1460" by simp_all
  then obtain c where c: "output_segment 1000 5001 flag_syn 65535 [] host_ep gw_ep ?n =
      Ret (length ([] :: bytes), ip_sent Tcp (ep_address host_ep) (ep_address gw_ep) gw_mac
        (tcp_segment 1000 5001 flag_syn 65535 [] host_ep gw_ep c) ?n)"
    by (rule output_segment_reaches [OF r])
  have "\<exists>n'. retransmit_pcb (open_pcb\<lparr>data_queue := [syn_entry]\<rparr>) host_net = Ret (open_pcb, n')"
    using c
    by (simp add: retransmit_pcb_def open_pcb_def retransmit_queue.simps syn_entry_def system_time_elapsed_def
        system_time_now_def system_time_checked_add_def duration_from_micros_def TCP_DEFAULT_ITVL_MICROS_def
        as_secs_def TCP_RETRANSMIT_TIMOUT_SEC_def tcp_pcb_new_def)
  then show ?thesis by (auto simp: queued_pcbs_def open_pcbs_def retransmit_free)
qed

section \<open>The peer\<close>

text \<open>A second host at 192.0.2.1, the hardware address \<open>gw_mac\<close>, that has resolved the first one.\<close>

definition peer_interface :: ip_interface where "peer_interface = eth_interface\<lparr>unicast := gw_ip\<rparr>"

definition peer_route :: ip_route where
  "peer_route = \<lparr>rt_network = 0, rt_netmask = 0, rt_next_hop = IP_ADDR_ANY, rt_interface = peer_interface\<rparr>"

definition host_entry :: arp_table_entry where
  "host_entry = \<lparr>arp_state = Resolved, proto_address = host_ip, hw_address = host_mac, timestamp = 0\<rparr>"

definition peer_contexts :: protocol_contexts where
  "peer_contexts = \<lparr>ctx_arp_table = arp_table_new(host_ip \<mapsto> host_entry),
     ctx_ip_routes = list_push list_new peer_route, ctx_ip_id = 128\<rparr>"

definition peer_device :: "bytes \<Rightarrow> net_device" where
  "peer_device fr = (eth_device (\<lambda>_. Some fr) (gw_mac @ replicate 8 0))\<lparr>interfaces := list_push list_new peer_interface\<rparr>"

definition peer_app :: "bytes \<Rightarrow> control_blocks \<Rightarrow> net_app" where
  "peer_app fr cbs =
     \<lparr>app_stack = \<lparr>st_world = quiet_world\<lparr>chans := [open_channel]\<rparr>,
        st_devices = list_push (list_push list_new lo_device) (peer_device fr),
        st_contexts = peer_contexts, st_pcbs = cbs\<rparr>,
      app_protocols = list_push (list_push list_new (net_protocol_new Arp_Type)) (net_protocol_new IP_Type)\<rparr>"

definition peer_net :: net where
  "peer_net = net_of (peer_device []) peer_contexts (quiet_world\<lparr>chans := [open_channel]\<rparr>)"

lemma peer_device_facts [simp]:
  "tap_ready (peer_device fr)" "get_interface (peer_device fr) IP_Family = Some peer_interface"
  "dev_mac (peer_device fr) = gw_mac" "0 < dev_flags (peer_device fr) AND DEVICE_FLAG_NEED_ARP"
  "mtu (peer_device fr) = 1500"
  by (simp_all add: peer_device_def tap_ready_def is_open_def eth_device_def ethernet_init_def net_device_new_def
      dev_mac_def get_interface_def rust_list.iter_push rust_list.iter_new peer_interface_def eth_interface_def
      device_consts flag_consts gw_mac_def)

lemma peer_interface_facts [simp]: "unicast peer_interface = gw_ip" "broadcast peer_interface = 0xFF0200C0"
  by (simp_all add: peer_interface_def eth_interface_def)

lemma host_ip_facts [simp]: "host_ip \<noteq> IP_ADDR_ANY" "gw_ip \<noteq> IP_ADDR_ANY" "host_ip \<noteq> 0" "gw_ip \<noteq> 0" "host_ip \<noteq> gw_ip"
  "host_ip \<noteq> 0xFF0200C0" "gw_ip \<noteq> 0xFF0200C0" "gw_ip \<noteq> host_ip" "host_ip \<noteq> IP_ADDR_BROADCAST"
  by (simp_all add: host_defs IP_ADDR_ANY_def IP_ADDR_BROADCAST_def)

lemma peer_reaches:
  assumes "contexts n = peer_contexts" "tap_ready (device n)" "0 < dev_flags (device n) AND DEVICE_FLAG_NEED_ARP"
    and "clock n = (\<lambda>_. 0)"
  shows "reaches n gw_ip host_ip host_mac"
proof -
  have "lookup_ip_route (list_push list_new peer_route) host_ip = Some peer_route"
    by (simp add: lookup_ip_route_def rust_list.iter_push rust_list.iter_new lookup_step_def route_matches_def peer_route_def)
  then show ?thesis
    unfolding reaches_def using assms
    by (intro exI [of _ peer_route] exI [of _ host_entry])
      (simp add: peer_contexts_def peer_route_def is_broadcast_def needs_arp_def next_hop_of_def host_entry_def host_mac_def)
qed

lemma peer_net_facts [simp]:
  "device peer_net = peer_device []" "contexts peer_net = peer_contexts" "clock peer_net = (\<lambda>_. 0)"
  "ctx_ip_id peer_contexts = 128" "rng peer_net = (\<lambda>_. 1000)" "reaches peer_net gw_ip host_ip host_mac"
proof -
  show c: "device peer_net = peer_device []" "contexts peer_net = peer_contexts" "clock peer_net = (\<lambda>_. 0)"
    "ctx_ip_id peer_contexts = 128" "rng peer_net = (\<lambda>_. 1000)"
    by (simp_all add: peer_net_def peer_contexts_def) (simp_all add: net_of_def quiet_world_def)
  show "reaches peer_net gw_ip host_ip host_mac" by (rule peer_reaches) (simp_all add: c)
qed

lemma peer_receives [simp]: "receiver (peer_app fr cbs) (peer_device fr) gw_mac gw_ip"
proof -
  have "irq (dev_irq_entry lo_device) \<noteq> IRQ_ETHERNET" "irq (dev_irq_entry (peer_device fr)) = IRQ_ETHERNET"
    "device_type (peer_device fr) = Ethernet"
    by (simp_all add: lo_device_def loopback_init_def net_device_new_def irq_entry_new_def IRQ_LOOPBACK_def IRQ_ETHERNET_def
        peer_device_def eth_device_def ethernet_init_def)
  then show ?thesis
    unfolding receiver_def
    by (intro exI [of _ lo_device] exI [of _ peer_interface])
      (simp add: peer_app_def two_devices_def idle_queues_def rust_list.iter_push rust_list.iter_new)
qed

lemma peer_reads [simp]: "about_to_read (peer_device fr) fr"
  by (simp add: about_to_read_def peer_device_def eth_device_def ethernet_init_def)

lemma peer_app_facts [simp]:
  "app_blocks (peer_app fr cbs) = cbs" "st_contexts (app_stack (peer_app fr cbs)) = peer_contexts"
  "chans (st_world (app_stack (peer_app fr cbs))) = [open_channel]"
  "clock (st_world (app_stack (peer_app fr cbs))) = (\<lambda>_. 0)"
  by (simp_all add: peer_app_def quiet_world_def)

lemma peer_interrupted [simp]: "reaches (interrupted (peer_app fr cbs) (peer_device fr)) gw_ip host_ip host_mac"
  by (rule peer_reaches) simp_all

section \<open>Sockets of the two hosts\<close>

definition syn_pcb :: tcp_pcb where
  "syn_pcb = tcp_pcb_new\<lparr>tcb_state := SynSent, tcb_mode := Rfc793, tcb_local := host_ep, tcb_remote := gw_ep,
     send_context := (send_context tcp_pcb_new)\<lparr>snd_next := 1001, snd_una := 1000\<rparr>, iss := 1000,
     recv_context := (recv_context tcp_pcb_new)\<lparr>rcv_window := 65535\<rparr>\<rparr>"

definition listen_pcb :: tcp_pcb where
  "listen_pcb = tcp_pcb_new\<lparr>tcb_state := Listen, tcb_mode := Rfc793, tcb_local := gw_ep\<rparr>"

definition peer_pcb :: tcp_pcb where
  "peer_pcb = tcp_pcb_new\<lparr>tcb_state := Established, tcb_mode := Rfc793, tcb_local := gw_ep, tcb_remote := host_ep,
     send_context := \<lparr>snd_next = 5001, snd_una = 5000, snd_window = 0, snd_urg = 0, snd_wl1 = 0, snd_wl2 = 0\<rparr>, iss := 5000,
     recv_context := (recv_context tcp_pcb_new)\<lparr>rcv_next := 1001, rcv_window := 65535\<rparr>, tcb_sender := Some 0\<rparr>"

definition one_block :: "tcp_pcb \<Rightarrow> tcp_pcbs" where
  "one_block p = p # replicate 15 tcp_pcb_new"

definition bound_pcb :: udp_pcb where
  "bound_pcb = \<lparr>udp_state = UdpOpen, udp_local = gw_ep, udp_sender = Some 0, data_entries = []\<rparr>"

definition peer_blocks :: control_blocks where
  "peer_blocks = \<lparr>udp_blocks = bound_pcb # replicate 15 udp_pcb_new, tcp_blocks = one_block peer_pcb\<rparr>"

lemma ep_ports [simp]: "ep_port host_ep = 0x700" "ep_port gw_ep = 0x1727"
  by (simp_all add: host_ep_def gw_ep_def ip_endpoint_new_def byte_order_defs byte_swap_u16_def)

lemma one_block_facts [simp]: "one_block p ! 0 = p" "length (one_block p) = 16" "(one_block p)[0 := q] = one_block q"
  by (simp_all add: one_block_def)

lemma select_new: "ep_port loc \<noteq> 0 \<Longrightarrow> select_from loc rem i lp (replicate k tcp_pcb_new) = lp"
  by (induction k arbitrary: i) (simp_all add: local_match_def tcp_pcb_new_def endpoint_any_def)

lemma select_one:
  "local_match loc p \<Longrightarrow> ep_port loc \<noteq> 0 \<Longrightarrow> ep_address (tcb_remote p) = ep_address rem \<or> open_listener p \<Longrightarrow>
   tcp_select (one_block p) loc (Some rem) = Some 0"
  by (auto simp: tcp_select_def one_block_def select_new)

lemma pcb_facts [simp]:
  "tcb_state syn_pcb = SynSent" "tcb_local syn_pcb = host_ep" "tcb_remote syn_pcb = gw_ep" "iss syn_pcb = 1000"
  "snd_una (send_context syn_pcb) = 1000" "snd_next (send_context syn_pcb) = 1001"
  "rcv_window (recv_context syn_pcb) = 65535"
  "tcb_state listen_pcb = Listen" "tcb_mode listen_pcb = Rfc793" "parent_id listen_pcb = None" "tcb_local listen_pcb = gw_ep"
  "tcb_state peer_pcb = Established" "tcb_local peer_pcb = gw_ep" "tcb_remote peer_pcb = host_ep"
  "rcv_next (recv_context peer_pcb) = 1001" "rcv_window (recv_context peer_pcb) = 65535"
  "snd_next (send_context peer_pcb) = 5001" "snd_una (send_context peer_pcb) = 5000" "snd_window (send_context peer_pcb) = 0"
  "buf peer_pcb = []" "tcb_sender peer_pcb = Some 0"
  by (simp_all add: syn_pcb_def listen_pcb_def peer_pcb_def tcp_pcb_new_def)

lemma selects [simp]:
  "tcp_select (one_block syn_pcb) host_ep (Some gw_ep) = Some 0"
  "tcp_select (one_block listen_pcb) gw_ep (Some host_ep) = Some 0"
  "tcp_select (one_block peer_pcb) gw_ep (Some host_ep) = Some 0"
proof -
  show "tcp_select (one_block syn_pcb) host_ep (Some gw_ep) = Some 0"
    "tcp_select (one_block peer_pcb) gw_ep (Some host_ep) = Some 0"
    by (rule select_one; simp add: local_match_def)+
  show "tcp_select (one_block listen_pcb) gw_ep (Some host_ep) = Some 0"
    by (rule select_one) (simp_all add: local_match_def open_listener_def listen_pcb_def tcp_pcb_new_def endpoint_any_def)
qed

lemma peer_blocks_facts [simp]:
  "tcp_blocks peer_blocks = one_block peer_pcb" "udp_blocks peer_blocks ! 0 = bound_pcb"
  "udp_get_by_host (udp_blocks peer_blocks) gw_ip 0x1727 = Some 0"
  by (simp_all add: peer_blocks_def bound_pcb_def udp_get_by_host_def udp_host_match_def)

lemma unicast_hosts [simp]: "unicast_pair host_ip gw_ip peer_interface"
  by (simp add: unicast_pair_def)

lemma one_block_wf: "tcp_wf (one_block listen_pcb)" "tcp_wf (one_block peer_pcb)"
  by (simp_all add: one_block_def tcp_wf_def tcp_pcb_ok_def live_state_def TCP_PCB_COUNT_def tcp_pcb_new_def
      listen_pcb_def peer_pcb_def)

lemma peer_data:
  assumes "reaches n gw_ip host_ip host_mac" "ctx_ip_id (contexts n) \<noteq> 0xffff" "0 < length data" "length data \<le> 65535"
  obtains p n3 where "segment_arrives (segment_of 1001 5001 flag_ack 65535 data) flag_ack data (length data) gw_ep host_ep
      (one_block peer_pcb, n) = Ret (one_block p, n3)" "buf p = data"
proof -
  let ?s = "segment_of 1001 5001 flag_ack 65535 data"
  have s: "seg_seq ?s = 1001" "seg_ack ?s = 5001" "seg_len ?s = of_nat (length data)"
    by (simp_all add: segment_of_def segment_length_def)
  show ?thesis
    by (rule data_in_order [of "one_block peer_pcb" gw_ep host_ep 0 flag_ack ?s data n host_mac])
      (use assms s in \<open>auto intro: that\<close>)
qed

lemma bound_sender [simp]: "udp_sender bound_pcb = Some 0"
  by (simp add: bound_pcb_def)

definition echo_request :: bytes where
  "echo_request = [8, 0, 0xF7, 0xFE, 0, 1, 0, 0] @ replicate 18 0"

definition echo_frame :: bytes where
  "echo_frame = ip_frame Icmp host_ip gw_ip gw_mac echo_request host_net"

definition echo_app :: net_app where
  "echo_app = peer_app echo_frame peer_blocks"

lemma echo_request_facts:
  "length echo_request = 26" "echo_request ! 0 = ICMP_TYPE_ECHO" "cksum16 echo_request 26 0 = Ret 0"
proof -
  show l: "length echo_request = 26" by (simp add: echo_request_def)
  show "echo_request ! 0 = ICMP_TYPE_ECHO" by (simp add: echo_request_def ICMP_TYPE_ECHO_def)
  have "word_sum echo_request = 65535"
    using word_sum_append [of "[8, 0, 0xF7, 0xFE, 0, 1, 0, 0]" "replicate 18 0"] by (simp add: echo_request_def)
  then show "cksum16 echo_request 26 0 = Ret 0"
    using cksum16_reference [of 26 echo_request 0] l by (simp add: ones_fold_def)
qed

definition arp_frame :: bytes where
  "arp_frame = arp_request_frame (eth_device no_input host_hw) host_ip gw_ip"

definition arp_answer :: bytes where
  "arp_answer = arp_reply_frame (eth_device no_input host_hw) host_ip gw_mac gw_ip"

lemma eth_broadcast: "take 6 (dev_broadcast (eth_device file hw)) = ETH_ADDR_BROADCAST"
  by (simp add: eth_device_def ethernet_init_def net_device_new_def device_consts ETH_ADDR_BROADCAST_def)

section \<open>A receiver that waits\<close>

definition receiving_system :: system where
  "receiving_system = sys_init (peer_app [] \<lparr>udp_blocks = udp_pcbs_new, tcp_blocks = one_block peer_pcb\<rparr>)
     (TcpReceiveCommand \<lparr>tcp_phase_of = TcpReceiving 0 \<lparr>rl_state = Established, rl_window = 65535, remain = None\<rparr>,
        sock_opt = Some 0, request_sent = False\<rparr>)"

lemma receiving_awaits: "awaits_data receiving_system 0"
proof -
  have "get_mut_by_type (st_devices (app_stack (peer_app [] cbs))) Ethernet = Some (peer_device [])" for cbs
    by (simp add: peer_app_def get_mut_by_type_def rust_list.iter_push rust_list.iter_new lo_device_def loopback_init_def
        net_device_new_def peer_device_def eth_device_def ethernet_init_def)
  then show ?thesis
    by (simp add: awaits_data_def receiving_system_def sys_init_def receive_branch_def PCB_BUF_LEN_def peer_app_def open_channel_def one_block_def)
qed

lemma receiving_udp: "\<forall>p \<in> set (udp_blocks (app_blocks (sys_app receiving_system))). udp_sender p = None"
  by (simp add: receiving_system_def sys_init_def peer_app_def udp_pcbs_new_def udp_pcb_new_def)

end
