(* ===== verification/Locks.thy ===== *)
theory Locks
  imports App
begin

text \<open>
  The four locks of \<open>NetApp\<close> (\<^verbatim>\<open>src/src/app.rs\<close>) at the level of single acquisitions. \<open>App\<close>
  lets a thread run from one point without locks to the next in one step; here a thread takes
  and gives back its locks one by one, in the order of the \<open>lock().unwrap()\<close> calls. A section is
  the list of these operations; guards are released in the reverse order at the end of their
  block. The mutex of the identification counter is only taken with the lock of the contexts held and is
  given back at once, so it is left out.

  \<open>tcp::send\<close> also waits for a message on a channel in the middle of its section, with locks held; that is
  the operation \<open>AwaitMessage\<close>. Messages are not modelled here (\<open>App\<close> has the channels): a message may arrive at any
  time, and a thread that waits for one does not count as able to go on.

  The locale \<open>lock_client\<close> states what a set of threads must promise: every section is
  balanced. Its lemmas give mutual exclusion and that no thread waits for itself. The locale
  \<open>lock_order\<close> adds a ranking that all sections follow and that no section waits for a message, and
  shows that then some thread can always go on. The program satisfies the first and not the second.
\<close>

datatype lock = DevicesLock | ProtocolsLock | ContextsLock | PcbsLock

datatype lock_op = Acquire lock | Release lock | AwaitMessage

definition guarded :: "lock list \<Rightarrow> lock_op list \<Rightarrow> lock_op list" where
  "guarded ls body = map Acquire ls @ body @ map Release (rev ls)"

section \<open>The sections of the program\<close>

definition handle_irq_section :: "lock_op list" where
  "handle_irq_section = guarded [DevicesLock, ProtocolsLock] []"

definition handle_protocol_section :: "lock_op list" where
  "handle_protocol_section = guarded [DevicesLock, ProtocolsLock, ContextsLock, PcbsLock] []"

definition close_sockets_section :: "lock_op list" where
  "close_sockets_section = guarded [PcbsLock] []"

definition transmit_section :: "lock_op list" where
  "transmit_section = guarded [PcbsLock, DevicesLock, ContextsLock] []"

definition rfc793_open_section :: "lock_op list" where
  "rfc793_open_section = guarded [PcbsLock, DevicesLock, ContextsLock] []"

definition pcbs_section :: "lock_op list" where
  "pcbs_section = guarded [PcbsLock] []"

text \<open>
  With the devices and contexts locked, \<open>tcp::send\<close> locks the blocks (\<open>False\<close>) and waits for the window to open
  (\<open>True\<close>: \<open>receiver.recv()\<close>), each any number of times and in any order.
\<close>

definition tcp_send_section :: "bool list \<Rightarrow> lock_op list" where
  "tcp_send_section ws =
     guarded [DevicesLock, ContextsLock] (concat (map (\<lambda>waits. if waits then [AwaitMessage] else pcbs_section) ws))"

definition udp_send_section :: "lock_op list" where
  "udp_send_section = guarded [DevicesLock, ContextsLock, PcbsLock] []"

lemmas section_defs = handle_irq_section_def handle_protocol_section_def close_sockets_section_def transmit_section_def
  rfc793_open_section_def pcbs_section_def udp_send_section_def guarded_def

datatype thread = SignalThread | TransmitThread | CommandThread

definition command_sections :: "command \<Rightarrow> lock_op list set" where
  "command_sections cmd =
     (case cmd of
        TcpSendCommand ip port data t \<Rightarrow> {rfc793_open_section, pcbs_section} \<union> range tcp_send_section
      | TcpReceiveCommand t \<Rightarrow> {rfc793_open_section, pcbs_section}
      | UdpSendCommand ip port data t \<Rightarrow> {pcbs_section, udp_send_section}
      | UdpReceiveCommand t \<Rightarrow> {pcbs_section})"

definition signal_sections :: "lock_op list set" where
  "signal_sections = {handle_irq_section, handle_protocol_section, close_sockets_section}"

definition program_sections :: "command \<Rightarrow> thread \<Rightarrow> lock_op list set" where
  "program_sections cmd t =
     (case t of
        SignalThread \<Rightarrow> signal_sections
      | TransmitThread \<Rightarrow> {transmit_section}
      | CommandThread \<Rightarrow> command_sections cmd)"

text \<open>
  The sections of the program without those that lock the blocks before the devices
  (the retransmission thread and \<open>rfc793_open\<close>) and without the sends that wait for the window.
\<close>

definition devices_first_sections :: "command \<Rightarrow> thread \<Rightarrow> lock_op list set" where
  "devices_first_sections cmd t =
     (case t of
        SignalThread \<Rightarrow> signal_sections
      | TransmitThread \<Rightarrow> {}
      | CommandThread \<Rightarrow> {sec \<in> command_sections cmd. sec \<noteq> rfc793_open_section \<and> AwaitMessage \<notin> set sec})"

section \<open>Interleaving\<close>

record thread_locks =
  held :: "lock set"
  todo :: "lock_op list"

type_synonym lock_state = "thread \<Rightarrow> thread_locks"

definition all_idle :: lock_state where
  "all_idle = (\<lambda>t. \<lparr>held = {}, todo = []\<rparr>)"

inductive lock_step :: "(thread \<Rightarrow> lock_op list set) \<Rightarrow> lock_state \<Rightarrow> lock_state \<Rightarrow> bool" for menu where
  step_start: "todo (s t) = [] \<Longrightarrow> sec \<in> menu t \<Longrightarrow> lock_step menu s (s(t := (s t)\<lparr>todo := sec\<rparr>))"
| step_acquire: "todo (s t) = Acquire l # ops \<Longrightarrow> \<forall>u. l \<notin> held (s u) \<Longrightarrow>
    lock_step menu s (s(t := \<lparr>held = insert l (held (s t)), todo = ops\<rparr>))"
| step_release: "todo (s t) = Release l # ops \<Longrightarrow>
    lock_step menu s (s(t := \<lparr>held = held (s t) - {l}, todo = ops\<rparr>))"
| step_await: "todo (s t) = AwaitMessage # ops \<Longrightarrow> lock_step menu s (s(t := (s t)\<lparr>todo := ops\<rparr>))"

text \<open>A thread in a section can go on by itself: it does not want a lock that is taken and waits for no message.\<close>

definition can_go_on :: "lock_state \<Rightarrow> thread \<Rightarrow> bool" where
  "can_go_on s t =
     (case todo (s t) of
        [] \<Rightarrow> False
      | Acquire l # ops \<Rightarrow> (\<forall>u. l \<notin> held (s u))
      | Release l # ops \<Rightarrow> True
      | AwaitMessage # ops \<Rightarrow> False)"

lemma can_go_on_step: "can_go_on s t \<Longrightarrow> \<exists>s'. lock_step menu s s' \<and> length (todo (s' t)) < length (todo (s t))"
proof -
  assume "can_go_on s t"
  then consider l ops where "todo (s t) = Acquire l # ops" "\<forall>u. l \<notin> held (s u)"
    | l ops where "todo (s t) = Release l # ops"
    by (auto simp: can_go_on_def split: list.splits lock_op.splits)
  then show ?thesis
  proof cases
    case 1
    then show ?thesis using step_acquire [of s t l ops menu] by force
  next
    case 2
    then show ?thesis using step_release [of s t l ops menu] by force
  qed
qed

section \<open>Balanced sections\<close>

text \<open>No lock is taken twice, only locks that are held are given back, and all are at the end.\<close>

fun balanced :: "lock set \<Rightarrow> lock_op list \<Rightarrow> bool" where
  "balanced h [] = (h = {})"
| "balanced h (Acquire l # ops) = (l \<notin> h \<and> balanced (insert l h) ops)"
| "balanced h (Release l # ops) = (l \<in> h \<and> balanced (h - {l}) ops)"
| "balanced h (AwaitMessage # ops) = balanced h ops"

definition locks_ok :: "lock_state \<Rightarrow> bool" where
  "locks_ok s \<longleftrightarrow> (\<forall>t. balanced (held (s t)) (todo (s t))) \<and>
     (\<forall>t u. t \<noteq> u \<longrightarrow> held (s t) \<inter> held (s u) = {})"

locale lock_client =
  fixes menu :: "thread \<Rightarrow> lock_op list set"
  assumes sections_balanced: "sec \<in> menu t \<Longrightarrow> balanced {} sec"
begin

lemma locks_ok_step:
  assumes "lock_step menu s s'" "locks_ok s"
  shows "locks_ok s'"
  using assms(1)
proof cases
  case (step_start t sec)
  have "balanced (held (s t)) []" using assms(2) step_start(2) unfolding locks_ok_def by metis
  then have "held (s t) = {}" by simp
  with step_start assms(2) show ?thesis by (auto simp: locks_ok_def sections_balanced)
next
  case (step_acquire t l ops)
  have "balanced (held (s t)) (Acquire l # ops)" using assms(2) step_acquire(2) unfolding locks_ok_def by metis
  with step_acquire assms(2) show ?thesis by (auto simp: locks_ok_def)
next
  case (step_release t l ops)
  have "balanced (held (s t)) (Release l # ops)" using assms(2) step_release(2) unfolding locks_ok_def by metis
  with step_release assms(2) show ?thesis by (fastforce simp: locks_ok_def)
next
  case (step_await t ops)
  have "balanced (held (s t)) (AwaitMessage # ops)" using assms(2) step_await(2) unfolding locks_ok_def by metis
  with step_await assms(2) show ?thesis by (auto simp: locks_ok_def)
qed

lemma locks_ok_reachable:
  assumes "(lock_step menu)\<^sup>*\<^sup>* all_idle s"
  shows "locks_ok s"
  using assms
proof (induction rule: rtranclp_induct)
  case base
  show ?case by (simp add: locks_ok_def all_idle_def)
next
  case (step s s')
  then show ?case using locks_ok_step by blast
qed

lemma mutual_exclusion: "(lock_step menu)\<^sup>*\<^sup>* all_idle s \<Longrightarrow> l \<in> held (s t) \<Longrightarrow> l \<in> held (s u) \<Longrightarrow> t = u"
  using locks_ok_reachable [of s] unfolding locks_ok_def by blast

lemma never_waits_for_itself:
  "(lock_step menu)\<^sup>*\<^sup>* all_idle s \<Longrightarrow> todo (s t) = Acquire l # ops \<Longrightarrow> l \<notin> held (s t)"
  using locks_ok_reachable [of s] unfolding locks_ok_def by (metis balanced.simps(2))

end

section \<open>Sections that follow an order\<close>

text \<open>The ranks go up, and no message is waited for.\<close>

fun ascending :: "(lock \<Rightarrow> nat) \<Rightarrow> lock set \<Rightarrow> lock_op list \<Rightarrow> bool" where
  "ascending rank h [] = True"
| "ascending rank h (Acquire l # ops) = ((\<forall>k \<in> h. rank k < rank l) \<and> ascending rank (insert l h) ops)"
| "ascending rank h (Release l # ops) = ascending rank (h - {l}) ops"
| "ascending rank h (AwaitMessage # ops) = False"

locale lock_order = lock_client +
  fixes rank :: "lock \<Rightarrow> nat" and top :: nat
  assumes rank_top: "rank l \<le> top"
    and sections_ascending: "sec \<in> menu t \<Longrightarrow> ascending rank {} sec"
begin

lemma ascending_step:
  assumes "lock_step menu s s'" "locks_ok s" "\<forall>t. ascending rank (held (s t)) (todo (s t))"
  shows "\<forall>t. ascending rank (held (s' t)) (todo (s' t))"
  using assms(1)
proof cases
  case (step_start t sec)
  have "balanced (held (s t)) []" using assms(2) step_start(2) unfolding locks_ok_def by metis
  then have "held (s t) = {}" by simp
  with step_start assms(3) show ?thesis by (auto simp: sections_ascending)
next
  case (step_acquire t l ops)
  have "ascending rank (held (s t)) (Acquire l # ops)" using assms(3) step_acquire(2) by metis
  with step_acquire assms(3) show ?thesis by auto
next
  case (step_release t l ops)
  have "ascending rank (held (s t)) (Release l # ops)" using assms(3) step_release(2) by metis
  with step_release assms(3) show ?thesis by auto
next
  case (step_await t ops)
  have "ascending rank (held (s t)) (AwaitMessage # ops)" using assms(3) step_await(2) by metis
  then show ?thesis by simp
qed

lemma ascending_reachable:
  assumes "(lock_step menu)\<^sup>*\<^sup>* all_idle s"
  shows "\<forall>t. ascending rank (held (s t)) (todo (s t))"
  using assms
proof (induction rule: rtranclp_induct)
  case base
  show ?case by (simp add: all_idle_def)
next
  case (step s s')
  then show ?case using ascending_step locks_ok_reachable by blast
qed

lemma blocked_on_lock:
  assumes "ascending rank (held (s t)) (todo (s t))" "todo (s t) \<noteq> []" "\<not> can_go_on s t"
  obtains l ops where "todo (s t) = Acquire l # ops"
  using assms by (auto simp: can_go_on_def split: list.splits lock_op.splits)

text \<open>Following the holder of the lock a thread waits for leads to locks of higher and higher rank.\<close>

lemma holder_goes_on:
  assumes "locks_ok s" "\<forall>t. ascending rank (held (s t)) (todo (s t))" "todo (s t) = Acquire l # ops"
  shows "\<exists>u. can_go_on s u"
  using assms(3)
proof (induction "top - rank l" arbitrary: t l ops rule: less_induct)
  case less
  show ?case
  proof (cases "can_go_on s t")
    case False
    with less.prems obtain u where u: "l \<in> held (s u)" by (auto simp: can_go_on_def)
    have "balanced (held (s u)) (todo (s u))" using assms(1) by (simp add: locks_ok_def)
    with u have ne: "todo (s u) \<noteq> []" by (auto elim: balanced.elims)
    show ?thesis
    proof (cases "can_go_on s u")
      case False
      from blocked_on_lock [OF _ ne this] assms(2) obtain l' ops' where l': "todo (s u) = Acquire l' # ops'" by blast
      have "ascending rank (held (s u)) (Acquire l' # ops')" using assms(2) l' by metis
      with u have "rank l < rank l'" by simp
      then have "top - rank l' < top - rank l" using rank_top [of l'] by simp
      from less.hyps [OF this l'] show ?thesis .
    qed blast
  qed blast
qed

lemma no_deadlock:
  assumes "(lock_step menu)\<^sup>*\<^sup>* all_idle s" "todo (s t) \<noteq> []"
  shows "\<exists>u. can_go_on s u"
proof (cases "can_go_on s t")
  case False
  from blocked_on_lock [OF _ assms(2) this] ascending_reachable [OF assms(1)]
  obtain l ops where "todo (s t) = Acquire l # ops" by blast
  then show ?thesis by (rule holder_goes_on [OF locks_ok_reachable [OF assms(1)] ascending_reachable [OF assms(1)]])
qed blast

end

section \<open>The program's sections\<close>

definition send_ops :: "bool list \<Rightarrow> lock_op list" where
  "send_ops ws = concat (map (\<lambda>waits. if waits then [AwaitMessage] else pcbs_section) ws)"

lemma balanced_ops: "PcbsLock \<notin> h \<Longrightarrow> balanced h (send_ops ws @ ops) = balanced h ops"
  by (induction ws) (simp_all add: send_ops_def pcbs_section_def guarded_def)

lemma balanced_send: "balanced {} (tcp_send_section ws)"
proof -
  have "{ContextsLock, DevicesLock} - {ContextsLock} - {DevicesLock} = {}" by auto
  then show ?thesis by (simp add: tcp_send_section_def guarded_def balanced_ops flip: send_ops_def)
qed

lemma program_balanced: "sec \<in> program_sections cmd t \<Longrightarrow> balanced {} sec"
  by (auto simp: program_sections_def signal_sections_def command_sections_def balanced_send section_defs
      split: thread.splits command.splits)

interpretation program_locks: lock_client "program_sections cmd" for cmd
  by unfold_locales (rule program_balanced)

fun lock_rank :: "lock \<Rightarrow> nat" where
  "lock_rank DevicesLock = 0"
| "lock_rank ProtocolsLock = 1"
| "lock_rank ContextsLock = 2"
| "lock_rank PcbsLock = 3"

lemma lock_rank_less: "l \<noteq> PcbsLock \<Longrightarrow> lock_rank l < 3"
  by (cases l) simp_all

lemma ascending_ops:
  assumes "PcbsLock \<notin> h" "AwaitMessage \<notin> set (send_ops ws)"
  shows "ascending lock_rank h (send_ops ws @ ops) = ascending lock_rank h ops"
proof -
  have "\<forall>l \<in> h. lock_rank l < 3" using assms(1) lock_rank_less by metis
  with assms show ?thesis by (induction ws) (auto simp: send_ops_def pcbs_section_def guarded_def)
qed

lemma ascending_send: "AwaitMessage \<notin> set (tcp_send_section ws) \<Longrightarrow> ascending lock_rank {} (tcp_send_section ws)"
  by (simp add: tcp_send_section_def guarded_def ascending_ops flip: send_ops_def)

interpretation devices_first: lock_order "devices_first_sections cmd" lock_rank 3 for cmd
proof unfold_locales
  fix sec t
  assume sec: "sec \<in> devices_first_sections cmd t"
  then have "sec \<in> program_sections cmd t"
    by (auto simp: devices_first_sections_def program_sections_def split: thread.splits)
  then show "balanced {} sec" by (rule program_balanced)
  from sec ascending_send show "ascending lock_rank {} sec"
    by (auto simp: devices_first_sections_def signal_sections_def command_sections_def section_defs
        split: thread.splits command.splits)
next
  fix l show "lock_rank l \<le> 3" by (cases l) simp_all
qed

section \<open>The deadlock of the signal loop and the retransmission thread\<close>

text \<open>
  The signal loop has taken the devices, the queues and the contexts and wants the blocks; the
  retransmission thread has the blocks and wants the devices.
\<close>

definition crossed :: lock_state where
  "crossed = all_idle(
     SignalThread := \<lparr>held = {DevicesLock, ProtocolsLock, ContextsLock}, todo = drop 3 handle_protocol_section\<rparr>,
     TransmitThread := \<lparr>held = {PcbsLock}, todo = drop 1 transmit_section\<rparr>)"

definition stuck_forever :: "(thread \<Rightarrow> lock_op list set) \<Rightarrow> lock_state \<Rightarrow> bool" where
  "stuck_forever menu s \<longleftrightarrow> (\<forall>s'. (lock_step menu)\<^sup>*\<^sup>* s s' \<longrightarrow> (\<forall>t. held (s' t) = held (s t)) \<and> (\<forall>t. \<not> can_go_on s' t))"

lemma crossed_reachable: "(lock_step (program_sections cmd))\<^sup>*\<^sup>* all_idle crossed"
proof -
  let ?P = "handle_protocol_section" and ?T = "transmit_section"
  let ?s1 = "all_idle(SignalThread := \<lparr>held = {}, todo = ?P\<rparr>)"
  let ?s2 = "?s1(SignalThread := \<lparr>held = {DevicesLock}, todo = drop 1 ?P\<rparr>)"
  let ?s3 = "?s2(SignalThread := \<lparr>held = {ProtocolsLock, DevicesLock}, todo = drop 2 ?P\<rparr>)"
  let ?s4 = "?s3(SignalThread := \<lparr>held = {ContextsLock, ProtocolsLock, DevicesLock}, todo = drop 3 ?P\<rparr>)"
  let ?s5 = "?s4(TransmitThread := \<lparr>held = {}, todo = ?T\<rparr>)"
  let ?s6 = "?s5(TransmitThread := \<lparr>held = {PcbsLock}, todo = drop 1 ?T\<rparr>)"
  let ?m = "program_sections cmd"
  have a1: "lock_step ?m all_idle ?s1"
    using step_start [of all_idle SignalThread ?P ?m] by (simp add: all_idle_def program_sections_def signal_sections_def)
  have a2: "lock_step ?m ?s1 ?s2"
    using step_acquire [of ?s1 SignalThread DevicesLock "drop 1 ?P" ?m] by (simp add: all_idle_def section_defs)
  have a3: "lock_step ?m ?s2 ?s3"
    using step_acquire [of ?s2 SignalThread ProtocolsLock "drop 2 ?P" ?m] by (simp add: all_idle_def section_defs)
  have a4: "lock_step ?m ?s3 ?s4"
    using step_acquire [of ?s3 SignalThread ContextsLock "drop 3 ?P" ?m] by (simp add: all_idle_def section_defs)
  have a5: "lock_step ?m ?s4 ?s5"
    using step_start [of ?s4 TransmitThread ?T ?m] by (simp add: all_idle_def program_sections_def)
  have a6: "lock_step ?m ?s5 ?s6"
    using step_acquire [of ?s5 TransmitThread PcbsLock "drop 1 ?T" ?m] by (simp add: all_idle_def section_defs)
  note trans = converse_rtranclp_into_rtranclp [of "lock_step ?m"]
  have "(lock_step ?m)\<^sup>*\<^sup>* all_idle ?s6"
    by (rule trans [OF a1 trans [OF a2 trans [OF a3 trans [OF a4 trans [OF a5 trans [OF a6 rtranclp.rtrancl_refl]]]]]])
  moreover have "?s6 = crossed" by (simp add: crossed_def insert_commute)
  ultimately show ?thesis by simp
qed

text \<open>Every section of a command begins with one of the two locks.\<close>

lemma command_sections_first:
  "sec \<in> command_sections cmd \<Longrightarrow> \<exists>l ops. sec = Acquire l # ops \<and> l \<in> {DevicesLock, PcbsLock}"
  by (auto simp: command_sections_def tcp_send_section_def section_defs split: command.splits)

definition crossed_inv :: "lock_state \<Rightarrow> bool" where
  "crossed_inv s \<longleftrightarrow> s SignalThread = crossed SignalThread \<and> s TransmitThread = crossed TransmitThread \<and>
     held (s CommandThread) = {} \<and>
     (todo (s CommandThread) = [] \<or> (\<exists>l ops. todo (s CommandThread) = Acquire l # ops \<and> l \<in> {DevicesLock, PcbsLock}))"

lemma crossed_facts:
  "held (crossed SignalThread) = {DevicesLock, ProtocolsLock, ContextsLock}" "held (crossed TransmitThread) = {PcbsLock}"
  "\<exists>ops. todo (crossed SignalThread) = Acquire PcbsLock # ops" "\<exists>ops. todo (crossed TransmitThread) = Acquire DevicesLock # ops"
  by (simp_all add: crossed_def section_defs)

lemma crossed_inv_blocked:
  assumes "crossed_inv s"
  shows "\<not> can_go_on s t"
proof -
  have taken: "DevicesLock \<in> held (s SignalThread)" "PcbsLock \<in> held (s TransmitThread)"
    using assms crossed_facts(1,2) by (simp_all add: crossed_inv_def)
  have "\<not> (\<forall>u. DevicesLock \<notin> held (s u))" "\<not> (\<forall>u. PcbsLock \<notin> held (s u))"
    using taken by blast+
  then show ?thesis
    using assms crossed_facts(3,4)
    by (cases t) (auto simp: crossed_inv_def can_go_on_def simp del: not_all)
qed

lemma crossed_inv_step:
  assumes "lock_step (program_sections cmd) s s'" "crossed_inv s"
  shows "crossed_inv s'"
  using assms(1)
proof cases
  case (step_start t sec)
  have "t = CommandThread"
    using step_start(2) assms(2) crossed_facts(3,4) by (cases t) (auto simp: crossed_inv_def)
  with step_start assms(2) show ?thesis
    using command_sections_first [of sec cmd] by (auto simp: crossed_inv_def program_sections_def)
next
  case (step_acquire t l ops)
  then have "can_go_on s t" by (simp add: can_go_on_def)
  then show ?thesis using crossed_inv_blocked [OF assms(2)] by blast
next
  case (step_release t l ops)
  then have "can_go_on s t" by (simp add: can_go_on_def)
  then show ?thesis using crossed_inv_blocked [OF assms(2)] by blast
next
  case (step_await t ops)
  then show ?thesis using assms(2) crossed_facts(3,4) by (cases t) (auto simp: crossed_inv_def)
qed

lemma crossed_stuck: "stuck_forever (program_sections cmd) crossed"
  unfolding stuck_forever_def
proof (intro allI impI)
  fix s'
  assume "(lock_step (program_sections cmd))\<^sup>*\<^sup>* crossed s'"
  then have inv: "crossed_inv s'"
  proof (induction rule: rtranclp_induct)
    case base
    show ?case by (simp add: crossed_inv_def crossed_def all_idle_def)
  next
    case (step s t)
    then show ?case using crossed_inv_step by blast
  qed
  then have "held (s' t) = held (crossed t)" for t
    by (cases t) (simp_all add: crossed_inv_def crossed_def all_idle_def)
  with inv show "(\<forall>t. held (s' t) = held (crossed t)) \<and> (\<forall>t. \<not> can_go_on s' t)"
    using crossed_inv_blocked by blast
qed

end
