(* ===== verification/Tcp_States.thy ===== *)
theory Tcp_States
  imports Tcp_Input
begin

text \<open>
  The state machine of \<open>segment_arrives\<close>. The abstraction of a table is the list of the states
  of its blocks; \<open>arrival_edge\<close> is the state diagram, labelled with the flags of the segment. Each
  numbered check of the handler is shown to move at most one block, and the handler as a
  whole follows the diagram.
\<close>

definition arrival_edge :: "u8 \<Rightarrow> tcp_pcb_state \<Rightarrow> tcp_pcb_state \<Rightarrow> bool" where
  "arrival_edge flags st st' =
     (let syn = tcp_flag_exists flags SYN; ack = tcp_flag_exists flags ACK;
          rst = tcp_flag_exists flags RST; fin = tcp_flag_exists flags FIN
      in (st \<in> {Free, Listen} \<and> st' = SynReceived \<and> syn \<and> \<not> ack \<and> \<not> rst) \<or>
         (st = SynSent \<and> st' \<in> {Established, SynReceived} \<and> syn \<and> \<not> rst) \<or>
         (st = SynSent \<and> st' = Free \<and> rst \<and> ack) \<or>
         (st = SynReceived \<and> st' = Established \<and> ack \<and> \<not> syn \<and> \<not> rst) \<or>
         (st \<in> {SynReceived, Established} \<and> st' = CloseWait \<and> fin \<and> ack \<and> \<not> syn \<and> \<not> rst) \<or>
         (st = FinWait1 \<and> st' \<in> {Closing, TimeWait} \<and> fin \<and> ack \<and> \<not> syn \<and> \<not> rst) \<or>
         (st = FinWait2 \<and> st' = TimeWait \<and> fin \<and> ack \<and> \<not> syn \<and> \<not> rst) \<or>
         (st \<in> {SynReceived, Established, FinWait1, FinWait2, CloseWait} \<and> st' = Free \<and> (rst \<or> syn)) \<or>
         (st \<in> {Closing, LastAck, TimeWait} \<and> st' = Free))"

definition pcb_states :: "tcp_machine \<Rightarrow> tcp_pcb_state list" where
  "pcb_states m = map tcb_state (fst m)"

section \<open>What each check does to the states\<close>

lemma pcb_states_update [simp]: "pcb_states (pcbs[i := p], n) = (map tcb_state pcbs)[i := tcb_state p]"
  by (simp add: pcb_states_def map_update)

lemma pcb_states_keep: "tcb_state p = tcb_state (pcbs ! i) \<Longrightarrow> (map tcb_state pcbs)[i := tcb_state p] = map tcb_state pcbs"
  by (cases "i < length pcbs") (simp_all add: list_update_same_conv list_update_beyond)

lemma pcb_states_same [simp]: "(pcb_states m)[i := tcb_state (fst m ! i)] = pcb_states m"
  using pcb_states_keep [of "fst m ! i" "fst m" i] by (simp add: pcb_states_def)

lemma add_backlog_state [simp]: "tcb_state (add_backlog i p) = tcb_state p"
  by (simp add: add_backlog_def)

lemma tcp_output_state: "tcp_output p flags data n = Ret (len, p', n') \<Longrightarrow> tcb_state p' = tcb_state p"
  using tcp_output_frame(1) [of p flags data n len p' n'] by auto

lemma set_wait_time_state: "set_wait_time p w = (p', w') \<Longrightarrow> tcb_state p' = tcb_state p"
  by (auto simp: set_wait_time_def Let_def split: option.splits prod.splits)

lemma seg_release_state: "seg_release i m = Ret (fl, m') \<Longrightarrow> fl = Stop \<and> pcb_states m' = (pcb_states m)[i := Free]"
  by (auto simp: seg_release_def release_def exec_simps pcb_states_def map_update)

lemma seg_reply_state: "seg_reply seq ack flags loc rem m = Ret m' \<Longrightarrow> pcb_states m' = pcb_states m"
  by (simp add: pcb_states_def seg_reply_wf)

lemma check_seq_state: "seg_check_seq i st seg flags m = Ret (fl, m') \<Longrightarrow> pcb_states m' = pcb_states m"
  by (auto simp: seg_check_seq_def exec_simps pcb_states_keep dest!: tcp_output_plain_pcb split: if_splits)
    (simp_all add: pcb_states_def)

lemma check_rst_state:
  assumes "seg_check_rst i st flags m = Ret (fl, m')"
  shows "fl = Stop \<and> pcb_states m' = (pcb_states m)[i := Free] \<and>
      (st \<in> {Closing, LastAck, TimeWait} \<or>
       st \<in> {SynReceived, Established, FinWait1, FinWait2, CloseWait} \<and> tcp_flag_exists flags RST) \<or>
    fl = Go \<and> m' = m \<and> st \<notin> {Closing, LastAck, TimeWait} \<and>
      (st \<in> {SynReceived, Established, FinWait1, FinWait2, CloseWait} \<longrightarrow> \<not> tcp_flag_exists flags RST)"
  using assms by (auto simp: seg_check_rst_def dest: seg_release_state split: if_splits)

lemma check_syn_state:
  assumes "seg_check_syn i st flags m = Ret (fl, m')" "st \<notin> {Closing, LastAck, TimeWait}"
  shows "fl = Stop \<and> pcb_states m' = (pcb_states m)[i := Free] \<and>
      st \<in> {SynReceived, Established, FinWait1, FinWait2, CloseWait} \<and> tcp_flag_exists flags SYN \<or>
    fl = Go \<and> m' = m \<and>
      (st \<in> {SynReceived, Established, FinWait1, FinWait2, CloseWait} \<longrightarrow> \<not> tcp_flag_exists flags SYN)"
  using assms by (auto simp: seg_check_syn_def dest: seg_release_state split: if_splits)

lemma clean_data_queue_state [simp]: "tcb_state (clean_data_queue p) = tcb_state p"
  by (simp add: clean_data_queue_eq)

lemma ack_update_state [simp]: "tcb_state (ack_update seg p) = tcb_state p"
  by (simp add: ack_update_def Let_def)

lemma ack_syn_received_state:
  assumes "seg_ack_syn_received i seg loc rem m = Ret (fl, m')"
  shows "fl = Stop \<and> pcb_states m' = pcb_states m \<or> fl = Go \<and> pcb_states m' = (pcb_states m)[i := Established]"
  using assms
  by (auto simp: seg_ack_syn_received_def exec_simps Let_def pcb_states_keep
      dest: seg_reply_state split: if_splits option.splits)
    (simp_all add: pcb_states_def map_update)

lemma ack_synchronized_state:
  assumes "seg_ack_synchronized i st seg m = Ret (fl, m')" "st \<noteq> Closing"
  shows "pcb_states m' = pcb_states m"
  using assms
  by (auto simp: seg_ack_synchronized_def exec_simps Let_def pcb_states_keep dest!: tcp_output_plain_pcb split: if_splits)
    (simp_all add: pcb_states_def)

lemma check_ack_state:
  assumes "seg_check_ack i st seg flags loc rem m = Ret (fl, m')" "st \<notin> {Closing, LastAck, TimeWait}"
  shows "fl = Stop \<and> pcb_states m' = pcb_states m \<or>
    fl = Go \<and> tcp_flag_exists flags ACK \<and>
      pcb_states m' = (if st = SynReceived then (pcb_states m)[i := Established] else pcb_states m)"
  using assms
  by (auto simp: seg_check_ack_def dest!: ack_syn_received_state ack_synchronized_state split: if_splits)
    (cases fl; simp)+

lemma text_state: "seg_text i st seg data len m = Ret m' \<Longrightarrow> pcb_states m' = pcb_states m"
  by (auto simp: seg_text_def exec_simps Let_def pcb_states_keep dest!: tcp_output_plain_pcb split: if_splits)
    (simp_all add: pcb_states_def)

definition fin_target :: "tcp_pcb_state \<Rightarrow> tcp_pcb_state set" where
  "fin_target st =
     (if st \<in> {SynReceived, Established} then {CloseWait} else if st = FinWait1 then {TimeWait, Closing}
      else if st = FinWait2 then {TimeWait} else {})"

lemma fin_state:
  assumes "seg_fin i st seg flags m = Ret m'"
  shows "if tcp_flag_exists flags FIN \<and> fin_target st \<noteq> {}
    then \<exists>st' \<in> fin_target st. pcb_states m' = (pcb_states m)[i := st']
    else pcb_states m' = pcb_states m"
proof (cases "tcp_flag_exists flags FIN \<and> st \<notin> {Closed, Listen, SynSent}")
  case True
  with assms obtain nx p n1 where p: "tcb_state p = tcb_state (fst m ! i)"
    and rest: "(let put = (\<lambda>(p, n). Ret ((fst m)[i := p], n))
          in if st \<in> {SynReceived, Established} then
               put (p\<lparr>tcb_state := CloseWait\<rparr>, wake (tcb_sender p) True n1)
             else if st = FinWait1 then
               (if seg_ack seg = snd_next (send_context p)
                then put (set_wait_time (p\<lparr>tcb_state := TimeWait\<rparr>) n1)
                else put (p\<lparr>tcb_state := Closing\<rparr>, n1))
             else if st = FinWait2 then put (p\<lparr>tcb_state := TimeWait\<rparr>, n1)
             else if st = TimeWait then put (set_wait_time p n1)
             else put (p, n1)) = Ret m'"
    by (auto simp: seg_fin_def exec_simps dest!: tcp_output_state)
  obtain q w where q: "set_wait_time p n1 = (q, w)" "tcb_state q = tcb_state p"
    using set_wait_time_state by (metis surj_pair)
  obtain q' w' where q': "set_wait_time (p\<lparr>tcb_state := TimeWait\<rparr>) n1 = (q', w')" "tcb_state q' = TimeWait"
    using set_wait_time_state by (metis surj_pair tcp_pcb.select_convs(1) tcp_pcb.surjective tcp_pcb.update_convs(1))
  show ?thesis
    using rest p q q' True
    by (auto simp: Let_def fin_target_def pcb_states_keep split: if_splits) (simp_all add: pcb_states_def)
next
  case False
  with assms have "m' = m" by (auto simp: seg_fin_def exec_simps split: if_splits)
  with False show ?thesis by (auto simp: fin_target_def)
qed

section \<open>The handler\<close>

lemma syn_update_state [simp]: "tcb_state (syn_update seg acc next p) = tcb_state p"
  by (simp add: syn_update_def Let_def)

lemma syn_sent_state:
  assumes "seg_syn_sent i seg flags loc rem m = Ret m'" "tcb_state (fst m ! i) = SynSent"
  shows "\<exists>st'. pcb_states m' = (pcb_states m)[i := st'] \<and> (st' = SynSent \<or> arrival_edge flags SynSent st')"
proof -
  have same: "\<exists>st'. pcb_states m = (pcb_states m)[i := st'] \<and> (st' = SynSent \<or> arrival_edge flags SynSent st')"
    using assms(2) pcb_states_same [of m i] by metis
  show ?thesis
    using assms same
    by (auto simp: seg_syn_sent_def exec_simps Let_def release_def arrival_edge_def pcb_states_def map_update
        dest!: seg_reply_wf tcp_output_state split: if_splits)
qed

lemma listen_state:
  assumes "seg_listen i mode seg flags loc rem m = Ret m'" "tcb_state (fst m ! i) = Listen" "i < length (fst m)"
  shows "\<exists>j st'. j < length (fst m) \<and> pcb_states m' = (pcb_states m)[j := st'] \<and>
    (st' = tcb_state (fst m ! j) \<or> arrival_edge flags (tcb_state (fst m ! j)) st')"
proof (cases "tcp_flag_exists flags SYN \<and> \<not> tcp_flag_exists flags ACK \<and> \<not> tcp_flag_exists flags RST")
  case True
  obtain isn n1 where "gen_range_u32 (snd m) = (isn, n1)" by (rule prod.exhaust)
  with True assms(1) obtain j pcbs p n where t: "listen_target i mode (fst m) = Ret (j, pcbs)"
    and m': "m' = (pcbs[j := p\<lparr>tcb_state := SynReceived\<rparr>], n)"
    by (auto simp: seg_listen_def exec_simps Let_def)
  have "j < length (fst m) \<and> tcb_state (fst m ! j) \<in> {Free, Listen} \<and>
      (\<exists>st. map tcb_state pcbs = (pcb_states m)[j := st])"
    using t assms(2,3) pcb_states_keep [of "fst m ! i" "fst m" i]
    by (auto simp: listen_target_def exec_simps pcb_states_def map_update dest!: tcp_table.alloc_Some
        split: if_splits) metis
  with True m' show ?thesis
    by (intro exI [of _ j] exI [of _ SynReceived]) (auto simp: arrival_edge_def)
next
  case False
  with assms have "pcb_states m' = pcb_states m"
    by (auto simp: seg_listen_def dest: seg_reply_state split: if_splits)
  then show ?thesis
    using assms(3) by (intro exI [of _ i] exI [of _ "tcb_state (fst m ! i)"]) simp
qed

lemma flow_thenE:
  assumes "flow_then r f = Ret m'"
  obtains (stop) "r = Ret (Stop, m')" | (go) m1 where "r = Ret (Go, m1)" "f m1 = Ret m'"
  using assms by (auto simp: flow_then_def exec_simps split: if_splits) (metis flow.exhaust)

lemma text_fin_state:
  assumes "seg_text i st seg data len m4 = Ret m5" "seg_fin i st seg flags m5 = Ret m'" "tcp_flag_exists flags ACK"
    and "pcb_states m4 = (if st = SynReceived then (pcb_states m)[i := Established] else pcb_states m)"
    and "st \<notin> {Closing, LastAck, TimeWait}"
    and "st \<in> {SynReceived, Established, FinWait1, FinWait2, CloseWait} \<longrightarrow> \<not> tcp_flag_exists flags RST"
    and "st \<in> {SynReceived, Established, FinWait1, FinWait2, CloseWait} \<longrightarrow> \<not> tcp_flag_exists flags SYN"
    and "pcb_states m = (pcb_states m)[i := st]"
  shows "\<exists>st'. pcb_states m' = (pcb_states m)[i := st'] \<and> (st' = st \<or> arrival_edge flags st st')"
proof (cases "tcp_flag_exists flags FIN \<and> fin_target st \<noteq> {}")
  case True
  then obtain st' where st': "st' \<in> fin_target st" "pcb_states m' = (pcb_states m5)[i := st']"
    using fin_state [OF assms(2)] by auto
  then have "pcb_states m' = (pcb_states m)[i := st']" using text_state [OF assms(1)] assms(4) by auto
  moreover have "arrival_edge flags st st'"
    using st'(1) True assms(3,6,7) by (auto simp: fin_target_def arrival_edge_def split: if_splits)
  ultimately show ?thesis by blast
next
  case False
  then have m': "pcb_states m' = pcb_states m4" using fin_state [OF assms(2)] text_state [OF assms(1)] by auto
  show ?thesis
  proof (cases "st = SynReceived")
    case True
    with m' assms(3,4,6,7) show ?thesis by (intro exI [of _ Established]) (simp add: arrival_edge_def)
  next
    case False
    with m' assms(4,8) show ?thesis by (intro exI [of _ st]) simp
  qed
qed

lemma checks_state:
  assumes "flow_then (seg_check_seq i st seg flags m) (\<lambda>m1.
      flow_then (seg_check_rst i st flags m1) (\<lambda>m2.
      flow_then (seg_check_syn i st flags m2) (\<lambda>m3.
      flow_then (seg_check_ack i st seg flags loc rem m3) (\<lambda>m4.
      and_then (seg_text i st seg data len m4) (\<lambda>m5.
      seg_fin i st seg flags m5))))) = Ret m'"
    and "st \<notin> {Closed, Listen, SynSent}" "tcb_state (fst m ! i) = st"
  shows "\<exists>st'. pcb_states m' = (pcb_states m)[i := st'] \<and> (st' = st \<or> arrival_edge flags st st')"
proof -
  have keep: "pcb_states m = (pcb_states m)[i := st]"
    using pcb_states_same [of m i] assms(3) by simp
  from assms(1) show ?thesis
  proof (cases rule: flow_thenE)
    case stop
    then show ?thesis using keep check_seq_state by metis
  next
    case (go m1)
    note p1 = check_seq_state [OF go(1)]
    from go(2) show ?thesis
    proof (cases rule: flow_thenE)
      case stop
      then show ?thesis using check_rst_state [OF stop] p1 by (intro exI [of _ Free]) (auto simp: arrival_edge_def)
    next
      case (go m2)
      then have p2: "m2 = m1" "st \<notin> {Closing, LastAck, TimeWait}"
        "st \<in> {SynReceived, Established, FinWait1, FinWait2, CloseWait} \<longrightarrow> \<not> tcp_flag_exists flags RST"
        using check_rst_state [OF go(1)] by auto
      from go(2) show ?thesis
      proof (cases rule: flow_thenE)
        case stop
        then show ?thesis
          using check_syn_state [OF stop p2(2)] p1 p2(1) by (intro exI [of _ Free]) (auto simp: arrival_edge_def)
      next
        case (go m3)
        then have p3: "pcb_states m3 = pcb_states m"
          "st \<in> {SynReceived, Established, FinWait1, FinWait2, CloseWait} \<longrightarrow> \<not> tcp_flag_exists flags SYN"
          using check_syn_state [OF go(1) p2(2)] p1 p2(1) by auto
        from go(2) show ?thesis
        proof (cases rule: flow_thenE)
          case stop
          then have "pcb_states m' = pcb_states m" using check_ack_state [OF stop p2(2)] p3(1) by simp
          with keep show ?thesis by metis
        next
          case (go m4)
          then have p4: "tcp_flag_exists flags ACK"
            "pcb_states m4 = (if st = SynReceived then (pcb_states m)[i := Established] else pcb_states m)"
            using check_ack_state [OF go(1) p2(2)] p3(1) by auto
          from go(2) obtain m5 where t: "seg_text i st seg data len m4 = Ret m5" "seg_fin i st seg flags m5 = Ret m'"
            by (auto simp: exec_simps)
          show ?thesis
            by (rule text_fin_state [OF t p4 p2(2,3) p3(2) keep])
        qed
      qed
    qed
  qed
qed

lemma segment_arrives_state:
  assumes "segment_arrives seg flags data len loc rem m = Ret m'"
  shows "\<exists>i st'. pcb_states m' = (pcb_states m)[i := st'] \<and>
    (i < length (fst m) \<longrightarrow> st' = tcb_state (fst m ! i) \<or> arrival_edge flags (tcb_state (fst m ! i)) st')"
proof (cases "tcp_select (fst m) loc (Some rem)")
  case None
  with assms have "pcb_states m' = pcb_states m"
    by (auto simp: segment_arrives_def pcb_states_def dest: seg_closed_wf)
  then show ?thesis by (intro exI [of _ "length (fst m)"] exI [of _ Free]) (simp add: pcb_states_def list_update_beyond)
next
  case (Some i)
  then have i: "i < length (fst m)" by (rule tcp_select_length)
  let ?st = "tcb_state (fst m ! i)"
  consider "?st = Closed" | "?st = Listen" | "?st = SynSent" | "?st \<notin> {Closed, Listen, SynSent}" by auto
  then show ?thesis
  proof cases
    case 1
    with assms Some have "pcb_states m' = pcb_states m"
      by (auto simp: segment_arrives_def pcb_states_def dest: seg_closed_wf)
    then show ?thesis
      by (intro exI [of _ "length (fst m)"] exI [of _ Free]) (simp add: pcb_states_def list_update_beyond)
  next
    case 2
    with assms Some have "seg_listen i (tcb_mode (fst m ! i)) seg flags loc rem m = Ret m'"
      by (simp add: segment_arrives_def)
    from listen_state [OF this 2 i] show ?thesis by blast
  next
    case 3
    with assms Some have "seg_syn_sent i seg flags loc rem m = Ret m'" by (simp add: segment_arrives_def)
    from syn_sent_state [OF this 3] 3 show ?thesis by metis
  next
    case 4
    with assms Some have "\<exists>st'. pcb_states m' = (pcb_states m)[i := st'] \<and> (st' = ?st \<or> arrival_edge flags ?st st')"
      by (intro checks_state [of i ?st seg flags m loc rem data len m']) (auto simp: segment_arrives_def Let_def)
    then show ?thesis by blast
  qed
qed

end
