(* ===== verification/Tcp_Stream.thy ===== *)
theory Tcp_Stream
  imports Tcp_Exchange
begin

text \<open>
  An established connection as a byte stream. The locale \<open>stream_receiver\<close> is the contract
  between the segment handler, which stores text that fits the window, and \<open>receive\<close>, which
  takes it out: a queue of bytes of bounded capacity. Two counters bound what a run may still use up, the
  acknowledgements (each takes one identification number) and the sequence numbers. Proved in the
  locale: whatever way arrivals and reads interleave, the bytes read followed by the bytes
  still buffered are the bytes that arrived, in order. The interpretation \<open>connection\<close> discharges the
  contract for \<open>segment_arrives\<close> and \<open>receive\<close>.
\<close>

datatype stream_event = Arrival bytes | Reading nat

fun run_events ::
  "(bytes \<Rightarrow> 's \<Rightarrow> 's exec) \<Rightarrow> (nat \<Rightarrow> 's \<Rightarrow> (bytes option blocking \<times> 's) exec) \<Rightarrow> stream_event list \<Rightarrow> 's
   \<Rightarrow> (bytes \<times> 's) exec" where
  "run_events store fetch [] s = Ret ([], s)"
| "run_events store fetch (Arrival d # es) s = and_then (store d s) (run_events store fetch es)"
| "run_events store fetch (Reading k # es) s =
     and_then (fetch k s) (\<lambda>(b, s1).
     and_then (run_events store fetch es s1) (\<lambda>(out, s2).
     Ret (case b of Returned (Some d) \<Rightarrow> (d @ out, s2) | _ \<Rightarrow> (out, s2))))"

fun arrived :: "stream_event list \<Rightarrow> bytes" where
  "arrived [] = []"
| "arrived (Arrival d # es) = d @ arrived es"
| "arrived (Reading k # es) = arrived es"

fun arrivals :: "stream_event list \<Rightarrow> nat" where
  "arrivals [] = 0"
| "arrivals (Arrival d # es) = Suc (arrivals es)"
| "arrivals (Reading k # es) = arrivals es"

text \<open>The sender respects the window, and \<open>receive\<close> is called when there is something to read.\<close>

fun fits :: "nat \<Rightarrow> nat \<Rightarrow> stream_event list \<Rightarrow> bool" where
  "fits cap used [] = True"
| "fits cap used (Arrival d # es) = (0 < length d \<and> used + length d \<le> cap \<and> fits cap (used + length d) es)"
| "fits cap used (Reading k # es) = (0 < used \<and> fits cap (used - k) es)"

locale stream_receiver =
  fixes inv :: "nat \<Rightarrow> nat \<Rightarrow> 's \<Rightarrow> bool" and contents :: "'s \<Rightarrow> bytes" and cap :: nat
    and store :: "bytes \<Rightarrow> 's \<Rightarrow> 's exec" and fetch :: "nat \<Rightarrow> 's \<Rightarrow> (bytes option blocking \<times> 's) exec"
  assumes store_ok: "inv (Suc a) (b + length d) s \<Longrightarrow> 0 < length d \<Longrightarrow> length (contents s) + length d \<le> cap \<Longrightarrow>
      \<exists>s'. store d s = Ret s' \<and> inv a b s' \<and> contents s' = contents s @ d"
    and fetch_ok: "inv a b s \<Longrightarrow> contents s \<noteq> [] \<Longrightarrow>
      \<exists>s'. fetch k s = Ret (Returned (Some (take k (contents s))), s') \<and> inv a b s' \<and> contents s' = drop k (contents s)"
begin

lemma stream_fifo:
  assumes "inv (arrivals es + a) (length (arrived es) + b) s" "fits cap (length (contents s)) es"
  shows "\<exists>out s'. run_events store fetch es s = Ret (out, s') \<and> inv a b s' \<and> out @ contents s' = contents s @ arrived es"
  using assms
proof (induction es arbitrary: s)
  case (Cons e es)
  show ?case
  proof (cases e)
    case (Arrival d)
    from Cons.prems Arrival have pre: "inv (Suc (arrivals es + a)) (length (arrived es) + b + length d) s"
      "0 < length d" "length (contents s) + length d \<le> cap" by (simp_all add: ac_simps)
    obtain s1 where s1: "store d s = Ret s1" "inv (arrivals es + a) (length (arrived es) + b) s1" "contents s1 = contents s @ d"
      using store_ok [OF pre] by blast
    have "fits cap (length (contents s1)) es" using Cons.prems(2) Arrival s1(3) by simp
    from Cons.IH [OF s1(2) this] s1 Arrival show ?thesis by auto
  next
    case (Reading k)
    from Cons.prems Reading have pre: "inv (arrivals es + a) (length (arrived es) + b) s" "contents s \<noteq> []" by auto
    obtain s1 where s1: "fetch k s = Ret (Returned (Some (take k (contents s))), s1)"
      "inv (arrivals es + a) (length (arrived es) + b) s1" "contents s1 = drop k (contents s)"
      using fetch_ok [OF pre] by blast
    have "fits cap (length (contents s1)) es" using Cons.prems(2) Reading s1(3) by simp
    from Cons.IH [OF s1(2) this] obtain out s2 where "run_events store fetch es s1 = Ret (out, s2)" "inv a b s2"
      "out @ contents s2 = contents s1 @ arrived es" by blast
    moreover from this s1(3) have "(take k (contents s) @ out) @ contents s2 = contents s @ arrived es"
      by (metis append.assoc append_take_drop_id)
    ultimately show ?thesis using s1(1) Reading by simp
  qed
qed simp

end

section \<open>Selection depends on the endpoints and the state\<close>

lemma select_from_cong:
  "map (\<lambda>p. (tcb_local p, tcb_remote p, tcb_state p)) ps = map (\<lambda>p. (tcb_local p, tcb_remote p, tcb_state p)) qs \<Longrightarrow>
   select_from loc rem i lp ps = select_from loc rem i lp qs"
proof (induction ps arbitrary: qs i lp)
  case (Cons p ps)
  then obtain q qs' where qs: "qs = q # qs'" and eq: "tcb_local p = tcb_local q" "tcb_remote p = tcb_remote q" "tcb_state p = tcb_state q"
    and rest: "map (\<lambda>p. (tcb_local p, tcb_remote p, tcb_state p)) ps = map (\<lambda>p. (tcb_local p, tcb_remote p, tcb_state p)) qs'"
    by (cases qs) auto
  have "local_match loc p = local_match loc q" "open_listener p = open_listener q"
    using eq by (simp_all add: local_match_def open_listener_def)
  then show ?case using eq Cons.IH [OF rest] by (cases rem) (simp_all add: qs)
qed simp

lemma tcp_select_update:
  assumes "tcb_local p = tcb_local (pcbs ! i)" "tcb_remote p = tcb_remote (pcbs ! i)" "tcb_state p = tcb_state (pcbs ! i)"
  shows "tcp_select (pcbs[i := p]) loc rem = tcp_select pcbs loc rem"
proof -
  have "map (\<lambda>p. (tcb_local p, tcb_remote p, tcb_state p)) (pcbs[i := p]) = map (\<lambda>p. (tcb_local p, tcb_remote p, tcb_state p)) pcbs"
    using assms by (cases "i < length pcbs") (simp_all add: map_update list_update_same_conv list_update_beyond)
  then show ?thesis unfolding tcp_select_def by (rule select_from_cong)
qed

section \<open>The connection\<close>

definition arrive ::
  "ip_endpoint \<Rightarrow> ip_endpoint \<Rightarrow> nat \<Rightarrow> u32 \<Rightarrow> u16 \<Rightarrow> bytes \<Rightarrow> tcp_machine \<Rightarrow> tcp_machine exec" where
  "arrive loc rem i ack win data m =
     segment_arrives (segment_of (rcv_next (recv_context (fst m ! i))) ack flag_ack win data) flag_ack data (length data)
       loc rem m"

definition receive_now :: "nat \<Rightarrow> nat \<Rightarrow> tcp_machine \<Rightarrow> (bytes option blocking \<times> tcp_machine) exec" where
  "receive_now i k m =
     and_then (receive_begin i m) (\<lambda>(c, l, m1).
     and_then (receive_resume c i k l m1) (\<lambda>(b, l', m2). Ret (b, m2)))"

definition conn_inv ::
  "ip_endpoint \<Rightarrow> ip_endpoint \<Rightarrow> nat \<Rightarrow> u32 \<Rightarrow> bytes \<Rightarrow> nat \<Rightarrow> nat \<Rightarrow> tcp_machine \<Rightarrow> bool" where
  "conn_inv loc rem i ack hw a b m \<longleftrightarrow>
     (let p = fst m ! i; n = snd m; rc = recv_context p in
      tcp_select (fst m) loc (Some rem) = Some i \<and> tcb_state p = Established \<and> tcb_local p = loc \<and> tcb_remote p = rem \<and>
      ack \<le> snd_next (send_context p) \<and> unat (rcv_window rc) + length (buf p) = 65535 \<and>
      unat (rcv_next rc) + b + 65535 < 4294967296 \<and>
      reaches n (ep_address loc) (ep_address rem) hw \<and> unat (ctx_ip_id (contexts n)) + a \<le> 65535)"

lemma reaches_chans [simp]:
  "reaches (drop_sender c n) src dst hw = reaches n src dst hw" "reaches (drop_receiver k n) src dst hw = reaches n src dst hw"
  "contexts (drop_sender c n) = contexts n" "contexts (drop_receiver k n) = contexts n" for n :: net
  by (auto simp: reaches_def drop_sender_def drop_receiver_def chan_update_def needs_arp_def split: option.splits)

lemma arrive_ok:
  assumes "conn_inv loc rem i ack hw (Suc a) (b + length d) m" "0 < length d" "length (buf (fst m ! i)) + length d \<le> 65535"
  shows "\<exists>m'. arrive loc rem i ack win d m = Ret m' \<and> conn_inv loc rem i ack hw a b m' \<and>
    buf (fst m' ! i) = buf (fst m ! i) @ d"
proof -
  obtain pcbs n where m: "m = (pcbs, n)" by (cases m)
  let ?p = "pcbs ! i" and ?s = "segment_of (rcv_next (recv_context (pcbs ! i))) ack flag_ack win d"
  have inv: "tcp_select pcbs loc (Some rem) = Some i" "tcb_state ?p = Established" "tcb_local ?p = loc" "tcb_remote ?p = rem"
    "ack \<le> snd_next (send_context ?p)" "unat (rcv_window (recv_context ?p)) + length (buf ?p) = 65535"
    "unat (rcv_next (recv_context ?p)) + (b + length d) + 65535 < 4294967296"
    "reaches n (ep_address loc) (ep_address rem) hw" "unat (ctx_ip_id (contexts n)) + Suc a \<le> 65535"
    using assms(1) unfolding conn_inv_def m Let_def by auto
  have i: "i < length pcbs" by (rule tcp_select_length [OF inv(1)])
  have d: "length d \<le> unat (rcv_window (recv_context ?p))" "length d < 65536"
    using assms(3) inv(6) by (simp_all add: m)
  have id: "ctx_ip_id (contexts n) \<noteq> 0xffff" using inv(9) unat_u16_65535 [of "ctx_ip_id (contexts n)"] by auto
  have s: "seg_seq ?s = rcv_next (recv_context ?p)" "seg_ack ?s = ack" "seg_len ?s = of_nat (length d)"
    by (simp_all add: segment_of_def segment_length_def)
  define q where "q = (ack_applied ?s ?p)\<lparr>buf := buf ?p @ d, recv_context := (recv_context ?p)\<lparr>
      rcv_next := rcv_next (recv_context ?p) + of_nat (length d),
      rcv_window := rcv_window (recv_context ?p) - of_nat (length d)\<rparr>\<rparr>"
  obtain n1 c where n1: "segment_arrives ?s flag_ack d (length d) loc rem (pcbs, n) =
      Ret (pcbs[i := q], wake (tcb_sender ?p) True n1)"
    "tcp_frame_to loc rem hw (tcp_segment (snd_next (send_context ?p)) (rcv_next (recv_context ?p) + of_nat (length d))
       flag_ack (rcv_window (recv_context ?p) - of_nat (length d)) [] loc rem c) n n1"
    unfolding q_def
    by (rule data_in_order [of pcbs loc rem i flag_ack ?s d n hw])
      (use inv d s id assms(2) in \<open>auto simp: m\<close>)
  note out = tcp_frame_reaches [OF n1(2) inv(8)]
  have "unat (rcv_window (recv_context ?p) - of_nat (length d)) = unat (rcv_window (recv_context ?p)) - length d"
    using d by (simp add: unat_sub word_le_nat_alt)
  moreover have "unat (rcv_next (recv_context ?p) + of_nat (length d)) = unat (rcv_next (recv_context ?p)) + length d"
    using inv(7) d by (simp add: unat_word_ariths unat_of_nat)
  moreover have "unat (ctx_ip_id (contexts n) + 1) = unat (ctx_ip_id (contexts n)) + 1"
    using inv(9) by (simp add: unat_word_ariths)
  moreover have "tcp_select (pcbs[i := q]) loc (Some rem) = Some i"
    using inv(1) by (subst tcp_select_update) (simp_all add: q_def)
  ultimately have "conn_inv loc rem i ack hw a b (pcbs[i := q], wake (tcb_sender ?p) True n1)"
    using inv i d out by (simp add: conn_inv_def q_def Let_def)
  then show ?thesis
    using n1(1) i by (intro exI [of _ "(pcbs[i := q], wake (tcb_sender ?p) True n1)"]) (simp add: arrive_def m q_def)
qed

lemma receive_ok:
  assumes "conn_inv loc rem i ack hw a b m" "buf (fst m ! i) \<noteq> []"
  shows "\<exists>m'. receive_now i k m = Ret (Returned (Some (take k (buf (fst m ! i)))), m') \<and>
    conn_inv loc rem i ack hw a b m' \<and> buf (fst m' ! i) = drop k (buf (fst m ! i))"
proof -
  obtain pcbs n where m: "m = (pcbs, n)" by (cases m)
  let ?p = "pcbs ! i"
  have inv: "tcp_select pcbs loc (Some rem) = Some i" "tcb_state ?p = Established" "tcb_local ?p = loc" "tcb_remote ?p = rem"
    "ack \<le> snd_next (send_context ?p)" "unat (rcv_window (recv_context ?p)) + length (buf ?p) = 65535"
    "unat (rcv_next (recv_context ?p)) + b + 65535 < 4294967296"
    "reaches n (ep_address loc) (ep_address rem) hw" "unat (ctx_ip_id (contexts n)) + a \<le> 65535"
    using assms(1) unfolding conn_inv_def m Let_def by auto
  have i: "i < length pcbs" by (rule tcp_select_length [OF inv(1)])
  obtain c n1 where c: "mpsc_channel n = (c, n1)" by (rule prod.exhaust)
  have n1: "reaches n1 (ep_address loc) (ep_address rem) hw" "contexts n1 = contexts n"
    using c inv(8) reaches_mono [of n "ep_address loc" "ep_address rem" hw n1] by (auto simp: mpsc_channel_def)
  let ?q = "?p\<lparr>tcb_sender := Some c\<rparr>" and ?n2 = "drop_sender (tcb_sender ?p) n1"
  let ?m = "min (length (buf ?p)) k"
  have win: "unat (rcv_window (recv_context ?p)) < PCB_BUF_LEN" using inv(6) assms(2) by (cases "buf ?p") (auto simp: m PCB_BUF_LEN_def)
  define q where "q = ?q\<lparr>buf := drop ?m (buf ?p),
    recv_context := (recv_context ?p)\<lparr>rcv_window := rcv_window (recv_context ?p) + of_nat ?m\<rparr>\<rparr>"
  have t: "take_data i k None (pcbs[i := ?q]) = Ret (take ?m (buf ?p), pcbs[i := q])"
    "unat (rcv_window (recv_context q)) + length (buf q) = 65535"
    using take_data_fifo [of i "pcbs[i := ?q]" k None] i inv(6) by (simp_all add: q_def)
  have k: "take ?m (buf ?p) = take k (buf ?p)" by (simp add: min_def)
  have "receive_now i k m = Ret (Returned (Some (take k (buf ?p))), pcbs[i := q], drop_receiver c ?n2)"
    using i inv(2) c win t(1) [unfolded k]
    by (simp add: receive_now_def receive_begin_def receive_resume_def receive_branch_def m pcb_by_id_def get_mut_by_id_def not_le)
  moreover have "tcp_select (pcbs[i := q]) loc (Some rem) = Some i"
    using inv(1) by (subst tcp_select_update) (simp_all add: q_def)
  then have "conn_inv loc rem i ack hw a b (pcbs[i := q], drop_receiver c ?n2)"
    using inv i n1 t(2) by (simp add: conn_inv_def q_def Let_def)
  moreover have "buf ((pcbs[i := q]) ! i) = drop k (buf ?p)" using i by (simp add: q_def min_def)
  ultimately show ?thesis by (auto simp: m)
qed

interpretation connection: stream_receiver "conn_inv loc rem i ack hw" "\<lambda>m. buf (fst m ! i)" 65535
  "arrive loc rem i ack win" "receive_now i" for loc rem i ack hw win
proof unfold_locales
  fix a b and d :: bytes and m :: tcp_machine
  assume "conn_inv loc rem i ack hw (Suc a) (b + length d) m" "0 < length d" "length (buf (fst m ! i)) + length d \<le> 65535"
  then show "\<exists>m'. arrive loc rem i ack win d m = Ret m' \<and> conn_inv loc rem i ack hw a b m' \<and>
      buf (fst m' ! i) = buf (fst m ! i) @ d" by (rule arrive_ok)
next
  fix a b k and m :: tcp_machine
  assume "conn_inv loc rem i ack hw a b m" "buf (fst m ! i) \<noteq> []"
  then show "\<exists>m'. receive_now i k m = Ret (Returned (Some (take k (buf (fst m ! i)))), m') \<and>
      conn_inv loc rem i ack hw a b m' \<and> buf (fst m' ! i) = drop k (buf (fst m ! i))" by (rule receive_ok)
qed

end
