(* ===== verification/Spec2Isabelle.thy ===== *)
theory Spec2Isabelle
  imports Scenario Locks Tcp_States Tcp_Stream
begin

text \<open>
A verification of rust-user-net, a user-space network stack in Rust that speaks Ethernet,
  ARP, IP, ICMP, UDP and TCP through a TAP device on Linux.

  \<^bold>\<open>The program.\<close> One process with shared state behind four locks (devices, protocol queues,
  contexts with the ARP cache, the routes and the IP identification counter, and the UDP and TCP
  control blocks). A signal loop (\<^verbatim>\<open>main.rs\<close>) turns SIGIO into an interrupt of the TAP device,
  which reads a frame and queues its payload, and the raised software interrupt into the
  processing of these queues: ARP or IP input, and from there ICMP, UDP or TCP input, which may
  send answers and wake a waiting user command through a channel. A second thread runs the
  retransmission of TCP. The main command (TCP or UDP, send or receive) runs in a third. On a
  termination signal all sockets are closed.

  \<^bold>\<open>The theories\<close>, in the order of the code they model (paths below \<^verbatim>\<open>src/src\<close>):

    \<^item> \<open>Prelude\<close>: executions \<open>'a exec\<close> (\<open>Ret\<close> or a \<open>Fault\<close>: a panic, an arithmetic
      overflow, an index out of range, a failed unwrap, an out-of-bounds read), Rust's
      \<open>Result\<close>, checked arithmetic, slices, the images of integers in memory, and the
      simplification collections \<open>exec_simps\<close> and \<open>byte_simps\<close>.
    \<^item> \<open>Utils\<close>: \<^verbatim>\<open>utils/mod.rs\<close>, \<^verbatim>\<open>utils/byte.rs\<close>. Byte order, conversions between structs and
      bytes, the Internet checksum. The locale \<open>packed_struct\<close> is the contract of a wire format;
      it is interpreted for the Ethernet, ARP, IP, UDP and TCP headers.
    \<^item> \<open>Linked_List\<close>: \<^verbatim>\<open>utils/list.rs\<close>, with the locale \<open>sequence\<close> and its interpretation
      \<open>rust_list\<close>.
    \<^item> \<open>Ip_Addr\<close>: the address, endpoint, interface and route part of \<^verbatim>\<open>protocols/ip/mod.rs\<close>
      and \<^verbatim>\<open>net.rs\<close>.
    \<^item> \<open>Runtime\<close>: the environment as a record \<open>world\<close>: the clock and the random numbers as
      arbitrary functions of a counter of readings, the raised interrupts, and the channels of
      \<open>std::sync::mpsc\<close>.
    \<^item> \<open>Devices\<close>: \<^verbatim>\<open>devices/\<close>, \<^verbatim>\<open>drivers/\<close>, \<^verbatim>\<open>interrupt.rs\<close> and the queues of
      \<^verbatim>\<open>protocols/mod.rs\<close>. A device record holds the frames the TAP file will deliver, as an
      arbitrary function, and the frames written to it.
    \<^item> \<open>Arp\<close>: \<^verbatim>\<open>protocols/arp.rs\<close>, with the locale \<open>expiring_cache\<close> interpreted for the cache;
      \<open>Ip_Output\<close>: header construction and output of \<^verbatim>\<open>protocols/ip/mod.rs\<close>; \<open>Icmp\<close>:
      \<^verbatim>\<open>protocols/ip/icmp.rs\<close>.
    \<^item> \<open>Transport\<close>: what UDP and TCP share (pseudo header, search for free ports and blocks), with the
      locale \<open>block_table\<close> interpreted for both tables; \<open>Udp\<close>: \<^verbatim>\<open>protocols/ip/udp.rs\<close>.
    \<^item> \<open>Tcp_Pcb\<close>, \<open>Tcp_Input\<close>, \<open>Tcp_User\<close>: \<^verbatim>\<open>protocols/ip/tcp.rs\<close>: control blocks, selection,
      retransmission and output; the handler \<open>segment_arrives\<close>, one definition per numbered step;
      the user commands, split at the calls that block.
    \<^item> \<open>Protocols\<close>: IP input and dispatch, and \<open>handle_data\<close> of \<^verbatim>\<open>protocols/mod.rs\<close>.
    \<^item> \<open>App\<close>: \<^verbatim>\<open>app.rs\<close> and \<^verbatim>\<open>main.rs\<close>: the configuration, the handlers, the four commands as
      state machines (\<open>command_step\<close>) and the interleaving of all threads as the step relation
      \<open>sys_step\<close>. One step is one section of code between acquiring and releasing the locks; a command
      that waits on a channel with locks held blocks the steps that need them.
    \<^item> \<open>Locks\<close>: the same threads at the level of single acquisitions of the four locks: for each
      function that locks, the list of its lock operations (\<open>transmit_section\<close> and so on), and the
      interleaving of three threads as \<open>lock_step\<close>. The locale \<open>lock_client\<close> (balanced
      sections) gives mutual exclusion, its extension \<open>lock_order\<close> absence of deadlock; the
      program is an instance of the first, and of the second only without the functions that lock the
      blocks before the devices and the sends that wait for the window with locks held.
    \<^item> \<open>Shutdown\<close>: the end of \<^verbatim>\<open>main.rs\<close>, what closing the sockets does to a command that waits.
    \<^item> \<open>Tcp_States\<close>: the state diagram of the segment handler (\<open>arrival_edge\<close>), one lemma per
      check. \<open>Tcp_Stream\<close>: the locale \<open>stream_receiver\<close>, a queue of bytes fed by arrivals and emptied by
      reads, interpreted for \<open>segment_arrives\<close> and \<open>receive\<close>.
    \<^item> \<open>Tcp_Exchange\<close>: segments on the wire, and the segment handlers of two ends of a connection;
      \<open>End_To_End\<close>: two instances of the program that exchange frames.
      \<open>Scenario\<close>: concrete hosts, on which every property is instantiated.

  \<^bold>\<open>What is proved.\<close> Every function of the model is total: it returns a value or a fault, so
  an equation \<open>f x = Ret y\<close> also says that the code does not panic there. The groups of
  properties below: for the program as a whole, an invariant of both tables of control blocks in
  every reachable state, a deadlock of the signal loop with the retransmission thread and the
  absence of others among the sections that lock in order and do not wait, and which commands end at
  shutdown; between two hosts, the way of a segment and of a datagram from one program through the wire into the
  other's tables, ping, and address resolution from the first packet to the resolved neighbour,
  each through the complete path of interrupt, queue and input handler; for TCP, the agreement of the
  segment handlers of both ends of a three-way handshake (on decoded segments, not on frames), an established
  connection as a byte stream, the state diagram, the behaviour on data, resets and closed ports,
  the selection of blocks as a search, the receive buffer as a queue, and the limits of the
  implementation (a send that waits for the window never ends, a send right after a passive
  open panics, accepting is inverted, retransmission); UDP sockets and their demultiplexing; the
  configuration and longest-prefix routing; IP and ARP: every outcome of sending a packet, panics
  included, the round trip of a packet, and the cache as a map with expiry; frames, the checksum against a
  reference definition, and addresses against their text.

  \<^bold>\<open>Conventions and bounds.\<close> Machine integers have their width; \<open>+\<close>, \<open>-\<close> and indexing fault
  where a build with overflow checks panics. Memory images are those of a little-endian target.
  Loops are structural recursions or have a termination proof; the only loop whose end depends
  on its arguments is the one of \<open>send\<close> (\<open>send_segments\<close>, a partial function into
  \<open>option\<close>), whose termination is a property below. No definition uses fuel. Services of
  the operating system (\<open>tap_os\<close>, the input of the TAP file, the clock, random numbers) are
  parameters; a hypothesis on them is stated in the theorem that needs it, for example
  \<open>tap_os_ok\<close> (the system calls succeed) or \<open>reaches\<close> (a route exists and the next hop is in the
  ARP cache and stays fresh).

  \<^bold>\<open>Not modelled.\<close> Logging, the parsing of the command line by clap, the registration of signal
  handlers, the numbers of ioctl requests, the mutex inside the identification counter (taken and given back with the
  contexts locked), alignment of the structs read through raw pointers,
  and the unit tests. The effects of lock poisoning after a panic are not followed: a fault of
  any thread ends the run of the model.
\<close>

section \<open>The program as a whole\<close>

text \<open>
  C1: In every state the program reaches, from the configuration and the command that start-up
  builds and through any interleaving of signals, retransmission ticks, steps of the command
  and termination, both tables of control blocks satisfy their invariants: sixteen blocks
  each, no two bound UDP sockets overlap, una does not pass next in a TCP block that sends,
  free blocks hold nothing for retransmission, and references between blocks stay inside the
  table.
\<close>

theorem reachable_blocks_wf:
  assumes "main_start os w args = Ret s0" "(sys_step term_signals)\<^sup>*\<^sup>* s0 s"
  shows "blocks_wf (app_blocks (sys_app s))"
  by (rule main_reachable_wf [OF assms])

theorem reachable_blocks_wf_witness:
  "\<exists>s :: system. sys_command s \<noteq> TcpReceiveCommand tcp_thread_new \<and>
     tcb_state (tcp_blocks (app_blocks (sys_app s)) ! 0) = Listen \<and> blocks_wf (app_blocks (sys_app s))"
proof -
  let ?app = "config_app no_input host_hw quiet_world"
  have start: "main_start host_os quiet_world (TcpCommand (Some (EndPointReceive ''192.0.2.2'' ''7''))) =
      Ret (sys_init ?app (TcpReceiveCommand tcp_thread_new))"
    by (simp add: main_start_def app_run_def app_new_config [OF host_os_ok])
  obtain cmd st where c: "command_step False (TcpReceiveCommand tcp_thread_new) (app_stack ?app) = Some (Ret (cmd, st))"
    "cmd \<noteq> TcpReceiveCommand tcp_thread_new" "tcb_state (tcp_blocks (st_pcbs st) ! 0) = Listen"
    by (rule listen_step)
  have "sys_step [15] (sys_init ?app (TcpReceiveCommand tcp_thread_new))
      (sys_init (?app\<lparr>app_stack := st\<rparr>) cmd)"
    using step_command [of "sys_init ?app (TcpReceiveCommand tcp_thread_new)" cmd st "[15]"] c(1) by (simp add: sys_init_def)
  then have "blocks_wf (app_blocks (sys_app (sys_init (?app\<lparr>app_stack := st\<rparr>) cmd)))"
    by (intro reachable_blocks_wf [OF start] r_into_rtranclp)
  moreover have "sys_command (sys_init a cmd) = cmd" "sys_app (sys_init a cmd) = a" for a
    by (simp_all add: sys_init_def)
  ultimately show ?thesis
    using c(2,3) by (intro exI [of _ "sys_init (?app\<lparr>app_stack := st\<rparr>) cmd"]) simp
qed

text \<open>
  C2: The program can deadlock: with every command, the threads reach a state in which the
  signal loop holds the devices and waits for the control blocks while the retransmission
  thread holds the blocks and waits for the devices. From there on no thread ever acquires or
  releases a lock again.
\<close>

theorem deadlock_reachable:
  "\<exists>s. (lock_step (program_sections cmd))\<^sup>*\<^sup>* all_idle s \<and>
     DevicesLock \<in> held (s SignalThread) \<and> hd (todo (s SignalThread)) = Acquire PcbsLock \<and>
     PcbsLock \<in> held (s TransmitThread) \<and> hd (todo (s TransmitThread)) = Acquire DevicesLock \<and>
     stuck_forever (program_sections cmd) s"
  using crossed_reachable [of cmd] crossed_stuck [of cmd] crossed_facts by (intro exI [of _ crossed]) auto

text \<open>
  C3: Two things in the order of locks and waits can bring the threads to a standstill:
  locking the control blocks before the devices (the retransmission thread and rfc793_open),
  and the TCP send that waits for a message, the opening of the window, with the devices and
  contexts locked. All other sections of the program (the signal loop, closing, opening UDP
  sockets, receiving, sending over UDP, and TCP sends that need not wait), whatever way they
  interleave, never deadlock: while some thread has work left in a section, some thread can go
  on by itself.
\<close>

theorem devices_first_never_deadlocks:
  assumes "(lock_step (devices_first_sections cmd))\<^sup>*\<^sup>* all_idle s" "todo (s t) \<noteq> []"
  shows "\<exists>u. can_go_on s u"
  by (rule devices_first.no_deadlock [OF assms])

theorem devices_first_never_deadlocks_witness:
  "\<exists>u. can_go_on (all_idle(SignalThread := \<lparr>held = {}, todo = handle_irq_section\<rparr>)) u"
proof -
  let ?m = "devices_first_sections (UdpReceiveCommand udp_thread_new)"
  let ?s = "all_idle(SignalThread := \<lparr>held = {}, todo = handle_irq_section\<rparr>)"
  have "lock_step ?m all_idle ?s"
    using step_start [of all_idle SignalThread handle_irq_section ?m]
    by (simp add: all_idle_def devices_first_sections_def signal_sections_def)
  then have "(lock_step ?m)\<^sup>*\<^sup>* all_idle ?s" by (rule r_into_rtranclp [of "lock_step ?m"])
  moreover have "todo (?s SignalThread) \<noteq> []" by (simp add: section_defs)
  ultimately show ?thesis by (rule devices_first_never_deadlocks)
qed

text \<open>
  C4: A TCP command that waits for data ends on a termination signal: main sends the
  termination message, closing the sockets succeeds, and from then on, whatever way the
  threads interleave, every step of the command returns and brings it one step closer to its
  end, of which two are needed.
\<close>

theorem shutdown_ends_receiver:
  assumes "awaits_data s i" "\<forall>p \<in> set (udp_blocks (app_blocks (sys_app s))). udp_sender p = None"
    and "\<not> sys_stopping s" "\<not> sys_closed s" "sig \<in> set term_signals" "sig \<noteq> SIGHUP" "sig \<noteq> SIGUSR1"
  shows "\<exists>s1 s2. sys_step term_signals s s1 \<and> sys_stopping s1 \<and> sys_step term_signals s1 s2 \<and> sys_closed s2 \<and>
    sys_command s2 = sys_command s \<and>
    (\<forall>s'. (sys_step term_signals)\<^sup>*\<^sup>* s2 s' \<longrightarrow>
       (\<exists>t t' st'. command_tcp_thread (sys_command s') = Some t \<and>
          command_step True (sys_command s') (app_stack (sys_app s')) = Some (Ret (with_tcp_thread (sys_command s') t', st')) \<and>
          steps_left (tcp_phase_of t') = steps_left (tcp_phase_of t) - 1))"
proof -
  let ?s1 = "s\<lparr>sys_stopping := True\<rparr>"
  obtain app' where a: "app_close_sockets (sys_app s) = Ret app'" "sys_ending (?s1\<lparr>sys_app := app', sys_closed := True\<rparr>)"
    using close_sockets_ending [OF assms(1,2)] by auto
  have "sys_step term_signals s ?s1"
    using step_terminate [OF assms(3) _ awaits_not_ended [OF assms(1)], of term_signals sig "sys_app s"] assms(5-7)
    by (simp add: handle_signal_def)
  moreover have "sys_step term_signals ?s1 (?s1\<lparr>sys_app := app', sys_closed := True\<rparr>)"
    by (rule step_close) (use assms(4) a(1) in simp_all)
  ultimately show ?thesis
    using ending_goes_on [OF a(2), of term_signals]
    by (intro exI [of _ ?s1] exI [of _ "?s1\<lparr>sys_app := app', sys_closed := True\<rparr>"]) simp
qed

theorem shutdown_ends_receiver_witness:
  "\<exists>s1 s2. sys_step [15] receiving_system s1 \<and> sys_stopping s1 \<and> sys_step [15] s1 s2 \<and> sys_closed s2 \<and>
     sys_command s2 = sys_command receiving_system"
proof -
  have "\<not> sys_stopping receiving_system" "\<not> sys_closed receiving_system" "15 \<in> set [15 :: int]" "15 \<noteq> SIGHUP" "15 \<noteq> SIGUSR1"
    by (simp_all add: receiving_system_def sys_init_def SIGHUP_def SIGUSR1_def)
  from shutdown_ends_receiver [OF receiving_awaits receiving_udp this] show ?thesis by blast
qed

text \<open>
  C5: Shutdown can hang: when the termination signal arrives after the command "udp receive"
  has checked for termination and before it has stored its channel in the socket, closing the
  sockets tells nobody, and the command then waits for a message that never comes; the state
  does not change any more, and main waits for the thread.
\<close>

theorem shutdown_can_hang:
  assumes "tap_os_ok os file hw" "sig \<in> set term_signals" "sig \<noteq> SIGHUP" "sig \<noteq> SIGUSR1"
    and "main_start os w (UdpCommand (Some (EndPointReceive ip port))) = Ret s0"
  shows "\<exists>s t c. (sys_step term_signals)\<^sup>*\<^sup>* s0 s \<and> sys_stopping s \<and> sys_command s = UdpReceiveCommand t \<and>
    udp_phase_of t = UdpWaiting c \<and> (\<forall>s'. (sys_step term_signals)\<^sup>*\<^sup>* s s' \<longrightarrow> s' = s)"
proof -
  obtain s c where s: "(sys_step term_signals)\<^sup>*\<^sup>* s0 s" "sleeps_on c s" using lost_termination [OF assms] by blast
  then obtain t where "sys_stopping s" "sys_command s = UdpReceiveCommand t" "udp_phase_of t = UdpWaiting c"
    by (auto simp: sleeps_on_def)
  with s sleeps_forever show ?thesis by blast
qed

theorem shutdown_can_hang_witness:
  "\<exists>s t c. sys_stopping s \<and> sys_command s = UdpReceiveCommand t \<and> udp_phase_of t = UdpWaiting c \<and>
     (\<forall>s'. (sys_step [15])\<^sup>*\<^sup>* s s' \<longrightarrow> s' = s)"
proof -
  have "15 \<in> set [15 :: int]" "15 \<noteq> SIGHUP" "15 \<noteq> SIGUSR1" by (simp_all add: SIGHUP_def SIGUSR1_def)
  moreover have "main_start host_os quiet_world (UdpCommand (Some (EndPointReceive ''192.0.2.2'' ''7''))) =
      Ret (sys_init (config_app no_input host_hw quiet_world) (UdpReceiveCommand udp_thread_new))"
    by (simp add: main_start_def app_run_def app_new_config [OF host_os_ok])
  ultimately show ?thesis using shutdown_can_hang [OF host_os_ok] by metis
qed

section \<open>Two hosts\<close>

text \<open>
  C6: A TCP segment with 6 to 1460 bytes of data that one host sends to a resolved neighbour
  is one Ethernet frame; when the neighbour's TAP device reads that frame, the interrupt
  handler and the protocol handler of its program give exactly the same sequence number,
  acknowledgement, flags, window and data to the segment handler, with the endpoints swapped,
  and the program's state becomes what that handler returns.
\<close>

theorem segment_travels:
  assumes "reaches n (ep_address loc) (ep_address rem) hw" "ctx_ip_id (contexts n) \<noteq> 0xffff"
    and "6 \<le> length data" "length data \<le> 1460"
  shows "\<exists>n' fr. output_segment seq ack flags window data loc rem n = Ret (length data, n') \<and>
    tap_sent (device n') = tap_sent (device n) @ [fr] \<and>
    (\<forall>app eth iface pcbs' n3. receiver app eth hw (ep_address rem) \<longrightarrow> about_to_read eth fr \<longrightarrow>
       get_interface eth IP_Family = Some iface \<longrightarrow> unicast_pair (ep_address loc) (ep_address rem) iface \<longrightarrow>
       segment_arrives (segment_of seq ack flags window data) flags data (length data) rem loc
         (tcp_blocks (app_blocks app), interrupted app eth) = Ret (pcbs', n3) \<longrightarrow>
       (\<exists>app1 app2. app_handle_irq IRQ_ETHERNET app = Ret app1 \<and> app_handle_protocol app1 = Ret app2 \<and>
          app_blocks app2 = (app_blocks app)\<lparr>tcp_blocks := pcbs'\<rparr> \<and> st_contexts (app_stack app2) = contexts n3 \<and>
          st_world (app_stack app2) = world_of n3))"
  by (rule tcp_end_to_end [OF assms, of seq ack flags window]) blast

theorem segment_travels_witness:
  "\<exists>fr app1 app2 p. app_handle_irq IRQ_ETHERNET (peer_app fr peer_blocks) = Ret app1 \<and>
     app_handle_protocol app1 = Ret app2 \<and> tcp_blocks (app_blocks app2) = one_block p \<and> buf p = [1, 2, 3, 4, 5, 6]"
proof -
  let ?data = "[1, 2, 3, 4, 5, 6] :: bytes"
  let ?seg = "segment_of 1001 5001 flag_ack 65535 ?data"
  have "reaches host_net (ep_address host_ep) (ep_address gw_ep) gw_mac" "ctx_ip_id (contexts host_net) \<noteq> 0xffff"
    "6 \<le> length ?data" "length ?data \<le> 1460"
    by simp_all
  from segment_travels [OF this, of 1001 5001 flag_ack 65535] show ?thesis
  proof (elim exE conjE, goal_cases)
    case (1 n' fr)
    let ?app = "peer_app fr peer_blocks"
    obtain p n3 where p: "segment_arrives ?seg flag_ack ?data (length ?data) gw_ep host_ep
        (one_block peer_pcb, interrupted ?app (peer_device fr)) = Ret (one_block p, n3)" "buf p = ?data"
      by (rule peer_data [of "interrupted ?app (peer_device fr)" ?data]) simp_all
    from 1(3) [rule_format, of ?app "peer_device fr" peer_interface "one_block p" n3] p(1) obtain app1 app2 where
      "app_handle_irq IRQ_ETHERNET ?app = Ret app1" "app_handle_protocol app1 = Ret app2"
      "app_blocks app2 = peer_blocks\<lparr>tcp_blocks := one_block p\<rparr>" by auto
    with p(2) show ?case
      by (intro exI [of _ fr] exI [of _ app1] exI [of _ app2] exI [of _ p]) simp
  qed
qed

text \<open>
  C7: A UDP datagram with 18 to 1472 bytes of data sent to a resolved neighbour is one frame;
  when the neighbour reads it and has a socket bound to the destination with a waiting
  receiver, exactly one entry with the sender's endpoint and the data is appended to that
  socket, nothing else changes in the tables, and the receiver is woken.
\<close>

theorem datagram_travels:
  assumes "reaches n (ep_address src) (ep_address dst) hw" "ctx_ip_id (contexts n) \<noteq> 0xffff"
    and "18 \<le> length data" "length data \<le> 1472"
  shows "\<exists>n' fr. udp_output src dst data n = Ret n' \<and> tap_sent (device n') = tap_sent (device n) @ [fr] \<and>
    (\<forall>app eth i ch. receiver app eth hw (ep_address dst) \<longrightarrow> about_to_read eth fr \<longrightarrow>
       udp_get_by_host (udp_blocks (app_blocks app)) (ep_address dst) (ep_port dst) = Some i \<longrightarrow>
       udp_sender (udp_blocks (app_blocks app) ! i) = Some ch \<longrightarrow> ch < length (chans (st_world (app_stack app))) \<longrightarrow>
       ch_receiver (chans (st_world (app_stack app)) ! ch) \<longrightarrow>
       (\<exists>app1 app2. app_handle_irq IRQ_ETHERNET app = Ret app1 \<and> app_handle_protocol app1 = Ret app2 \<and>
          app_blocks app2 = (app_blocks app)\<lparr>udp_blocks := (udp_blocks (app_blocks app))[i :=
            (udp_blocks (app_blocks app) ! i)\<lparr>data_entries := data_entries (udp_blocks (app_blocks app) ! i) @
              [\<lparr>ude_remote = src, ude_len = length data, ude_data = data\<rparr>]\<rparr>]\<rparr> \<and>
          ch_queue (chans (st_world (app_stack app2)) ! ch) = ch_queue (chans (st_world (app_stack app)) ! ch) @ [True]))"
  by (rule udp_end_to_end [OF assms]) blast

theorem datagram_travels_witness:
  "\<exists>fr app1 app2. app_handle_irq IRQ_ETHERNET (peer_app fr peer_blocks) = Ret app1 \<and>
     app_handle_protocol app1 = Ret app2 \<and>
     data_entries (udp_blocks (app_blocks app2) ! 0) = [\<lparr>ude_remote = host_ep, ude_len = 20, ude_data = replicate 20 65\<rparr>]"
proof -
  have "reaches host_net (ep_address host_ep) (ep_address gw_ep) gw_mac" "ctx_ip_id (contexts host_net) \<noteq> 0xffff"
    "18 \<le> length (replicate 20 65 :: bytes)" "length (replicate 20 65 :: bytes) \<le> 1472"
    by simp_all
  from datagram_travels [OF this] show ?thesis
  proof (elim exE conjE, goal_cases)
    case (1 n' fr)
    from 1(3) [rule_format, of "peer_app fr peer_blocks" "peer_device fr" 0 0] obtain app1 app2 where
      "app_handle_irq IRQ_ETHERNET (peer_app fr peer_blocks) = Ret app1" "app_handle_protocol app1 = Ret app2"
      "app_blocks app2 = peer_blocks\<lparr>udp_blocks := (udp_blocks peer_blocks)[0 := bound_pcb\<lparr>data_entries := data_entries bound_pcb @
         [\<lparr>ude_remote = host_ep, ude_len = length (replicate 20 65 :: bytes), ude_data = replicate 20 65\<rparr>]\<rparr>]\<rparr>"
      by (auto simp: bound_sender open_channel_def)
    then show ?case
      by (intro exI [of _ fr] exI [of _ app1] exI [of _ app2]) (simp add: peer_blocks_def bound_pcb_def)
  qed
qed

text \<open>
  C8: An ICMP echo request of 26 to 1480 bytes with a correct checksum, addressed to a host
  that has resolved the sender, is answered: the host's handlers return, its control blocks
  are unchanged, and it has written one frame more, to the sender, with type echo reply, the
  same code, identifier, sequence number and payload, and a checksum that verifies.
\<close>

theorem echo_answered:
  assumes "receiver app eth hw dst" "about_to_read eth (ip_frame Icmp src dst hw req n)" "tap_ready (device n)"
    and "26 \<le> length req" "length req \<le> 1480" "req ! 0 = ICMP_TYPE_ECHO" "cksum16 req (length req) 0 = Ret 0"
    and "reaches (interrupted app eth) dst src hw'" "ctx_ip_id (st_contexts (app_stack app)) \<noteq> 0xffff"
  shows "\<exists>app1 app2 c lo eth2. app_handle_irq IRQ_ETHERNET app = Ret app1 \<and> app_handle_protocol app1 = Ret app2 \<and>
    app_blocks app2 = app_blocks app \<and> list_iter (st_devices (app_stack app2)) = [lo, eth2] \<and>
    tap_sent eth2 = tap_sent eth @ [ip_frame Icmp dst src hw' (echo_reply req c) (interrupted app eth)] \<and>
    take 2 (echo_reply req c) = [ICMP_TYPE_ECHOREPLY, req ! 1] \<and> drop 4 (echo_reply req c) = drop 4 req \<and>
    cksum16 (echo_reply req c) (length req) 0 = Ret 0"
proof -
  have reply: "take 2 (echo_reply req c) = [ICMP_TYPE_ECHOREPLY, req ! 1]" "drop 4 (echo_reply req c) = drop 4 req" for c
    by (rule echo_reply_fields)+
  show ?thesis
    by (rule icmp_end_to_end [OF assms]) (use reply in blast)
qed

theorem echo_answered_witness:
  "\<exists>app1 app2. app_handle_irq IRQ_ETHERNET echo_app = Ret app1 \<and> app_handle_protocol app1 = Ret app2 \<and>
     app_blocks app2 = peer_blocks"
proof -
  have "receiver echo_app (peer_device echo_frame) gw_mac gw_ip"
    "about_to_read (peer_device echo_frame) (ip_frame Icmp host_ip gw_ip gw_mac echo_request host_net)"
    "tap_ready (device host_net)" "26 \<le> length echo_request" "length echo_request \<le> 1480"
    "echo_request ! 0 = ICMP_TYPE_ECHO" "cksum16 echo_request (length echo_request) 0 = Ret 0"
    "reaches (interrupted echo_app (peer_device echo_frame)) gw_ip host_ip host_mac"
    "ctx_ip_id (st_contexts (app_stack echo_app)) \<noteq> 0xffff"
    by (simp_all add: echo_app_def echo_request_facts flip: echo_frame_def)
  from echo_answered [OF this] show ?thesis by (auto simp: echo_app_def)
qed

text \<open>
  C9: Address resolution between two hosts, through the whole path of interrupt, queue and
  handler: the first packet to a next hop that is not in the cache writes one frame; the next
  hop that reads this frame answers with one frame; and when the first host reads the answer,
  the next hop is resolved to the answering hardware address, so that packets reach it until
  the entry is four hours old.
\<close>

theorem address_resolution:
  assumes "lookup_ip_route (ctx_ip_routes (contexts n)) dst = Some route" "unicast (rt_interface route) = src"
    and "\<not> is_broadcast dst route" "needs_arp n" "tap_ready (device n)"
    and "take 6 (dev_broadcast (device n)) = ETH_ADDR_BROADCAST" "ctx_ip_id (contexts n) \<noteq> 0xffff"
    and "length data \<le> 65515" "ctx_arp_table (contexts n) (next_hop_of route dst) = None"
  shows "\<exists>n1 fr1. ip_output p data src dst n = Ret (Ok (), n1) \<and> tap_sent (device n1) = tap_sent (device n) @ [fr1] \<and>
    (\<forall>b ethb hwb. receiver b ethb hwb (next_hop_of route dst) \<longrightarrow> tap_ready ethb \<longrightarrow> about_to_read ethb fr1 \<longrightarrow>
       (\<exists>b1 b2 lo ethb' fr2. app_handle_irq IRQ_ETHERNET b = Ret b1 \<and> app_handle_protocol b1 = Ret b2 \<and>
          list_iter (st_devices (app_stack b2)) = [lo, ethb'] \<and> tap_sent ethb' = tap_sent ethb @ [fr2] \<and>
          (\<forall>a eth t. receiver a eth (dev_mac (device n)) src \<longrightarrow> tap_ready eth \<longrightarrow> dev_flags eth = dev_flags (device n) \<longrightarrow>
             about_to_read eth fr2 \<longrightarrow> st_contexts (app_stack a) = contexts n1 \<longrightarrow>
             t = clock (st_world (app_stack a)) (readings (st_world (app_stack a))) \<longrightarrow>
             (\<exists>a1 a2 lo eth'. app_handle_irq IRQ_ETHERNET a = Ret a1 \<and> app_handle_protocol a1 = Ret a2 \<and>
                list_iter (st_devices (app_stack a2)) = [lo, eth'] \<and>
                (\<forall>w. (\<forall>k \<ge> readings w. t \<le> clock w k \<and> arp_fresh t (clock w k)) \<longrightarrow>
                   reaches (net_of eth' (st_contexts (app_stack a2)) w) src dst hwb)))))"
  by (rule arp_resolution [OF assms, of p]) blast

theorem address_resolution_witness:
  "\<exists>n1 fr1 b1 b2. ip_output Udp [72, 105] host_ip gw_ip cold_net = Ret (Ok (), n1) \<and>
     app_handle_irq IRQ_ETHERNET (peer_app fr1 peer_blocks) = Ret b1 \<and> app_handle_protocol b1 = Ret b2"
proof -
  have "lookup_ip_route (ctx_ip_routes (contexts cold_net)) gw_ip = Some gw_route" "unicast (rt_interface gw_route) = host_ip"
    "\<not> is_broadcast gw_ip gw_route" "needs_arp cold_net" "tap_ready (device cold_net)"
    "take 6 (dev_broadcast (device cold_net)) = ETH_ADDR_BROADCAST" "ctx_ip_id (contexts cold_net) \<noteq> 0xffff"
    "length ([72, 105] :: bytes) \<le> 65515" "ctx_arp_table (contexts cold_net) (next_hop_of gw_route gw_ip) = None"
    by (simp_all add: eth_broadcast arp_table_new_def)
  from address_resolution [OF this, of Udp] obtain n1 fr1 where "ip_output Udp [72, 105] host_ip gw_ip cold_net = Ret (Ok (), n1)"
    and "receiver (peer_app fr1 peer_blocks) (peer_device fr1) gw_mac gw_ip \<longrightarrow> tap_ready (peer_device fr1) \<longrightarrow>
      about_to_read (peer_device fr1) fr1 \<longrightarrow>
      (\<exists>b1 b2. app_handle_irq IRQ_ETHERNET (peer_app fr1 peer_blocks) = Ret b1 \<and> app_handle_protocol b1 = Ret b2)"
    by (metis gw_route_facts)
  then show ?thesis by simp blast
qed

text \<open>
  C10: A TCP segment with no data (every SYN, SYN-ACK, ACK and RST), or with 2 or 4 bytes, is
  sent in a padded frame. A host running this stack that reads the frame counts the padding as
  part of the segment, finds the checksum wrong, and its protocol handler panics on the error.
\<close>

theorem short_segment_panics:
  assumes "reaches n (ep_address loc) (ep_address rem) hw" "ctx_ip_id (contexts n) \<noteq> 0xffff"
    and "length data < 6" "even (length data)"
  shows "\<exists>n' fr. output_segment seq ack flags window data loc rem n = Ret (length data, n') \<and>
    tap_sent (device n') = tap_sent (device n) @ [fr] \<and>
    (\<forall>app eth. receiver app eth hw (ep_address rem) \<longrightarrow> about_to_read eth fr \<longrightarrow>
       (\<exists>app1. app_handle_irq IRQ_ETHERNET app = Ret app1 \<and> app_handle_protocol app1 = Fault UnwrapFailed))"
  by (rule tcp_short_panics [OF assms, of seq ack flags window]) blast

theorem short_segment_panics_witness:
  "\<exists>fr app1. app_handle_irq IRQ_ETHERNET (peer_app fr peer_blocks) = Ret app1 \<and>
     app_handle_protocol app1 = Fault UnwrapFailed"
proof -
  have "reaches host_net (ep_address host_ep) (ep_address gw_ep) gw_mac" "ctx_ip_id (contexts host_net) \<noteq> 0xffff"
    "length ([] :: bytes) < 6" "even (length ([] :: bytes))"
    by simp_all
  from short_segment_panics [OF this, of 1000 0 flag_syn 65535] show ?thesis
  proof (elim exE conjE, goal_cases)
    case (1 n' fr)
    from 1(3) [rule_format, of "peer_app fr peer_blocks" "peer_device fr"] show ?case by auto
  qed
qed

text \<open>
  C11: A UDP datagram with fewer than 18 bytes of data is sent in a padded frame, and a host
  running this stack that reads the frame panics: the IP layer passes the padding on, and the
  padded length differs from the length in the UDP header.
\<close>

theorem short_datagram_panics:
  assumes "reaches n (ep_address src) (ep_address dst) hw" "ctx_ip_id (contexts n) \<noteq> 0xffff" "length data < 18"
  shows "\<exists>n' fr. udp_output src dst data n = Ret n' \<and> tap_sent (device n') = tap_sent (device n) @ [fr] \<and>
    (\<forall>app eth. receiver app eth hw (ep_address dst) \<longrightarrow> about_to_read eth fr \<longrightarrow>
       (\<exists>app1. app_handle_irq IRQ_ETHERNET app = Ret app1 \<and> app_handle_protocol app1 = Fault Panicked))"
  by (rule udp_short_panics [OF assms]) blast

theorem short_datagram_panics_witness:
  "\<exists>fr app1. app_handle_irq IRQ_ETHERNET (peer_app fr peer_blocks) = Ret app1 \<and>
     app_handle_protocol app1 = Fault Panicked"
proof -
  have "reaches host_net (ep_address host_ep) (ep_address gw_ep) gw_mac" "ctx_ip_id (contexts host_net) \<noteq> 0xffff"
    "length ([72, 105] :: bytes) < 18"
    by simp_all
  from short_datagram_panics [OF this] show ?thesis
  proof (elim exE conjE, goal_cases)
    case (1 n' fr)
    from 1(3) [rule_format, of "peer_app fr peer_blocks" "peer_device fr"] show ?case by auto
  qed
qed

section \<open>TCP\<close>

text \<open>
  C12: The segment handlers of both ends of a three-way handshake fit together. Given the SYN,
  the handler of a block that listens in RFC 793 mode (not a socket) returns and writes the
  frame of the SYN-ACK; given a segment with exactly these numbers, the handler of the block
  in SYN-SENT returns and writes the frame of the ACK; given a segment with those numbers, the
  handler of the listener returns, and both blocks are ESTABLISHED with mirrored endpoints,
  each side's next sequence number being what the other expects. The segments are handed to
  the handlers as decoded values: this is the agreement of the two state machines, not the
  delivery of the frames (a peer that runs this very stack would not accept these frames,
  because it does not cut off their padding). The initial sequence number is at most
  0xfffeffff, since sequence arithmetic does not wrap.
\<close>

theorem handshake_synchronizes:
  assumes "tcp_select cs loc (Some rem) = Some i" "tcb_state (cs ! i) = SynSent"
    and "tcb_local (cs ! i) = loc" "tcb_remote (cs ! i) = rem" "snd_una (send_context (cs ! i)) = iss (cs ! i)"
    and "snd_next (send_context (cs ! i)) = iss (cs ! i) + 1" "iss (cs ! i) < 0xffff0000"
    and "reaches nc (ep_address loc) (ep_address rem) hws" "ctx_ip_id (contexts nc) \<noteq> 0xffff"
    and "tcp_select ss rem (Some loc) = Some j" "tcb_state (ss ! j) = Listen" "tcb_mode (ss ! j) \<noteq> Socket"
    and "parent_id (ss ! j) = None" "reaches ns (ep_address rem) (ep_address loc) hwc"
    and "ctx_ip_id (contexts ns) \<noteq> 0xffff" "rng ns (draws ns) = isn" "isn < 0xffffffff"
  shows "\<exists>ss1 ns1 c1 cs1 nc1 c2 ss2.
    segment_arrives (segment_of (iss (cs ! i)) ack flag_syn win []) flag_syn [] 0 rem loc (ss, ns) = Ret (ss1, ns1) \<and>
    tcp_frame_to rem loc hwc (tcp_segment isn (iss (cs ! i) + 1) flag_syn_ack 65535 [] rem loc c1) ns ns1 \<and>
    segment_arrives (segment_of isn (iss (cs ! i) + 1) flag_syn_ack 65535 []) flag_syn_ack [] 0 loc rem (cs, nc) =
      Ret (cs1, wake (tcb_sender (cs ! i)) True nc1) \<and>
    tcp_frame_to loc rem hws (tcp_segment (iss (cs ! i) + 1) (isn + 1) flag_ack
      (rcv_window (recv_context (cs ! i))) [] loc rem c2) nc nc1 \<and>
    segment_arrives (segment_of (iss (cs ! i) + 1) (isn + 1) flag_ack (rcv_window (recv_context (cs ! i))) [])
      flag_ack [] 0 rem loc (ss1, ns1) = Ret (ss2, wake (tcb_sender (ss ! j)) True ns1) \<and>
    synchronized (cs1 ! i) (ss2 ! j)"
  by (rule three_way_handshake [OF assms(1-15), where ack = ack and win = win])
    (use assms(16,17) in blast)+

theorem handshake_synchronizes_witness:
  "\<exists>cs1 ss2. synchronized (cs1 ! 0) (ss2 ! 0) \<and>
     (\<exists>nc1. segment_arrives (segment_of 1000 1001 flag_syn_ack 65535 []) flag_syn_ack [] 0 host_ep gw_ep
        (one_block syn_pcb, host_net) = Ret (cs1, nc1))"
  using handshake_synchronizes [of "one_block syn_pcb" host_ep gw_ep 0 host_net gw_mac "one_block listen_pcb" 0 peer_net
      host_mac 1000 0 65535]
  by fastforce

text \<open>
  C13: An established connection is a byte stream: for every sequence of segments that fit the
  window and of calls of receive, as long as sequence and identification numbers last, no
  handler fails, and the bytes returned by receive followed by those still buffered are
  exactly the bytes that arrived, in order.
\<close>

theorem byte_stream:
  assumes "conn_inv loc rem i ack hw (arrivals es) (length (arrived es)) m" "fits 65535 (length (buf (fst m ! i))) es"
  shows "\<exists>out m'. run_events (arrive loc rem i ack win) (receive_now i) es m = Ret (out, m') \<and>
    out @ buf (fst m' ! i) = buf (fst m ! i) @ arrived es"
  using connection.stream_fifo [of loc rem i ack hw es 0 0 m win] assms by auto

theorem byte_stream_witness:
  "\<exists>out m'. run_events (arrive gw_ep host_ep 0 5001 65535) (receive_now 0)
     [Arrival [1, 2, 3], Reading 2, Arrival [4], Reading 10] (one_block peer_pcb, peer_net) = Ret (out, m') \<and>
     out @ buf (fst m' ! 0) = [1, 2, 3, 4]"
proof -
  let ?es = "[Arrival [1, 2, 3], Reading 2, Arrival [4], Reading 10]" and ?m = "(one_block peer_pcb, peer_net)"
  have "conn_inv gw_ep host_ep 0 5001 host_mac (arrivals ?es) (length (arrived ?es)) ?m"
    by (simp add: conn_inv_def)
  moreover have "fits 65535 (length (buf (fst ?m ! 0))) ?es" by simp
  ultimately show ?thesis using byte_stream [of gw_ep host_ep 0 5001 host_mac ?es ?m 65535] by simp
qed

text \<open>
  C14: The segment handler implements a state diagram: on every segment it accepts, at most
  one block changes its state, and that change is an edge of the diagram for the flags of the
  segment.
\<close>

theorem tcp_state_machine:
  assumes "segment_arrives seg flags data len loc rem m = Ret m'"
  shows "\<exists>i st'. pcb_states m' = (pcb_states m)[i := st'] \<and>
    (i < length (fst m) \<longrightarrow> st' = tcb_state (fst m ! i) \<or> arrival_edge flags (tcb_state (fst m ! i)) st')"
  by (rule segment_arrives_state [OF assms])

theorem tcp_state_machine_witness:
  "\<exists>m' i st'. segment_arrives (segment_of 1001 5001 flag_ack 65535 [1, 2, 3]) flag_ack [1, 2, 3] (length [1, 2, 3 :: u8])
     gw_ep host_ep (one_block peer_pcb, peer_net) = Ret m' \<and> pcb_states m' = (pcb_states (one_block peer_pcb, peer_net))[i := st']"
proof -
  obtain p n where "segment_arrives (segment_of 1001 5001 flag_ack 65535 [1, 2, 3]) flag_ack [1, 2, 3] (length [1, 2, 3 :: u8])
      gw_ep host_ep (one_block peer_pcb, peer_net) = Ret (one_block p, n)"
    by (rule peer_data [of peer_net "[1, 2, 3]"]) simp_all
  with tcp_state_machine [OF this] show ?thesis by blast
qed

text \<open>
  C15: Data in order on an established connection: a segment that starts at the next expected
  octet and fits the window is appended to the receive buffer, the next expected octet and the
  window move by its length, its acknowledgement is applied to the send side, an ACK with the
  new numbers is sent, and the reader is woken. The window must not reach past the largest
  sequence number.
\<close>

theorem data_stored_and_acknowledged:
  assumes "tcp_select pcbs loc (Some rem) = Some i" "tcb_state (pcbs ! i) = Established"
    and "tcb_local (pcbs ! i) = loc" "tcb_remote (pcbs ! i) = rem"
    and "tcp_flag_exists flags ACK" "\<not> tcp_flag_exists flags RST" "\<not> tcp_flag_exists flags SYN"
      "\<not> tcp_flag_exists flags FIN"
    and "seg_seq seg = rcv_next (recv_context (pcbs ! i))" "seg_len seg = of_nat (length data)"
      "seg_ack seg \<le> snd_next (send_context (pcbs ! i))"
    and "0 < length data" "length data \<le> unat (rcv_window (recv_context (pcbs ! i)))"
      "unat (rcv_next (recv_context (pcbs ! i))) + unat (rcv_window (recv_context (pcbs ! i))) < 4294967296"
    and "reaches n (ep_address loc) (ep_address rem) hw" "ctx_ip_id (contexts n) \<noteq> 0xffff"
  shows "\<exists>n1 c. segment_arrives seg flags data (length data) loc rem (pcbs, n) =
      Ret (pcbs[i := (ack_applied seg (pcbs ! i))\<lparr>buf := buf (pcbs ! i) @ data,
        recv_context := (recv_context (pcbs ! i))\<lparr>
          rcv_next := rcv_next (recv_context (pcbs ! i)) + of_nat (length data),
          rcv_window := rcv_window (recv_context (pcbs ! i)) - of_nat (length data)\<rparr>\<rparr>],
        wake (tcb_sender (pcbs ! i)) True n1) \<and>
    tcp_frame_to loc rem hw (tcp_segment (snd_next (send_context (pcbs ! i)))
      (rcv_next (recv_context (pcbs ! i)) + of_nat (length data)) flag_ack
      (rcv_window (recv_context (pcbs ! i)) - of_nat (length data)) [] loc rem c) n n1"
  by (rule data_in_order [OF assms]) blast

theorem data_stored_and_acknowledged_witness:
  "\<exists>p n3. segment_arrives (segment_of 1001 5001 flag_ack 65535 [72, 105]) flag_ack [72, 105]
     (length [72, 105 :: u8]) gw_ep host_ep (one_block peer_pcb, peer_net) = Ret (one_block p, n3) \<and>
     buf p = [72, 105]"
proof (rule data_stored_and_acknowledged [of "one_block peer_pcb" gw_ep host_ep 0 flag_ack
      "segment_of 1001 5001 flag_ack 65535 [72, 105]" "[72, 105]" peer_net host_mac, THEN exE], goal_cases)
  case (17 n1)
  then show ?case by auto
qed (simp_all add: segment_of_def segment_length_def)

text \<open>
  C16: Reading takes the oldest bytes of the receive buffer, at most as many as asked for (and
  as the loop saw), leaves the rest in order, and opens the window by what was read: window
  and buffered bytes together do not change.
\<close>

theorem receive_buffer_fifo:
  assumes "i < length pcbs" "unat (rcv_window (recv_context (pcbs ! i))) + length (buf (pcbs ! i)) \<le> 65535"
  shows "\<exists>m pcbs'. take_data i k r pcbs = Ret (take m (buf (pcbs ! i)), pcbs') \<and>
    m = min (length (buf (pcbs ! i))) (case r of None \<Rightarrow> k | Some x \<Rightarrow> min k x) \<and>
    buf (pcbs' ! i) = drop m (buf (pcbs ! i)) \<and>
    unat (rcv_window (recv_context (pcbs' ! i))) + length (buf (pcbs' ! i)) =
      unat (rcv_window (recv_context (pcbs ! i))) + length (buf (pcbs ! i))"
  using take_data_fifo [OF assms, of k r] assms(1) by (cases r) simp_all

theorem receive_buffer_fifo_witness:
  "\<exists>pcbs'. take_data 0 2048 None (one_block (peer_pcb\<lparr>buf := [72, 105],
     recv_context := (recv_context peer_pcb)\<lparr>rcv_window := 65533\<rparr>\<rparr>)) = Ret ([72, 105], pcbs')"
  using receive_buffer_fifo [of 0 "one_block (peer_pcb\<lparr>buf := [72, 105],
     recv_context := (recv_context peer_pcb)\<lparr>rcv_window := 65533\<rparr>\<rparr>)" 2048 None]
  by auto

text \<open>
  C17: A TCP send command whose send waits for the peer's window never goes on: it keeps the
  locks of the devices and of the contexts while it waits, so neither the signal loop (which
  would process the acknowledgement that opens the window) nor the retransmission thread can
  run. Every run from such a state leaves it unchanged until a termination signal arrives.
\<close>

theorem sender_waits_forever:
  assumes "waits_for_window s" "(sys_step term_signals)\<^sup>*\<^sup>* s s'"
  shows "s' = s \<or> sys_stopping s'"
  by (rule waits_forever [OF assms(2,1)])

theorem sender_waits_forever_witness:
  "waits_for_window waiting_system \<and> sys_step [15] waiting_system waiting_system \<and>
   (waiting_system = waiting_system \<or> sys_stopping waiting_system)"
  using sender_waits_forever [OF waiting_system_waits, of "[15]" waiting_system]
    waiting_system_waits waiting_system_step [of "[15]"] by blast

text \<open>
  C18: The loop of send that cuts the data into segments ends for every table, network and
  capacity once the maximum segment size is positive: each round sends at least one byte,
  waits for the window, or fails.
\<close>

theorem send_loop_terminates:
  assumes "0 < mss"
  shows "\<exists>r. send_segments i data mss cap sent m = Some r"
  by (rule send_segments_returns [OF assms])

theorem send_loop_terminates_witness:
  "\<exists>r. send_segments 0 [72, 105] 1460 (Ret 65535) 0 (open_pcbs, host_net) = Some r"
  using send_loop_terminates [of 1460] by simp

text \<open>
  C19: The one-pass scan that selects the control block of a segment is equal to a two-stage
  search: the first block whose local endpoint matches and whose remote address is the
  sender's, whatever its state and remote port; failing that, the last matching listener
  without a remote endpoint.
\<close>

theorem tcp_select_correct:
  "tcp_select pcbs loc (Some rem) =
     (case first_index (\<lambda>p. local_match loc p \<and> ep_address (tcb_remote p) = ep_address rem) pcbs of
        Some k \<Rightarrow> Some k
      | None \<Rightarrow> last_index (\<lambda>p. local_match loc p \<and> open_listener p) pcbs)"
proof -
  have "exact_match loc rem = (\<lambda>p. local_match loc p \<and> ep_address (tcb_remote p) = ep_address rem)"
    "listen_match loc = (\<lambda>p. local_match loc p \<and> open_listener p)"
    by (simp_all add: fun_eq_iff exact_match_def listen_match_def)
  then show ?thesis using tcp_select_spec [of pcbs loc rem] by (simp cong: option.case_cong)
qed

text \<open>
  C20: A segment without RST for which there is no block, or only a closed one, changes no
  block and is answered by one RST: with the acknowledged number as its sequence number if the
  segment has ACK, otherwise with sequence number zero and an acknowledgement of everything
  received.
\<close>

theorem closed_port_answers_reset:
  assumes "\<And>i. tcp_select pcbs loc (Some rem) = Some i \<Longrightarrow> tcb_state (pcbs ! i) = Closed"
    and "\<not> tcp_flag_exists flags RST" "reaches n (ep_address loc) (ep_address rem) hw" "ctx_ip_id (contexts n) \<noteq> 0xffff"
    and "tcp_flag_exists flags ACK \<or> unat (seg_seq seg) + unat (seg_len seg) < 4294967296"
  shows "\<exists>c. segment_arrives seg flags data len loc rem (pcbs, n) =
    Ret (pcbs, ip_sent Tcp (ep_address loc) (ep_address rem) hw
      (if tcp_flag_exists flags ACK then tcp_segment (seg_ack seg) 0 flag_rst 0 [] loc rem c
       else tcp_segment 0 (seg_seq seg + ucast (seg_len seg)) flag_rst_ack 0 [] loc rem c) n)"
  by (rule closed_port_reset [OF assms]) blast+

theorem closed_port_answers_reset_witness:
  "\<exists>c. segment_arrives (segment_of 1000 0 flag_syn 65535 []) flag_syn [] 0 host_ep gw_ep (tcp_pcbs_new, host_net) =
     Ret (tcp_pcbs_new, ip_sent Tcp host_ip gw_ip gw_mac (tcp_segment 0 1001 flag_rst_ack 0 [] host_ep gw_ep c) host_net)"
proof -
  let ?seg = "segment_of 1000 0 flag_syn 65535 []"
  have s: "tcp_select tcp_pcbs_new host_ep (Some gw_ep) = None"
    by (simp add: tcp_select_def tcp_pcbs_new_def select_new)
  have l: "seg_len ?seg = 1" "seg_seq ?seg = 1000"
    by (simp_all add: segment_of_def segment_length_def)
  show ?thesis
    using closed_port_answers_reset [of tcp_pcbs_new host_ep gw_ep flag_syn host_net gw_mac ?seg "[]" 0] s l by simp
qed

text \<open>
  C21: An acceptable RST ends a connection: the block is freed, its retransmission queue and
  backlog are emptied, the task that waits on it is told that it failed, no segment is sent,
  and no other block changes.
\<close>

theorem reset_frees_connection:
  assumes "tcp_select pcbs loc (Some rem) = Some i" "tcb_state (pcbs ! i) \<in> {SynReceived, Established, CloseWait}"
    and "tcp_flag_exists flags RST" "seg_acceptable (recv_context (pcbs ! i)) seg = Ret True"
  shows "segment_arrives seg flags data len loc rem (pcbs, n) =
    Ret (pcbs[i := (pcbs ! i)\<lparr>tcb_state := Free, data_queue := [], backlog := []\<rparr>], wake (tcb_sender (pcbs ! i)) False n)"
  by (rule reset_received [OF assms])

theorem reset_frees_connection_witness:
  "segment_arrives (segment_of 1001 5001 flag_rst 0 []) flag_rst [] 0 gw_ep host_ep (one_block peer_pcb, peer_net) =
     Ret (one_block (peer_pcb\<lparr>tcb_state := Free, data_queue := [], backlog := []\<rparr>), wake (Some 0) False peer_net)"
proof -
  let ?seg = "segment_of 1001 5001 flag_rst 0 []"
  have "seq_in_window (recv_context peer_pcb) 1001 = Ret True"
    using window_start [of "recv_context peer_pcb"] by simp
  then have "seg_acceptable (recv_context (one_block peer_pcb ! 0)) ?seg = Ret True"
    by (simp add: seg_acceptable_def segment_of_def segment_length_def)
  from reset_frees_connection [OF _ _ _ this, of gw_ep host_ep flag_rst] show ?thesis by simp
qed

text \<open>
  C22: Sending right after a passive open panics. When the ACK that completes the handshake
  reaches a block in SYN-RECEIVED whose send window is still zero, as in a block that was
  never used before, the block becomes ESTABLISHED without taking over the acknowledgement and
  the window of that segment, so a pass of send that runs before any further segment has
  arrived computes the capacity 0 - 1. (A later segment that acknowledges more would set
  both.)
\<close>

theorem send_after_passive_open_panics:
  assumes "tcp_select pcbs loc (Some rem) = Some i" "tcb_state (pcbs ! i) = SynReceived" "parent_id (pcbs ! i) = None"
    and "snd_window (send_context (pcbs ! i)) = 0" "snd_una (send_context (pcbs ! i)) < 0xffffffff"
    and "snd_next (send_context (pcbs ! i)) = snd_una (send_context (pcbs ! i)) + 1"
    and "seg_ack seg = snd_next (send_context (pcbs ! i))"
    and "seg_seq seg = rcv_next (recv_context (pcbs ! i))" "seg_len seg = 0"
    and "unat (rcv_next (recv_context (pcbs ! i))) + unat (rcv_window (recv_context (pcbs ! i))) < 4294967296"
    and "0 < rcv_window (recv_context (pcbs ! i))" "40 \<le> mtu (device n)" "data \<noteq> []"
  shows "\<exists>pcbs' n'. segment_arrives seg flag_ack [] 0 loc rem (pcbs, n) = Ret (pcbs', n') \<and>
    tcb_state (pcbs' ! i) = Established \<and> send_pass c i data 0 (pcbs', n') = Some (Fault Overflow)"
proof -
  let ?sc = "send_context (pcbs ! i)" and ?p = "(pcbs ! i)\<lparr>tcb_state := Established\<rparr>"
  have i: "i < length pcbs" using tcp_select_length [OF assms(1)] .
  have "unat (snd_una ?sc) + 1 < 4294967296" using assms(5) by (simp add: word_less_nat_alt)
  then have le: "snd_una ?sc \<le> snd_una ?sc + 1" by (simp add: word_le_nat_alt unat_word_ariths)
  have "segment_arrives seg flag_ack [] 0 loc rem (pcbs, n) =
      Ret (pcbs[i := ?p], wake (tcb_sender (pcbs ! i)) True n)"
    by (rule handshake_completed [OF assms(1-3)]) (use assms le in simp_all)
  moreover have "send_pass c i data 0 (pcbs[i := ?p], wake (tcb_sender (pcbs ! i)) True n) = Some (Fault Overflow)"
    by (rule send_beyond_window) (use assms i le in simp_all)
  ultimately show ?thesis using i by auto
qed

theorem send_after_passive_open_panics_witness:
  "\<exists>pcbs' n'. segment_arrives (segment_of 1001 5001 flag_ack 65535 []) flag_ack [] 0 gw_ep host_ep
      (one_block (peer_pcb\<lparr>tcb_state := SynReceived\<rparr>), peer_net) = Ret (pcbs', n') \<and>
    send_pass 0 0 [72, 105] 0 (pcbs', n') = Some (Fault Overflow)"
proof -
  have s: "tcp_select (one_block (peer_pcb\<lparr>tcb_state := SynReceived\<rparr>)) gw_ep (Some host_ep) = Some 0"
    by (rule select_one) (simp_all add: local_match_def)
  show ?thesis
    using send_after_passive_open_panics [OF s, of "segment_of 1001 5001 flag_ack 65535 []" peer_net "[72, 105]" 0]
    by (simp add: segment_of_def segment_length_def peer_pcb_def tcp_pcb_new_def) blast
qed

text \<open>
  C23: Accepting on a listening socket does the opposite of what it means to: without a
  pending connection it returns nothing at once instead of waiting, and with one it goes to
  sleep on its new channel instead of returning it.
\<close>

theorem accept_inverted:
  assumes "i < length pcbs" "tcb_mode (pcbs ! i) = Socket" "tcb_state (pcbs ! i) = Listen"
    and "\<And>c. tcb_sender (pcbs ! i) = Some c \<Longrightarrow> c < length (chans n)"
  shows "\<exists>c l m m'. accept_begin i (pcbs, n) = Ret (c, l, m) \<and>
    accept_resume c i l m = Ret (if backlog (pcbs ! i) = [] then Returned None else Sleeping, l, m')"
  by (rule accept_outcome [OF assms])

theorem accept_inverted_witness:
  "\<exists>c l m m'. accept_begin 0 (one_block (listen_pcb\<lparr>tcb_mode := Socket, backlog := [3]\<rparr>), peer_net) = Ret (c, l, m) \<and>
     accept_resume c 0 l m = Ret (Sleeping, l, m')"
  using accept_inverted [of 0 "one_block (listen_pcb\<lparr>tcb_mode := Socket, backlog := [3]\<rparr>)" peer_net]
  by (simp add: listen_pcb_def tcp_pcb_new_def)

text \<open>
  C24: A tick of the retransmission thread empties the queue of every control block, whether
  or not the entries were acknowledged or sent again; beyond that a block is unchanged or
  released.
\<close>

theorem retransmission_drains_queues:
  assumes "retransmit pcbs n = Ret (pcbs', n')" "tcp_wf pcbs"
  shows "list_all2 (\<lambda>p p'. p' = p\<lparr>data_queue := []\<rparr> \<or>
    p' = p\<lparr>tcb_state := Free, data_queue := [], backlog := []\<rparr>) pcbs pcbs'"
  by (rule retransmit_empties [OF assms(1)]) (use assms(2) in \<open>auto simp: tcp_wf_def tcp_pcb_ok_def\<close>)

theorem retransmission_drains_queues_witness:
  "\<exists>n'. retransmit queued_pcbs host_net = Ret (open_pcbs, n') \<and>
     list_all2 (\<lambda>p p'. p' = p\<lparr>data_queue := []\<rparr> \<or>
       p' = p\<lparr>tcb_state := Free, data_queue := [], backlog := []\<rparr>) queued_pcbs open_pcbs"
  using queued_retransmit retransmission_drains_queues [OF _ queued_pcbs_wf] by blast

text \<open>
  C25: Cleaning the retransmission queue removes one entry only: of the longest prefix of
  entries whose sequence number lies below una, the last one goes and the others stay.
\<close>

theorem acked_segment_removal:
  "clean_data_queue pcb = pcb\<lparr>data_queue :=
     (let acked = takeWhile (\<lambda>e. q_seq e < snd_una (send_context pcb)) (data_queue pcb)
      in butlast acked @ drop (length acked) (data_queue pcb))\<rparr>"
  by (rule clean_data_queue_eq)

text \<open>
  C26: Allocation of control blocks: a TCP block that is handed out was free, leaves exactly
  one free block less and changes no other block, and allocation fails only when no block is
  free.
\<close>

theorem allocation_counts:
  "case new_entry pcbs of
     None \<Rightarrow> \<forall>p \<in> set pcbs. tcb_state p \<noteq> Free
   | Some (i, pcbs') \<Rightarrow> i < length pcbs \<and> tcb_state (pcbs ! i) = Free \<and> length pcbs' = length pcbs \<and>
       (\<forall>j. j \<noteq> i \<longrightarrow> pcbs' ! j = pcbs ! j) \<and>
       Suc (length (filter (\<lambda>p. tcb_state p = Free) pcbs')) = length (filter (\<lambda>p. tcb_state p = Free) pcbs)"
proof (cases "new_entry pcbs")
  case None
  then show ?thesis using tcp_table.alloc_None by auto
next
  case (Some r)
  then obtain i pcbs' where r: "new_entry pcbs = Some (i, pcbs')" by (cases r) simp
  then show ?thesis
    using tcp_table.alloc_Some [OF r] tcp_table.alloc_others [OF r] tcp_table.alloc_length [OF r]
      tcp_table.alloc_count [OF r] by simp
qed

theorem allocation_counts_witness:
  "case new_entry tcp_pcbs_new of None \<Rightarrow> False
   | Some (i, pcbs') \<Rightarrow> length (filter (\<lambda>p. tcb_state p = Free) pcbs') = 15"
proof -
  have "new_entry tcp_pcbs_new \<noteq> None"
    by (simp add: new_entry_def tcp_pcbs_new_Cons)
  with allocation_counts [of tcp_pcbs_new] show ?thesis
    by (auto simp: tcp_pcbs_new_def TCP_PCB_COUNT_def)
qed

section \<open>UDP\<close>

text \<open>
  C27: For a client that binds only sockets that open has returned to it and that were not
  deleted since, as the commands do: from the initial table, through every sequence of its
  opens, binds and receive calls, of deletions and of arriving datagrams, the sockets it holds
  are open, free sockets are unbound and hold no data, no two bound sockets overlap, and every
  sender kept in a socket is an existing channel. (bind itself does not check that the socket
  is open; without this discipline of the client two sockets may overlap, as the next property
  shows.)
\<close>

theorem udp_reachable_inv_holds:
  assumes "udp_session\<^sup>*\<^sup>* ({}, udp_pcbs_new, w) (socks, pcbs, w')"
  shows "udp_wf pcbs \<and> udp_senders_ok pcbs w' \<and> (\<forall>i \<in> socks. i < length pcbs \<and> udp_state (pcbs ! i) = UdpOpen)"
  using udp_session_reachable [OF assms] by simp

theorem udp_reachable_inv_holds_witness:
  "udp_wf (bound_pcb\<lparr>udp_sender := None\<rparr> # replicate 15 udp_pcb_new)"
proof -
  let ?o = "udp_pcb_new\<lparr>udp_state := UdpOpen\<rparr> # replicate 15 udp_pcb_new"
  let ?b = "bound_pcb\<lparr>udp_sender := None\<rparr> # replicate 15 udp_pcb_new"
  have "udp_open udp_pcbs_new = Ret (0, ?o)"
    by (simp add: udp_pcbs_new_Cons udp_open_def) (simp add: udp_pcb_new_def)
  then have s1: "udp_session ({}, udp_pcbs_new, quiet_world) ({0}, ?o, quiet_world)" by (rule step_open)
  have "udp_get_by_host ?o (ep_address gw_ep) (ep_port gw_ep) = None"
    by (auto simp: udp_get_by_host_def first_index_None udp_host_match_def udp_pcb_new_def endpoint_any_def)
  then have b: "udp_bind ?o 0 gw_ep = Ret ?b" by (simp add: udp_bind_def bound_pcb_def udp_pcb_new_def)
  have s2: "udp_session ({0}, ?o, quiet_world) ({0}, ?b, quiet_world)" by (rule step_bind [OF _ b]) simp
  have "udp_session\<^sup>*\<^sup>* ({}, udp_pcbs_new, quiet_world) ({0}, ?b, quiet_world)"
    by (rule rtranclp.rtrancl_into_rtrancl [of udp_session, OF r_into_rtranclp [of udp_session, OF s1] s2])
  then show ?thesis using udp_reachable_inv_holds by blast
qed

text \<open>
  C28: bind accepts a socket that is not open, and open keeps the endpoint it finds: binding
  socket 1 before it is opened, then opening and binding socket 0 to the same endpoint and
  opening socket 1 succeeds in every step and leaves two open sockets with the same endpoint,
  although bind means to exclude that.
\<close>

theorem bind_before_open_overlaps:
  assumes "ep_port ep \<noteq> 0"
  shows "\<exists>p1 p2 p3 p4. udp_bind udp_pcbs_new 1 ep = Ret p1 \<and> udp_open p1 = Ret (0, p2) \<and> udp_bind p2 0 ep = Ret p3 \<and>
    udp_open p3 = Ret (1, p4) \<and> udp_state (p4 ! 0) = UdpOpen \<and> udp_state (p4 ! 1) = UdpOpen \<and>
    udp_local (p4 ! 0) = ep \<and> udp_local (p4 ! 1) = ep"
  by (rule bind_before_open [OF assms])

theorem bind_before_open_overlaps_witness:
  "\<exists>p1 p2 p3 p4. udp_bind udp_pcbs_new 1 gw_ep = Ret p1 \<and> udp_open p1 = Ret (0, p2) \<and> udp_bind p2 0 gw_ep = Ret p3 \<and>
    udp_open p3 = Ret (1, p4) \<and> udp_state (p4 ! 0) = UdpOpen \<and> udp_state (p4 ! 1) = UdpOpen \<and>
    udp_local (p4 ! 0) = gw_ep \<and> udp_local (p4 ! 1) = gw_ep"
  by (rule bind_before_open_overlaps) simp

text \<open>
  C29: In a well-formed table a datagram for a bound socket goes to that socket and to no
  other: if a socket is bound to the destination port, on the destination address or on any
  address, the search finds exactly it.
\<close>

theorem udp_demultiplexes:
  assumes "udp_wf pcbs" "i < length pcbs" "udp_state (pcbs ! i) = UdpOpen" "port \<noteq> 0" "dst \<noteq> IP_ADDR_ANY"
    and "ep_port (udp_local (pcbs ! i)) = port" "ep_address (udp_local (pcbs ! i)) \<in> {IP_ADDR_ANY, dst}"
  shows "udp_get_by_host pcbs dst port = Some i"
  by (rule udp_demux) (use assms in \<open>simp_all add: bound_open_def\<close>)

theorem udp_demultiplexes_witness:
  "udp_get_by_host ((udp_pcbs_new)[3 := bound_pcb]) gw_ip 0x1727 = Some 3"
proof -
  have wf: "udp_wf (udp_pcbs_new[3 := bound_pcb])"
    by (rule udp_wf_update [OF udp_pcbs_new_wf]) (auto simp: udp_pcbs_new_def UDP_PCB_COUNT_def udp_pcb_new_def bound_open_def bound_pcb_def endpoint_any_def)
  show ?thesis
    by (rule udp_demultiplexes [OF wf])
      (simp_all add: udp_pcbs_new_def UDP_PCB_COUNT_def bound_pcb_def gw_ip_def IP_ADDR_ANY_def)
qed



section \<open>Configuration and routing\<close>

text \<open>
  C31: When every system call of the TAP driver succeeds, start-up builds the documented
  configuration: loopback 127.0.0.1 and TAP 192.0.2.2 both up, an empty ARP cache, the
  identification counter at 128, empty ARP and IP queues and free control blocks; and its
  routes send 127.0.0.0/24 to the loopback interface and every other destination, hosts of the
  TAP's own subnet included, to the default gateway 192.0.2.1.
\<close>

theorem configuration:
  assumes "tap_os_ok os file hw"
  shows "app_new os w = Ret (config_app file hw w) \<and>
    lookup_ip_route (ctx_ip_routes (st_contexts (app_stack (config_app file hw w)))) dst =
      Some (if dst AND 0x00FFFFFF = 0x0000007F then interface_route lo_interface else gw_route)"
  using app_new_config [OF assms] config_route [of dst] by (simp add: config_app_def config_contexts_def)

theorem configuration_witness:
  "app_new host_os quiet_world = Ret (config_app no_input host_hw quiet_world) \<and>
   lookup_ip_route (ctx_ip_routes (st_contexts (app_stack (config_app no_input host_hw quiet_world)))) gw_ip = Some gw_route"
  using configuration [OF host_os_ok, of quiet_world gw_ip] by (simp add: gw_ip_def)

text \<open>
  C32: Routing is longest prefix match: after any registrations, a lookup finds a matching
  route whose mask is maximal among all matching ones, the earliest registered of these, and
  finds none only when no route matches.
\<close>

theorem longest_prefix_match:
  "case lookup_ip_route (foldl ip_routes_register ip_routes_new rs) dst of
     None \<Rightarrow> \<forall>r \<in> set rs. \<not> route_matches dst r
   | Some r \<Rightarrow> \<exists>pre post. rs = pre @ r # post \<and> route_matches dst r \<and>
       (\<forall>r' \<in> set pre. route_matches dst r' \<longrightarrow> be_to_le_u32 (rt_netmask r') < be_to_le_u32 (rt_netmask r)) \<and>
       (\<forall>r' \<in> set post. route_matches dst r' \<longrightarrow> be_to_le_u32 (rt_netmask r') \<le> be_to_le_u32 (rt_netmask r))"
proof -
  have "list_iter (foldl ip_routes_register ip_routes_new rs) = rs"
    using rust_list.iter_of_pushes [of rs] by (simp add: ip_routes_register_def ip_routes_new_def cong: foldl_cong)
  then show ?thesis
    using lookup_fold_Some [of dst rs] lookup_fold_None [of dst rs]
    by (simp add: lookup_ip_route_def split: option.split)
qed

theorem longest_prefix_match_witness:
  "case lookup_ip_route (foldl ip_routes_register ip_routes_new [gw_route, interface_route lo_interface]) 0x0100007F of
     None \<Rightarrow> False | Some r \<Rightarrow> r = interface_route lo_interface"
proof -
  have m: "route_matches 0x0100007F (interface_route lo_interface)" "route_matches 0x0100007F gw_route"
    "be_to_le_u32 (rt_netmask gw_route) < be_to_le_u32 (rt_netmask (interface_route lo_interface))"
    by (simp_all add: route_matches_def interface_route_def gw_route_def gateway_route_def lo_interface_def
        byte_order_defs byte_swap_u32_def ip_interface_new_def IP_ADDR_ANY_def)
  from longest_prefix_match [of "[gw_route, interface_route lo_interface]" "0x0100007F"] m show ?thesis
    by (auto split: option.splits simp: Cons_eq_append_conv)
qed

section \<open>IP and ARP\<close>

text \<open>
  C33: Every outcome of sending an IP packet from an open Ethernet device: without a route, or
  with a source that is not the address of the route's interface, an error; with the 16-bit
  identification counter used up, an overflow panic; to a broadcast address, a panic; to a
  next hop that is not resolved, the packet is lost, an ARP request is sent and success
  reported; with more than 1480 bytes of payload, a panic, since there is no fragmentation;
  and otherwise exactly one frame with the packet, addressed to the next hop.
\<close>

theorem ip_output_outcomes:
  assumes "tap_ready (device n)" "needs_arp n" "length data \<le> 65515"
    and "\<And>route e. lookup_ip_route (ctx_ip_routes (contexts n)) dst = Some route \<Longrightarrow>
      ctx_arp_table (contexts n) (next_hop_of route dst) = Some e \<Longrightarrow>
      timestamp e \<le> clock n (readings n) \<and> length (hw_address e) = 6"
  shows "case lookup_ip_route (ctx_ip_routes (contexts n)) dst of
      None \<Rightarrow> ip_output p data src dst n = Ret (Err, n)
    | Some route \<Rightarrow>
        if \<not> src_allowed src route then ip_output p data src dst n = Ret (Err, n)
        else if ctx_ip_id (contexts n) = 0xffff then ip_output p data src dst n = Fault Overflow
        else if is_broadcast dst route then ip_output p data src dst n = Fault UnwrapFailed
        else (case arp_lookup (ctx_arp_table (contexts n)) (next_hop_of route dst) (clock n (readings n)) of
            None \<Rightarrow> \<exists>n'. ip_output p data src dst n = Ret (Ok (), n') \<and>
              tap_sent (device n') = tap_sent (device n) @
                [arp_request_frame (device n) (unicast (rt_interface route)) (next_hop_of route dst)] \<and>
              ctx_arp_table (contexts n') = (ctx_arp_table (contexts n))(next_hop_of route dst := None)
          | Some hw \<Rightarrow>
              if 1480 < length data then ip_output p data src dst n = Fault OutOfRange
              else \<exists>n'. ip_output p data src dst n = Ret (Ok (), n') \<and>
                tap_sent (device n') = tap_sent (device n) @ [eth_frame hw (dev_mac (device n)) IP_Type
                  (ip_packet p (unicast (rt_interface route)) dst (ctx_ip_id (contexts n) + 1) data)] \<and>
                contexts n' = (contexts n)\<lparr>ctx_ip_id := ctx_ip_id (contexts n) + 1\<rparr>)"
  by (rule ip_output_outcome [OF assms])

theorem ip_output_outcomes_witness: "ip_output Udp (replicate 1481 0) host_ip gw_ip host_net = Fault OutOfRange"
proof -
  have "tap_ready (device host_net)" "needs_arp host_net" "length (replicate 1481 (0 :: u8)) \<le> 65515" by simp_all
  moreover have "timestamp e \<le> clock host_net (readings host_net) \<and> length (hw_address e) = 6"
    if "lookup_ip_route (ctx_ip_routes (contexts host_net)) gw_ip = Some route"
      "ctx_arp_table (contexts host_net) (next_hop_of route gw_ip) = Some e" for route e
    using that by auto
  ultimately show ?thesis
    using ip_output_outcomes [of host_net "replicate 1481 0" gw_ip Udp host_ip] by (simp add: arp_lookup_def as_secs_def ARP_CACHE_TIMEOUT_SECS_def)
qed

text \<open>
  C34: The packet that the output side builds, with any padding after it, at the input side: a
  host with the destination address gives the payload, padding included since the total length
  of the header is not used to cut it off, to the handler of its protocol; at a host with
  another address it is an error, which the caller unwraps, so a misdirected packet is a
  panic.
\<close>

theorem ip_packet_roundtrip:
  assumes "length data \<le> 65515" "get_interface (device n) IP_Family = Some iface" "create_ip_header p src dst data i = Ret h"
  shows "if unicast iface = dst
    then ip_input (to_u8_slice ip_header_layout h @ data @ pad) (20 + length data + length pad) cbs n =
      ip_dispatch p (data @ pad) (length data + length pad) src dst iface cbs n
    else protocol_input IP_Type (to_u8_slice ip_header_layout h @ data @ pad) (20 + length data + length pad) cbs n =
      Fault UnwrapFailed"
  using ip_input_packet [OF assms(1,2), of dst p src i pad cbs] assms(3)
    protocol_input_error [OF ip_input_not_ours [OF assms(1,2), of dst p src i pad cbs]]
  by (simp add: ip_packet_def)

theorem ip_packet_roundtrip_witness:
  "\<exists>h. create_ip_header Udp host_ip gw_ip [72, 105] 129 = Ret h \<and>
     ip_input (to_u8_slice ip_header_layout h @ [72, 105] @ replicate 24 0) (20 + length [72, 105 :: u8] + length (replicate 24 (0 :: u8)))
        peer_blocks peer_net =
     ip_dispatch Udp ([72, 105] @ replicate 24 0) (length [72, 105 :: u8] + length (replicate 24 (0 :: u8))) host_ip gw_ip
        peer_interface peer_blocks peer_net"
proof -
  have l: "length ([72, 105] :: bytes) \<le> 65515" by simp
  obtain h where h: "create_ip_header Udp host_ip gw_ip [72, 105] 129 = Ret h"
    by (rule create_ip_header_Ret [OF l])
  have g: "get_interface (device peer_net) IP_Family = Some peer_interface" and u: "unicast peer_interface = gw_ip" by simp_all
  from ip_packet_roundtrip [OF l g h, of "replicate 24 0" peer_blocks, unfolded if_P [OF u]] h show ?thesis by blast
qed

text \<open>
  C35: The ARP cache implements an expiring map: an update stores the address with the current
  time, and a later get returns exactly the addresses stored at most four hours ago, dropping
  an expired entry; entries of other addresses do not change.
\<close>

theorem arp_cache_refines:
  assumes "\<And>e. t ip = Some e \<Longrightarrow> timestamp e \<le> clock w (readings w)"
  shows "\<exists>t' w'. arp_table_get t ip w = Ret (arp_lookup t ip (clock w (readings w)), t', w') \<and>
      (\<forall>ip' now. clock w (readings w) \<le> now \<longrightarrow> arp_lookup t' ip' now = arp_lookup t ip' now) \<and>
      fst (arp_table_update t ip hw w) = arp_learn t ip hw (clock w (readings w)) \<and>
      (\<forall>now. arp_lookup (fst (arp_table_update t ip hw w)) ip now =
         (if arp_fresh (clock w (readings w)) now then Some hw else None)) \<and>
      (\<forall>ip' now. ip' \<noteq> ip \<longrightarrow> arp_lookup (fst (arp_table_update t ip hw w)) ip' now = arp_lookup t ip' now)"
proof -
  have late: "arp_lookup t ip now = None" if "arp_lookup t ip s = None" "s \<le> now" for s now
    using that by (auto simp: arp_lookup_def as_secs_def not_le split: option.splits if_splits
        dest: less_le_trans [OF _ div_le_mono])
  obtain t' w' where get: "arp_table_get t ip w = Ret (arp_lookup t ip (clock w (readings w)), t', w')"
    "t' = (if arp_lookup t ip (clock w (readings w)) = None then t(ip := None) else t)"
    using arp_table_get_refines [of t ip w] assms by blast
  have "arp_lookup t' ip' now = arp_lookup t ip' now" if "clock w (readings w) \<le> now" for ip' now
    using late [OF _ that] get(2) by (cases "ip' = ip") (auto simp: arp_lookup_def)
  then show ?thesis
    using get(1) by (intro exI [of _ t'] exI [of _ w'])
      (simp add: arp_table_update_eq arp_cache.lookup_learn arp_cache.lookup_learn_other)
qed

theorem arp_cache_refines_witness:
  "\<exists>t' w'. arp_table_get (arp_table_new(gw_ip \<mapsto> gw_entry)) gw_ip quiet_world =
     Ret (arp_lookup (arp_table_new(gw_ip \<mapsto> gw_entry)) gw_ip 0, t', w')"
  using arp_cache_refines [of "arp_table_new(gw_ip \<mapsto> gw_entry)" gw_ip quiet_world gw_mac]
  by (auto simp: quiet_world_def)

section \<open>Devices and utilities\<close>

text \<open>
  C36: Transmission on an opened TAP device writes one frame: destination, source, type,
  payload and zero padding up to 60 bytes, never more than 1514; a payload above 1500 bytes
  panics instead.
\<close>

theorem ethernet_frame_sent:
  assumes "tap_ready d" "length dst = 6"
  shows "if length data \<le> 1500
    then \<exists>d' fr. ethernet_transmit d ty data len dst = Ret (Ok (), d') \<and> tap_sent d' = tap_sent d @ [fr] \<and>
      fr = dst @ take 6 (dev_address d) @ rev (u16_to_bytes (protocol_type_as_u16 ty)) @ data @ replicate (46 - length data) 0 \<and>
      60 \<le> length fr \<and> length fr \<le> 1514
    else ethernet_transmit d ty data len dst = Fault OutOfRange"
  using assms ethernet_transmit_Ret [OF assms, of data ty len] ethernet_transmit_too_long [OF assms, of data ty len]
    length_eth_frame [OF assms(2) length_dev_mac [OF assms(1)], of ty data]
  by (auto simp: eth_frame_def dev_mac_def device_consts)

theorem ethernet_frame_sent_witness:
  "\<exists>d' fr. ethernet_transmit (eth_device no_input host_hw) IP_Type [1, 2, 3] 3 gw_mac = Ret (Ok (), d') \<and>
     tap_sent d' = tap_sent (eth_device no_input host_hw) @ [fr] \<and> 60 \<le> length fr"
  using ethernet_frame_sent [of "eth_device no_input host_hw" gw_mac "[1, 2, 3]" IP_Type 3] by auto

text \<open>
  C37: The checksum routine computes the Internet checksum: the complement of the one's
  complement sum of the big-endian 16-bit words, an odd last byte padded with zero, as long as
  the 32-bit accumulator does not overflow.
\<close>

theorem checksum_reference:
  assumes "len \<le> length data" "unat init + word_sum (take len data) < 4294967296"
  shows "cksum16 data len init = Ret (of_nat (65535 - ones_fold (unat init + word_sum (take len data))))"
  by (rule cksum16_reference [OF assms])

theorem checksum_reference_witness: "cksum16 [0x45, 0, 0, 0x1c, 0xff] 5 0 = Ret 0xbbe2"
  using checksum_reference [of 5 "[0x45, 0, 0, 0x1c, 0xff]" 0] by (simp add: ones_fold_def)

text \<open>
  C38: A checksum stored in a zeroed, aligned field verifies: the routine gives zero on the
  buffer with the field filled in.
\<close>

theorem checksum_verifies:
  assumes "even k" "k + 1 < length data" "data ! k = 0" "data ! (k + 1) = 0"
    and "unat init + word_sum data + 65535 < 4294967296" "cksum16 data (length data) init = Ret c"
  shows "cksum16 (put_be16 data k c) (length data) init = Ret 0"
  by (rule cksum16_insert [OF assms])

theorem checksum_verifies_witness:
  "cksum16 [8, 0, 0xf7, 0xfe, 0, 1] (length [8, 0, 0xf7, 0xfe, 0, 1 :: u8]) 0 = Ret 0"
proof -
  let ?d = "[8, 0, 0, 0, 0, 1] :: bytes"
  have "cksum16 ?d (length ?d) 0 = Ret 0xf7fe"
    using cksum16_reference [of "length ?d" ?d 0] by (simp add: ones_fold_def)
  then have "cksum16 (put_be16 ?d 2 0xf7fe) (length ?d) 0 = Ret 0"
    by (intro checksum_verifies) simp_all
  then show ?thesis by (simp add: put_be16_def)
qed

text \<open>
  C39: Printing an IPv4 address and parsing the result gives the address back, for every
  address.
\<close>

theorem address_roundtrip: "ip_addr_to_bytes (ip_addr_to_str addr) = Ret (Some addr)"
  by (rule ip_addr_to_bytes_to_str)

end
